(* ===== verification/Go_Prelude.thy ===== *)
theory Go_Prelude
  imports Main "HOL-Library.Char_ord" "HOL-Library.List_Lexorder" "HOL-Library.Sublist"
begin

text \<open>
  The prelude of the development: Go error values, the programs the operator's code is
  translated to, and the lemmas every component shares.

  A Go function that calls the Kubernetes API or a router becomes a program: a function of the
  world that returns an error or a value and the new world.  \<open>bindE\<close> is the ubiquitous
  ``\<^verbatim>\<open>if err != nil { return err }\<close>'', \<open>tryE\<close> hands the outcome of a call to code that
  inspects the error, \<open>forE\<close> is a \<^verbatim>\<open>for range\<close> loop that returns at the first error and
  \<open>deferE\<close> is \<^verbatim>\<open>defer\<close>.  The world type is a type variable: the API server and the
  routers are not code of this repository and are parameters of the definitions that use them.
\<close>

named_theorems prog_simps \<open>unfolding of program combinators\<close>
named_theorems frame_intros \<open>introduction rules for frame conditions of programs\<close>

section \<open>Errors\<close>

text \<open>The sentinel errors of \<^verbatim>\<open>router_controller.go\<close>, compared with \<^verbatim>\<open>errors.Is\<close>.\<close>

datatype sentinel =
    ErrServiceNotAddressable
  | ErrGeneratedChildAmbiguity
  | ErrGeneratedChildCollision
  | ErrGeneratedClaimWaiting
  | ErrImplicitRouterSelection

primrec sentinelText :: "sentinel \<Rightarrow> string" where
  "sentinelText ErrServiceNotAddressable = ''service is not addressable''"
| "sentinelText ErrGeneratedChildAmbiguity = ''generated child configuration is ambiguous''"
| "sentinelText ErrGeneratedChildCollision = ''generated child conflicts with another owner''"
| "sentinelText ErrGeneratedClaimWaiting = ''waiting for losing generated claim to be removed''"
| "sentinelText ErrImplicitRouterSelection = ''implicit router selection is invalid''"

text \<open>
  A Go error value: an opaque text, a sentinel, an API status error with the class the
  \<^verbatim>\<open>apierrors.IsX\<close> predicates give it, an error that wraps others (\<^verbatim>\<open>fmt.Errorf\<close> with
  \<^verbatim>\<open>%w\<close>), a joined error (\<^verbatim>\<open>errors.Join\<close>), and a nil dereference.
\<close>

datatype reason = NotFound | AlreadyExists | OtherReason

datatype goerr =
    Opaque string
  | Sentinel sentinel
  | StatusError reason int string
  | Wrapped string "goerr list"
  | Joined "goerr list"
  | Panic string

fun intersperseLines :: "string list \<Rightarrow> string" where
  "intersperseLines [] = []"
| "intersperseLines [x] = x"
| "intersperseLines (x # y # ys) = x @ CHR 0x0A # intersperseLines (y # ys)"

fun errorText :: "goerr \<Rightarrow> string" where
  "errorText (Opaque s) = s"
| "errorText (Sentinel s) = sentinelText s"
| "errorText (StatusError _ _ s) = s"
| "errorText (Wrapped s _) = s"
| "errorText (Joined es) = intersperseLines (map errorText es)"
| "errorText (Panic s) = s"

fun errorsIs :: "goerr \<Rightarrow> sentinel \<Rightarrow> bool" where
  "errorsIs (Opaque _) t = False"
| "errorsIs (Sentinel s) t = (s = t)"
| "errorsIs (StatusError _ _ _) t = False"
| "errorsIs (Wrapped _ es) t = (\<exists>e\<in>set es. errorsIs e t)"
| "errorsIs (Joined es) t = (\<exists>e\<in>set es. errorsIs e t)"
| "errorsIs (Panic _) t = False"

text \<open>\<^verbatim>\<open>errors.As\<close> for an API status error: the first one of the tree, depth first.\<close>

fun firstSome :: "'a option list \<Rightarrow> 'a option" where
  "firstSome [] = None"
| "firstSome (None # xs) = firstSome xs"
| "firstSome (Some x # xs) = Some x"

fun statusOf :: "goerr \<Rightarrow> (reason \<times> int \<times> string) option" where
  "statusOf (Opaque _) = None"
| "statusOf (Sentinel _) = None"
| "statusOf (StatusError r c m) = Some (r, c, m)"
| "statusOf (Wrapped _ es) = firstSome (map statusOf es)"
| "statusOf (Joined es) = firstSome (map statusOf es)"
| "statusOf (Panic _) = None"

definition isNotFound :: "goerr \<Rightarrow> bool" where
  "isNotFound e = (case statusOf e of Some (NotFound, _, _) \<Rightarrow> True | _ \<Rightarrow> False)"

definition isAlreadyExists :: "goerr \<Rightarrow> bool" where
  "isAlreadyExists e = (case statusOf e of Some (AlreadyExists, _, _) \<Rightarrow> True | _ \<Rightarrow> False)"

text \<open>\<^verbatim>\<open>errors.Join\<close>: nil errors are dropped, no error at all gives nil.\<close>

definition errorsJoin :: "goerr option list \<Rightarrow> goerr option" where
  "errorsJoin es =
     (let xs = concat (map (\<lambda>e. case e of None \<Rightarrow> [] | Some x \<Rightarrow> [x]) es)
      in if xs = [] then None else Some (Joined xs))"

lemma errorsJoin_None_iff: "errorsJoin es = None \<longleftrightarrow> (\<forall>e\<in>set es. e = None)"
  by (force simp: errorsJoin_def Let_def split: option.splits)

lemma errorsIs_Joined_member:
  "e \<in> set es \<Longrightarrow> errorsIs e t \<Longrightarrow> errorsIs (Joined es) t"
  by auto

section \<open>Programs\<close>

type_synonym ('w, 'a) prog = "'w \<Rightarrow> (goerr + 'a) \<times> 'w"

definition returnE :: "'a \<Rightarrow> ('w, 'a) prog" where
  "returnE x = (\<lambda>w. (Inr x, w))"

definition failE :: "goerr \<Rightarrow> ('w, 'a) prog" where
  "failE e = (\<lambda>w. (Inl e, w))"

definition bindE :: "('w, 'a) prog \<Rightarrow> ('a \<Rightarrow> ('w, 'b) prog) \<Rightarrow> ('w, 'b) prog" where
  "bindE m f = (\<lambda>w. case m w of (Inl e, w') \<Rightarrow> (Inl e, w') | (Inr x, w') \<Rightarrow> f x w')"

definition tryE :: "('w, 'a) prog \<Rightarrow> (goerr + 'a \<Rightarrow> ('w, 'b) prog) \<Rightarrow> ('w, 'b) prog" where
  "tryE m f = (\<lambda>w. case m w of (r, w') \<Rightarrow> f r w')"

definition deferE :: "('w, 'a) prog \<Rightarrow> ('w, 'b) prog \<Rightarrow> ('w, 'a) prog" where
  "deferE m cleanup = (\<lambda>w. case m w of (r, w') \<Rightarrow> (r, snd (cleanup w')))"

definition readE :: "('w \<Rightarrow> goerr + 'a) \<Rightarrow> ('w, 'a) prog" where
  "readE f = (\<lambda>w. (f w, w))"

fun forE :: "('a \<Rightarrow> ('w, unit) prog) \<Rightarrow> 'a list \<Rightarrow> ('w, unit) prog" where
  "forE f [] = returnE ()"
| "forE f (x # xs) = bindE (f x) (\<lambda>_. forE f xs)"

definition liftErr :: "goerr option \<Rightarrow> ('w, unit) prog" where
  "liftErr e = (case e of None \<Rightarrow> returnE () | Some x \<Rightarrow> failE x)"

lemma returnE_apply [simp, prog_simps]: "returnE x w = (Inr x, w)"
  by (simp add: returnE_def)

lemma failE_apply [simp, prog_simps]: "failE e w = (Inl e, w)"
  by (simp add: failE_def)

lemma readE_apply [simp, prog_simps]: "readE f w = (f w, w)"
  by (simp add: readE_def)

lemma bindE_Inr [simp]: "m w = (Inr x, w') \<Longrightarrow> bindE m f w = f x w'"
  by (simp add: bindE_def)

lemma bindE_Inl [simp]: "m w = (Inl e, w') \<Longrightarrow> bindE m f w = (Inl e, w')"
  by (simp add: bindE_def)

lemma tryE_apply: "m w = (r, w') \<Longrightarrow> tryE m f w = f r w'"
  by (simp add: tryE_def)

lemma bindE_returnE [simp]: "bindE (returnE x) f = f x"
  by (simp add: bindE_def returnE_def fun_eq_iff)

lemma bindE_failE [simp]: "bindE (failE e) f = failE e"
  by (simp add: bindE_def failE_def fun_eq_iff)

lemma bindE_assoc: "bindE (bindE m f) g = bindE m (\<lambda>x. bindE (f x) g)"
  by (auto simp: bindE_def fun_eq_iff split: prod.splits sum.splits)

lemma forE_filter:
  "forE (\<lambda>x. if P x then returnE () else f x) xs = forE f (filter (\<lambda>x. \<not> P x) xs)"
  by (induction xs) simp_all

text \<open>Inversion: how a sequence of calls can have come to its result.\<close>

lemma bindE_cases:
  assumes "bindE m f w = (r, w')"
  obtains (err) e where "m w = (Inl e, w')" and "r = Inl e"
    | (ok) x w1 where "m w = (Inr x, w1)" and "f x w1 = (r, w')"
  using assms by (auto simp: bindE_def split: prod.splits sum.splits)

lemma bindE_InrE:
  assumes "bindE m f w = (Inr y, w')"
  obtains x w1 where "m w = (Inr x, w1)" and "f x w1 = (Inr y, w')"
  using assms by (cases rule: bindE_cases) auto

lemma bindE_unitE:
  assumes "bindE m f w = (Inr y, w')"
  obtains w1 where "m w = (Inr (), w1)" and "f () w1 = (Inr y, w')"
  using assms by (elim bindE_InrE) simp

lemma tryE_E:
  assumes "tryE m f w = (r, w')"
  obtains s w1 where "m w = (s, w1)" and "f s w1 = (r, w')"
  using assms by (auto simp: tryE_def split: prod.splits)

lemma deferE_E:
  assumes "deferE m c w = (r, w')"
  obtains w1 where "m w = (r, w1)" and "w' = snd (c w1)"
  using assms by (auto simp: deferE_def split: prod.splits)

text \<open>A value that a program returns from some world in which \<open>I\<close> holds.\<close>

definition returns :: "('w \<Rightarrow> bool) \<Rightarrow> ('w, 'a) prog \<Rightarrow> 'a \<Rightarrow> bool" where
  "returns I m x \<longleftrightarrow> (\<exists>w w'. I w \<and> m w = (Inr x, w'))"

lemma returnsI: "m w = (Inr x, w') \<Longrightarrow> I w \<Longrightarrow> returns I m x"
  unfolding returns_def by blast

section \<open>Frames: what a program leaves alone\<close>

text \<open>
  \<open>keeps R m\<close>: whatever the outcome of \<open>m\<close>, error or not, the worlds before and after are
  related by \<open>R\<close>.  For a reflexive and transitive \<open>R\<close> every combinator keeps it, which is
  the one interface all frame arguments of the development use.
\<close>

definition keeps :: "('w \<Rightarrow> 'w \<Rightarrow> bool) \<Rightarrow> ('w, 'a) prog \<Rightarrow> bool" where
  "keeps R m \<longleftrightarrow> (\<forall>w. R w (snd (m w)))"

lemma keepsI: "(\<And>w r w'. m w = (r, w') \<Longrightarrow> R w w') \<Longrightarrow> keeps R m"
  unfolding keeps_def by (metis prod.collapse)

lemma keepsD: "keeps R m \<Longrightarrow> m w = (r, w') \<Longrightarrow> R w w'"
  unfolding keeps_def by (metis snd_conv)

text \<open>Branching on a value that was computed keeps what the branches keep.\<close>

lemma keeps_sum:
  "(\<And>e. x = Inl e \<Longrightarrow> keeps R (f e)) \<Longrightarrow> (\<And>y. x = Inr y \<Longrightarrow> keeps R (g y)) \<Longrightarrow>
   keeps R (case x of Inl e \<Rightarrow> f e | Inr y \<Rightarrow> g y)"
  by (cases x) simp_all

lemma keeps_option:
  "(x = None \<Longrightarrow> keeps R m) \<Longrightarrow> (\<And>y. x = Some y \<Longrightarrow> keeps R (g y)) \<Longrightarrow>
   keeps R (case x of None \<Rightarrow> m | Some y \<Rightarrow> g y)"
  by (cases x) simp_all

lemma keeps_list:
  "(x = [] \<Longrightarrow> keeps R m) \<Longrightarrow> (\<And>y ys. x = y # ys \<Longrightarrow> keeps R (g y ys)) \<Longrightarrow>
   keeps R (case x of [] \<Rightarrow> m | y # ys \<Rightarrow> g y ys)"
  by (cases x) simp_all

lemma keeps_prod: "(\<And>a b. x = (a, b) \<Longrightarrow> keeps R (f a b)) \<Longrightarrow> keeps R (case x of (a, b) \<Rightarrow> f a b)"
  by (cases x) simp

lemma keeps_Let: "(\<And>x. x = m \<Longrightarrow> keeps R (f x)) \<Longrightarrow> keeps R (Let m f)"
  by simp

lemmas keeps_branches = keeps_sum keeps_option keeps_list keeps_prod keeps_Let

definition ends :: "('w \<Rightarrow> 'w \<Rightarrow> bool) \<Rightarrow> ('w \<Rightarrow> bool) \<Rightarrow> ('w, 'a) prog \<Rightarrow> bool" where
  "ends R G m \<longleftrightarrow> (\<forall>w. R w (snd (m w)) \<or> G (snd (m w)))"

lemma endsI: "(\<And>w r w'. m w = (r, w') \<Longrightarrow> R w w' \<or> G w') \<Longrightarrow> ends R G m"
  unfolding ends_def by (metis prod.collapse)

lemma endsD: "ends R G m \<Longrightarrow> m w = (r, w') \<Longrightarrow> R w w' \<or> G w'"
  unfolding ends_def by (metis snd_conv)

lemma ends_False: "ends R (\<lambda>_. False) m = keeps R m"
  by (simp add: ends_def keeps_def)

lemma ends_mono: "ends R G m \<Longrightarrow> (\<And>w. G w \<Longrightarrow> H w) \<Longrightarrow> ends R H m"
  unfolding ends_def by blast

lemma ends_if: "(b \<Longrightarrow> ends R G m) \<Longrightarrow> (\<not> b \<Longrightarrow> ends R G n) \<Longrightarrow> ends R G (if b then m else n)"
  by simp

lemma ends_sum:
  "(\<And>e. x = Inl e \<Longrightarrow> ends R G (f e)) \<Longrightarrow> (\<And>y. x = Inr y \<Longrightarrow> ends R G (g y)) \<Longrightarrow>
   ends R G (case x of Inl e \<Rightarrow> f e | Inr y \<Rightarrow> g y)"
  by (cases x) simp_all

lemma ends_option:
  "(x = None \<Longrightarrow> ends R G m) \<Longrightarrow> (\<And>y. x = Some y \<Longrightarrow> ends R G (g y)) \<Longrightarrow>
   ends R G (case x of None \<Rightarrow> m | Some y \<Rightarrow> g y)"
  by (cases x) simp_all

lemmas ends_branches = ends_sum ends_option

locale frame =
  fixes R :: "'w \<Rightarrow> 'w \<Rightarrow> bool"
  assumes frame_refl: "R w w"
    and frame_trans: "R u v \<Longrightarrow> R v w \<Longrightarrow> R u w"
begin

lemma keeps_return: "keeps R (returnE x)"
  by (simp add: keeps_def frame_refl)

lemma keeps_fail: "keeps R (failE e)"
  by (simp add: keeps_def frame_refl)

lemma keeps_read: "keeps R (readE f)"
  by (simp add: keeps_def frame_refl)

lemma keeps_bind:
  assumes "keeps R m" and "\<And>x. keeps R (f x)"
  shows "keeps R (bindE m f)"
proof (rule keepsI)
  fix w r w'
  assume "bindE m f w = (r, w')"
  then show "R w w'"
    by (cases rule: bindE_cases) (metis assms keepsD frame_trans)+
qed

text \<open>The same when only values that \<open>m\<close> returns reach \<open>f\<close>.\<close>

lemma keeps_bind_result:
  assumes "keeps R m" and "\<And>w x w1. m w = (Inr x, w1) \<Longrightarrow> keeps R (f x)"
  shows "keeps R (bindE m f)"
proof (rule keepsI)
  fix w r w'
  assume "bindE m f w = (r, w')"
  then show "R w w'"
    by (cases rule: bindE_cases) (metis assms keepsD frame_trans)+
qed

lemma keeps_try_result:
  assumes "keeps R m" and "\<And>w x w1. m w = (x, w1) \<Longrightarrow> keeps R (f x)"
  shows "keeps R (tryE m f)"
  by (rule keepsI, erule tryE_E) (metis assms keepsD frame_trans)

lemma keeps_try:
  assumes "keeps R m" and "\<And>x. keeps R (f x)"
  shows "keeps R (tryE m f)"
  by (rule keepsI, erule tryE_E) (metis assms keepsD frame_trans)

lemma keeps_defer:
  assumes "keeps R m" and "keeps R c"
  shows "keeps R (deferE m c)"
  by (rule keepsI, erule deferE_E) (metis assms keepsD keeps_def frame_trans)

lemma keeps_for:
  assumes "\<And>x. x \<in> set xs \<Longrightarrow> keeps R (f x)"
  shows "keeps R (forE f xs)"
  using assms by (induction xs) (auto intro!: keeps_bind keeps_return)

lemma keeps_liftErr: "keeps R (liftErr e)"
  by (cases e) (simp_all add: liftErr_def keeps_return keeps_fail)

lemma keeps_if: "(b \<Longrightarrow> keeps R m) \<Longrightarrow> (\<not> b \<Longrightarrow> keeps R n) \<Longrightarrow> keeps R (if b then m else n)"
  by simp

lemmas keeps_combinators = keeps_if
  keeps_return keeps_fail keeps_read keeps_bind keeps_try keeps_defer keeps_for keeps_liftErr

text \<open>
  \<open>ends R G m\<close>: a run of \<open>m\<close> keeps \<open>R\<close> or ends in a world with \<open>G\<close>.  What comes before the
  step that establishes \<open>G\<close> has to keep \<open>R\<close>.
\<close>

lemma ends_keeps: "keeps R m \<Longrightarrow> ends R G m"
  by (simp add: ends_def keeps_def)

lemma ends_bind_result:
  assumes "keeps R m" and "\<And>w x w1. m w = (Inr x, w1) \<Longrightarrow> ends R G (f x)"
  shows "ends R G (bindE m f)"
proof (rule endsI)
  fix w r w'
  assume "bindE m f w = (r, w')"
  then show "R w w' \<or> G w'"
    by (cases rule: bindE_cases) (metis assms keepsD endsD frame_trans)+
qed

lemma ends_try_result:
  assumes "keeps R m" and "\<And>w x w1. m w = (x, w1) \<Longrightarrow> ends R G (f x)"
  shows "ends R G (tryE m f)"
  by (rule endsI, erule tryE_E) (metis assms keepsD endsD frame_trans)

lemma ends_bind: "keeps R m \<Longrightarrow> (\<And>x. ends R G (f x)) \<Longrightarrow> ends R G (bindE m f)"
  by (rule ends_bind_result)

lemma ends_try: "keeps R m \<Longrightarrow> (\<And>x. ends R G (f x)) \<Longrightarrow> ends R G (tryE m f)"
  by (rule ends_try_result)

lemma ends_defer:
  assumes "ends R G m" and "keeps R c" and "\<And>w. G w \<Longrightarrow> G (snd (c w))"
  shows "ends R G (deferE m c)"
  by (rule endsI, erule deferE_E) (metis assms endsD keeps_def frame_trans)

lemmas ends_combinators = ends_if ends_bind ends_try

end

text \<open>A relation that says nothing of runs that start outside \<open>I\<close>: the values that reach the rest of
  a program then come from worlds with \<open>I\<close>.\<close>

locale guarded_frame = frame R
  for R :: "'w \<Rightarrow> 'w \<Rightarrow> bool" +
  fixes I :: "'w \<Rightarrow> bool"
  assumes idle: "\<not> I w \<Longrightarrow> R w w'"
begin

lemma ends_try_in:
  assumes "keeps R m" and "\<And>w x w1. I w \<Longrightarrow> m w = (x, w1) \<Longrightarrow> ends R G (f x)"
  shows "ends R G (tryE m f)"
proof (rule endsI, erule tryE_E)
  fix w r w' s w1
  assume m: "m w = (s, w1)" and f: "f s w1 = (r, w')"
  show "R w w' \<or> G w'"
  proof (cases "I w")
    case True
    from endsD[OF assms(2)[OF True m] f] keepsD[OF assms(1) m] frame_trans show ?thesis by blast
  qed (simp add: idle)
qed

end

section \<open>Lists and associations\<close>

text \<open>A Go \<^verbatim>\<open>map[string]string\<close> read with \<^verbatim>\<open>m[k]\<close>: a missing key reads as the empty string.\<close>

definition mget :: "(string \<times> string) list \<Rightarrow> string \<Rightarrow> string" where
  "mget m k = (case map_of m k of None \<Rightarrow> [] | Some v \<Rightarrow> v)"

text \<open>Writing and deleting a key of such a map.\<close>

fun mput :: "string \<Rightarrow> string \<Rightarrow> (string \<times> string) list \<Rightarrow> (string \<times> string) list" where
  "mput k v [] = [(k, v)]"
| "mput k v ((k', v') # m) = (if k' = k then (k, v) # m else (k', v') # mput k v m)"

definition mdel :: "string \<Rightarrow> (string \<times> string) list \<Rightarrow> (string \<times> string) list" where
  "mdel k m = filter (\<lambda>p. fst p \<noteq> k) m"

lemma map_of_mput [simp]: "map_of (mput k v m) = (map_of m)(k \<mapsto> v)"
  by (induction k v m rule: mput.induct) auto

lemma map_of_mdel [simp]: "map_of (mdel k m) = (map_of m)(k := None)"
  by (induction m) (auto simp: mdel_def fun_eq_iff)

lemma mget_mput [simp]: "mget (mput k v m) k' = (if k' = k then v else mget m k')"
  by (simp add: mget_def)

lemma mget_mdel [simp]: "mget (mdel k m) k' = (if k' = k then [] else mget m k')"
  by (simp add: mget_def)

lemma mget_Nil [simp]: "mget [] k = []"
  by (simp add: mget_def)

lemma mget_Cons [simp]: "mget ((k, v) # m) k' = (if k' = k then v else mget m k')"
  by (simp add: mget_def)

text \<open>First occurrences, in order: the ``seen'' maps of the Go code.\<close>

fun firstOccs :: "'a set \<Rightarrow> 'a list \<Rightarrow> 'a list" where
  "firstOccs seen [] = []"
| "firstOccs seen (x # xs) =
     (if x \<in> seen then firstOccs seen xs else x # firstOccs (insert x seen) xs)"

lemma set_firstOccs [simp]: "set (firstOccs seen xs) = set xs - seen"
  by (induction seen xs rule: firstOccs.induct) auto

lemma distinct_firstOccs [simp]: "distinct (firstOccs seen xs)"
  by (induction seen xs rule: firstOccs.induct) auto

lemma firstOccs_distinct_id: "distinct xs \<Longrightarrow> set xs \<inter> seen = {} \<Longrightarrow> firstOccs seen xs = xs"
  by (induction seen xs rule: firstOccs.induct) auto

lemma find_append_skip: "\<forall>x\<in>set xs. \<not> P x \<Longrightarrow> find P (xs @ ys) = find P ys"
  by (induction xs) auto

lemma find_SomeE:
  assumes "find P xs = Some y"
  obtains us vs where "xs = us @ y # vs" and "P y" and "\<forall>u\<in>set us. \<not> P u"
  using assms
proof (induction xs arbitrary: thesis)
  case Nil
  then show ?case by simp
next
  case (Cons x xs)
  show ?case
  proof (cases "P x")
    case True
    with Cons.prems show ?thesis by (intro Cons.prems(1)[of "[]" xs]) auto
  next
    case False
    with Cons.prems(2) have "find P xs = Some y" by simp
    then obtain us vs where "xs = us @ y # vs" "P y" "\<forall>u\<in>set us. \<not> P u"
      using Cons.IH by blast
    with False show ?thesis by (intro Cons.prems(1)[of "x # us" vs]) auto
  qed
qed

lemma takeWhile_before:
  "y \<notin> f ` set us \<Longrightarrow> f e = y \<Longrightarrow> takeWhile (\<lambda>x. f x \<noteq> y) (us @ e # vs) = us"
  by (induction us) auto

end
