(* ===== verification/Go_Strings.thy ===== *)
theory Go_Strings
  imports Go_Prelude
begin

text \<open>
  The parts of Go's \<^verbatim>\<open>strings\<close>, \<^verbatim>\<open>strconv\<close> and \<^verbatim>\<open>sort\<close> packages the operator uses.
  A Go string is a sequence of bytes and is modelled as one (\<open>char\<close> is a byte); the order on
  strings is the byte-wise lexicographic order of \<^verbatim>\<open>sort.Strings\<close>.  White space is Unicode
  white space in its UTF-8 encoding.  \<^verbatim>\<open>strings.ToLower\<close> folds the ASCII letters and leaves
  the bytes of other letters alone: host names, addresses and protocol names are ASCII.
\<close>

section \<open>Prefixes, suffixes, splitting and joining\<close>

definition hasPrefix :: "string \<Rightarrow> string \<Rightarrow> bool" where
  "hasPrefix s p = prefix p s"

definition hasSuffix :: "string \<Rightarrow> string \<Rightarrow> bool" where
  "hasSuffix s p = suffix p s"

definition trimPrefix :: "string \<Rightarrow> string \<Rightarrow> string" where
  "trimPrefix s p = (if hasPrefix s p then drop (length p) s else s)"

definition trimSuffix :: "string \<Rightarrow> string \<Rightarrow> string" where
  "trimSuffix s p = (if hasSuffix s p then take (length s - length p) s else s)"

text \<open>\<^verbatim>\<open>strings.Split\<close> by a one-byte separator.\<close>

fun splitOn :: "char \<Rightarrow> string \<Rightarrow> string list" where
  "splitOn c [] = [[]]"
| "splitOn c (x # xs) =
     (if x = c then [] # splitOn c xs
      else (case splitOn c xs of [] \<Rightarrow> [[x]] | y # ys \<Rightarrow> (x # y) # ys))"

fun joinWith :: "string \<Rightarrow> string list \<Rightarrow> string" where
  "joinWith sep [] = []"
| "joinWith sep [x] = x"
| "joinWith sep (x # y # ys) = x @ sep @ joinWith sep (y # ys)"

text \<open>\<^verbatim>\<open>strings.Cut\<close> at a one-byte separator.\<close>

definition cutAt :: "char \<Rightarrow> string \<Rightarrow> string \<times> string \<times> bool" where
  "cutAt c s =
     (if c \<in> set s then (takeWhile (\<lambda>x. x \<noteq> c) s, tl (dropWhile (\<lambda>x. x \<noteq> c) s), True)
      else (s, [], False))"

fun contains :: "string \<Rightarrow> string \<Rightarrow> bool" where
  "contains [] p = (p = [])"
| "contains (x # xs) p = (prefix p (x # xs) \<or> contains xs p)"

lemma splitOn_not_Nil [simp]: "splitOn c s \<noteq> []"
  by (cases s) (auto split: list.splits)

lemma splitOn_no_sep [simp]: "c \<notin> set s \<Longrightarrow> splitOn c s = [s]"
  by (induction s) auto

lemma splitOn_append_sep:
  "c \<notin> set a \<Longrightarrow> splitOn c (a @ c # b) = a # splitOn c b"
  by (induction a) auto

lemma joinWith_Cons:
  "joinWith sep (x # xs) = (if xs = [] then x else x @ sep @ joinWith sep xs)"
  by (cases xs) auto

lemma joinWith_splitOn: "joinWith [c] (splitOn c s) = s"
proof (induction s)
  case Nil
  then show ?case by simp
next
  case (Cons x xs)
  show ?case
  proof (cases "splitOn c xs")
    case Nil
    then show ?thesis by simp
  next
    case (Cons y ys)
    with \<open>joinWith [c] (splitOn c xs) = xs\<close> show ?thesis
      by (auto simp: joinWith_Cons split: if_splits)
  qed
qed

lemma splitOn_joinWith:
  assumes "xs \<noteq> []" and "\<forall>x\<in>set xs. c \<notin> set x"
  shows "splitOn c (joinWith [c] xs) = xs"
  using assms
proof (induction xs)
  case Nil
  then show ?case by simp
next
  case (Cons x xs)
  then show ?case
    by (cases "xs = []") (auto simp: joinWith_Cons splitOn_append_sep)
qed

lemma splitOn_parts: "p \<in> set (splitOn c s) \<Longrightarrow> c \<notin> set p"
proof (induction s arbitrary: p)
  case Nil
  then show ?case by simp
next
  case (Cons x xs)
  then show ?case
    by (cases "splitOn c xs") (auto split: if_splits)
qed

lemma cutAt_sep: "c \<notin> set a \<Longrightarrow> cutAt c (a @ c # b) = (a, b, True)"
  by (auto simp: cutAt_def takeWhile_tail dropWhile_append)

lemma cutAt_no_sep: "c \<notin> set s \<Longrightarrow> cutAt c s = (s, [], False)"
  by (simp add: cutAt_def)

lemma contains_append [intro]: "contains (u @ p @ v) p"
proof (induction u)
  case Nil
  show ?case
  proof (cases "p @ v")
    case Nil
    then show ?thesis by simp
  next
    case (Cons a l)
    then have "prefix p (a # l)" by (metis prefixI)
    with Cons show ?thesis by simp
  qed
next
  case (Cons x u)
  then show ?case by simp
qed

lemma contains_iff: "contains s p \<longleftrightarrow> (\<exists>u v. s = u @ p @ v)"
proof
  show "contains s p \<Longrightarrow> \<exists>u v. s = u @ p @ v"
  proof (induction s)
    case Nil
    then show ?case by simp
  next
    case (Cons x xs)
    then consider "prefix p (x # xs)" | "contains xs p" by auto
    then show ?case
    proof cases
      case 1
      then show ?thesis by (metis append_Nil prefix_def)
    next
      case 2
      with Cons.IH show ?thesis by (metis append_Cons)
    qed
  qed
qed auto

lemma trimSuffix_append [simp]: "trimSuffix (s @ p) p = s"
  by (simp add: trimSuffix_def hasSuffix_def suffix_def)

lemma trimPrefix_append [simp]: "trimPrefix (p @ s) p = s"
  by (simp add: trimPrefix_def hasPrefix_def)

section \<open>White space\<close>

text \<open>The white-space runes of \<^verbatim>\<open>unicode.IsSpace\<close>, as the bytes that encode them.\<close>

definition spaceRunes :: "string list" where
  "spaceRunes =
     [[CHR 0x09], [CHR 0x0A], [CHR 0x0B], [CHR 0x0C], [CHR 0x0D], [CHR 0x20],
      [CHR 0xC2, CHR 0x85], [CHR 0xC2, CHR 0xA0], [CHR 0xE1, CHR 0x9A, CHR 0x80],
      [CHR 0xE2, CHR 0x80, CHR 0x80], [CHR 0xE2, CHR 0x80, CHR 0x81],
      [CHR 0xE2, CHR 0x80, CHR 0x82], [CHR 0xE2, CHR 0x80, CHR 0x83],
      [CHR 0xE2, CHR 0x80, CHR 0x84], [CHR 0xE2, CHR 0x80, CHR 0x85],
      [CHR 0xE2, CHR 0x80, CHR 0x86], [CHR 0xE2, CHR 0x80, CHR 0x87],
      [CHR 0xE2, CHR 0x80, CHR 0x88], [CHR 0xE2, CHR 0x80, CHR 0x89],
      [CHR 0xE2, CHR 0x80, CHR 0x8A], [CHR 0xE2, CHR 0x80, CHR 0xA8],
      [CHR 0xE2, CHR 0x80, CHR 0xA9], [CHR 0xE2, CHR 0x80, CHR 0xAF],
      [CHR 0xE2, CHR 0x81, CHR 0x9F], [CHR 0xE3, CHR 0x80, CHR 0x80]]"

definition spaceFront :: "string \<Rightarrow> nat" where
  "spaceFront s = (case find (\<lambda>r. prefix r s) spaceRunes of None \<Rightarrow> 0 | Some r \<Rightarrow> length r)"

definition spaceBack :: "string \<Rightarrow> nat" where
  "spaceBack s = (case find (\<lambda>r. suffix r s) spaceRunes of None \<Rightarrow> 0 | Some r \<Rightarrow> length r)"

lemma spaceRunes_nonempty: "r \<in> set spaceRunes \<Longrightarrow> r \<noteq> []"
  by (auto simp: spaceRunes_def)

lemma spaceFront_zero_iff: "spaceFront s = 0 \<longleftrightarrow> (\<forall>r\<in>set spaceRunes. \<not> prefix r s)"
  by (auto simp: spaceFront_def find_None_iff find_Some_iff spaceRunes_nonempty
      split: option.splits dest: nth_mem)

lemma spaceBack_zero_iff: "spaceBack s = 0 \<longleftrightarrow> (\<forall>r\<in>set spaceRunes. \<not> suffix r s)"
  by (auto simp: spaceBack_def find_None_iff find_Some_iff spaceRunes_nonempty
      split: option.splits dest: nth_mem)

lemma spaceFront_le: "spaceFront s \<le> length s"
  by (auto simp: spaceFront_def find_Some_iff split: option.splits intro: prefix_length_le)

lemma spaceBack_le: "spaceBack s \<le> length s"
  by (auto simp: spaceBack_def find_Some_iff split: option.splits intro: suffix_length_le)

function trimLeft :: "string \<Rightarrow> string" where
  "trimLeft s = (if spaceFront s = 0 then s else trimLeft (drop (spaceFront s) s))"
  by pat_completeness auto
termination
proof (relation "measure length")
  fix s :: string
  assume "spaceFront s \<noteq> 0"
  then show "(drop (spaceFront s) s, s) \<in> measure length"
    using spaceFront_le[of s] by auto
qed simp

function trimRight :: "string \<Rightarrow> string" where
  "trimRight s = (if spaceBack s = 0 then s else trimRight (take (length s - spaceBack s) s))"
  by pat_completeness auto
termination
proof (relation "measure length")
  fix s :: string
  assume "spaceBack s \<noteq> 0"
  then show "(take (length s - spaceBack s) s, s) \<in> measure length"
    using spaceBack_le[of s] by auto
qed simp

declare trimLeft.simps [simp del] trimRight.simps [simp del]

definition trimSpace :: "string \<Rightarrow> string" where
  "trimSpace s = trimRight (trimLeft s)"

lemma trimLeft_clean: "spaceFront (trimLeft s) = 0"
  by (induction s rule: trimLeft.induct) (metis trimLeft.simps)

lemma trimRight_clean: "spaceBack (trimRight s) = 0"
  by (induction s rule: trimRight.induct) (metis trimRight.simps)

lemma prefix_trimRight: "prefix (trimRight s) s"
proof (induction s rule: trimRight.induct)
  case (1 s)
  show ?case
  proof (cases "spaceBack s = 0")
    case True
    then show ?thesis by (simp add: trimRight.simps[of s])
  next
    case False
    with "1.IH" show ?thesis
      by (metis (no_types) prefix_order.trans take_is_prefix trimRight.simps[of s])
  qed
qed

lemma suffix_trimLeft: "suffix (trimLeft s) s"
proof (induction s rule: trimLeft.induct)
  case (1 s)
  show ?case
  proof (cases "spaceFront s = 0")
    case True
    then show ?thesis by (simp add: trimLeft.simps[of s])
  next
    case False
    with "1.IH" show ?thesis
      by (metis (no_types) suffix_order.trans suffix_drop trimLeft.simps[of s])
  qed
qed

lemma trimSpace_clean:
  "spaceFront (trimSpace s) = 0" "spaceBack (trimSpace s) = 0"
proof -
  have "prefix (trimSpace s) (trimLeft s)"
    by (simp add: trimSpace_def prefix_trimRight)
  then show "spaceFront (trimSpace s) = 0"
    using trimLeft_clean[of s] unfolding spaceFront_zero_iff
    by (meson prefix_order.trans)
  show "spaceBack (trimSpace s) = 0"
    by (simp add: trimSpace_def trimRight_clean)
qed

lemma trimSpace_id: "spaceFront s = 0 \<Longrightarrow> spaceBack s = 0 \<Longrightarrow> trimSpace s = s"
  by (simp add: trimSpace_def trimLeft.simps trimRight.simps)

lemma trimSpace_idem [simp]: "trimSpace (trimSpace s) = trimSpace s"
  by (intro trimSpace_id trimSpace_clean)

lemma set_trimSpace: "set (trimSpace s) \<subseteq> set s"
  using set_mono_prefix[OF prefix_trimRight] set_mono_suffix[OF suffix_trimLeft]
  unfolding trimSpace_def by blast

lemma trimSpace_Nil [simp]: "trimSpace [] = []"
  using set_trimSpace[of "[]"] by simp

text \<open>Printable ASCII is no white space, and neither are strings that consist of it.\<close>

definition printable :: "char \<Rightarrow> bool" where
  "printable c \<longleftrightarrow> 0x21 \<le> (of_char c :: nat) \<and> (of_char c :: nat) \<le> 0x7E"

lemma spaceRunes_no_printable: "r \<in> set spaceRunes \<Longrightarrow> c \<in> set r \<Longrightarrow> \<not> printable c"
  by (auto simp: spaceRunes_def printable_def)

lemma trimSpace_printable:
  assumes "\<forall>c\<in>set s. printable c"
  shows "trimSpace s = s"
proof (rule trimSpace_id)
  have "\<not> prefix r s \<and> \<not> suffix r s" if r: "r \<in> set spaceRunes" for r
  proof -
    obtain c where c: "c \<in> set r"
      using spaceRunes_nonempty[OF r] by (cases r) auto
    have "\<not> printable c" by (rule spaceRunes_no_printable[OF r c])
    with c assms show ?thesis
      by (meson set_mono_prefix set_mono_suffix subsetD)
  qed
  then show "spaceFront s = 0" and "spaceBack s = 0"
    by (auto simp: spaceFront_zero_iff spaceBack_zero_iff)
qed

text \<open>\<^verbatim>\<open>strings.Fields\<close>: the maximal runs between white space.\<close>

function fieldsFrom :: "string \<Rightarrow> string \<Rightarrow> string list" where
  "fieldsFrom acc s =
     (if s = [] then (if acc = [] then [] else [acc])
      else if spaceFront s = 0 then fieldsFrom (acc @ [hd s]) (tl s)
      else (if acc = [] then [] else [acc]) @ fieldsFrom [] (drop (spaceFront s) s))"
  by pat_completeness auto
termination
proof (relation "measure (\<lambda>(acc, s). length s)")
  fix acc s :: string
  assume "s \<noteq> []" and "spaceFront s \<noteq> 0"
  then show "(([], drop (spaceFront s) s), (acc, s)) \<in> measure (\<lambda>(acc, s). length s)"
    using spaceFront_le[of s] by auto
qed auto

declare fieldsFrom.simps [simp del]

definition stringFields :: "string \<Rightarrow> string list" where
  "stringFields s = fieldsFrom [] s"

text \<open>\<^verbatim>\<open>strings.Trim\<close> and \<^verbatim>\<open>strings.TrimRight\<close> with a set of one-byte characters.\<close>

definition trimRightSet :: "char list \<Rightarrow> string \<Rightarrow> string" where
  "trimRightSet cs s = rev (dropWhile (\<lambda>c. c \<in> set cs) (rev s))"

definition trimSet :: "char list \<Rightarrow> string \<Rightarrow> string" where
  "trimSet cs s = trimRightSet cs (dropWhile (\<lambda>c. c \<in> set cs) s)"

section \<open>Case folding\<close>

definition lowerChar :: "char \<Rightarrow> char" where
  "lowerChar c =
     (let n = (of_char c :: nat) in if 65 \<le> n \<and> n \<le> 90 then char_of (n + 32) else c)"

definition toLower :: "string \<Rightarrow> string" where
  "toLower s = map lowerChar s"

lemma lowerChar_idem [simp]: "lowerChar (lowerChar c) = lowerChar c"
proof (cases "65 \<le> (of_char c :: nat) \<and> (of_char c :: nat) \<le> 90")
  case True
  then have "of_char (lowerChar c) = (of_char c + 32 :: nat)"
    by (simp add: lowerChar_def Let_def)
  with True show ?thesis by (simp add: lowerChar_def Let_def)
next
  case False
  then have "lowerChar c = c" by (auto simp: lowerChar_def Let_def)
  then show ?thesis by simp
qed

lemma toLower_idem [simp]: "toLower (toLower s) = toLower s"
  by (simp add: toLower_def)

lemma length_toLower [simp]: "length (toLower s) = length s"
  by (simp add: toLower_def)

text \<open>\<^verbatim>\<open>strings.EqualFold\<close> on the ASCII letters.\<close>

definition equalFold :: "string \<Rightarrow> string \<Rightarrow> bool" where
  "equalFold a b \<longleftrightarrow> toLower a = toLower b"

section \<open>Decimal numbers\<close>

fun natDigits :: "nat \<Rightarrow> string" where
  "natDigits n =
     (if n < 10 then [char_of (48 + n)] else natDigits (n div 10) @ [char_of (48 + n mod 10)])"

declare natDigits.simps [simp del]

definition itoa :: "int \<Rightarrow> string" where
  "itoa i = (if i < 0 then CHR ''-'' # natDigits (nat (- i)) else natDigits (nat i))"

text \<open>The same digits computed on integers, for evaluation.\<close>

function intDigits :: "int \<Rightarrow> string" where
  "intDigits i =
     (if i < 10 then [char_of (48 + i)] else intDigits (i div 10) @ [char_of (48 + i mod 10)])"
  by auto
termination by (relation "measure nat") (auto simp: nat_less_eq_zless)

declare intDigits.simps [simp del]

lemma char_of_int: "char_of (int n) = char_of n"
  by (simp add: char_of_def bit_of_nat_iff_bit)

lemma intDigits_nat: "intDigits (int n) = natDigits n"
proof (induction n rule: natDigits.induct)
  case (1 n)
  have "int n div 10 = int (n div 10)" and "48 + int n mod 10 = int (48 + n mod 10)"
    and "48 + int n = int (48 + n)" by (simp_all add: zdiv_int zmod_int)
  with 1 show ?case
    by (simp only: intDigits.simps[of "int n"] natDigits.simps[of n] char_of_int) simp
qed

lemma itoa_code [code]: "itoa i = (if i < 0 then CHR ''-'' # intDigits (- i) else intDigits i)"
  using intDigits_nat[of "nat i"] intDigits_nat[of "nat (- i)"] by (cases "i < 0") (simp_all add: itoa_def)

definition isDigit :: "char \<Rightarrow> bool" where
  "isDigit c \<longleftrightarrow> 48 \<le> (of_char c :: nat) \<and> (of_char c :: nat) \<le> 57"

definition digitVal :: "char \<Rightarrow> nat" where
  "digitVal c = (of_char c :: nat) - 48"

definition decimal :: "string \<Rightarrow> nat" where
  "decimal s = foldl (\<lambda>n c. 10 * n + digitVal c) 0 s"

lemma isDigit_char_of [simp]: "(n::nat) < 10 \<Longrightarrow> isDigit (char_of (48 + n))"
  by (simp add: isDigit_def)

lemma digitVal_char_of [simp]: "(n::nat) < 10 \<Longrightarrow> digitVal (char_of (48 + n)) = n"
  by (simp add: digitVal_def)

lemma natDigits_digits: "\<forall>c\<in>set (natDigits n). isDigit c"
proof (induction n rule: natDigits.induct)
  case (1 n)
  then show ?case by (cases "n < 10") (auto simp: natDigits.simps[of n])
qed

lemma natDigits_not_Nil [simp]: "natDigits n \<noteq> []"
  by (subst natDigits.simps) simp

lemma decimal_snoc: "decimal (s @ [c]) = 10 * decimal s + digitVal c"
  by (simp add: decimal_def)

lemma decimal_natDigits [simp]: "decimal (natDigits n) = n"
proof (induction n rule: natDigits.induct)
  case (1 n)
  then show ?case
    by (cases "n < 10") (auto simp: natDigits.simps[of n] decimal_snoc, simp add: decimal_def)
qed

lemma natDigits_inj [simp]: "natDigits m = natDigits n \<longleftrightarrow> m = n"
  by (metis decimal_natDigits)

lemma isDigit_not_minus: "isDigit c \<Longrightarrow> c \<noteq> CHR ''-''"
  by (auto simp: isDigit_def)

lemma itoa_inj [simp]: "itoa i = itoa j \<longleftrightarrow> i = j"
proof
  assume eq: "itoa i = itoa j"
  have neg: "natDigits m \<noteq> CHR ''-'' # xs" for m xs
    using natDigits_digits[of m] by (auto simp: isDigit_def)
  show "i = j"
  proof (cases "i < 0"; cases "j < 0")
  qed (use eq neg neg[symmetric] in \<open>auto simp: itoa_def\<close>)
qed simp

lemma itoa_chars: "c \<in> set (itoa i) \<Longrightarrow> isDigit c \<or> c = CHR ''-''"
  using natDigits_digits by (auto simp: itoa_def split: if_splits)

section \<open>Quoting\<close>

text \<open>\<^verbatim>\<open>%q\<close>: quotes, backslashes and control bytes are escaped; bytes beyond ASCII are kept, as for
  printable UTF-8 text.\<close>

definition lowerHex :: "nat \<Rightarrow> char" where
  "lowerHex n = char_of (if n < 10 then 48 + n else 87 + n)"

definition quoteChar :: "char \<Rightarrow> string" where
  "quoteChar c =
     (let n = (of_char c :: nat) in
      if n = 0x22 \<or> n = 0x5C then [CHR 0x5C, c]
      else if n = 7 then [CHR 0x5C, CHR ''a''] else if n = 8 then [CHR 0x5C, CHR ''b'']
      else if n = 9 then [CHR 0x5C, CHR ''t''] else if n = 10 then [CHR 0x5C, CHR ''n'']
      else if n = 11 then [CHR 0x5C, CHR ''v''] else if n = 12 then [CHR 0x5C, CHR ''f'']
      else if n = 13 then [CHR 0x5C, CHR ''r'']
      else if n < 32 \<or> n = 127 then [CHR 0x5C, CHR ''x'', lowerHex (n div 16), lowerHex (n mod 16)]
      else [c])"

definition goQuote :: "string \<Rightarrow> string" where
  "goQuote s = [CHR 0x22] @ concat (map quoteChar s) @ [CHR 0x22]"

end
