(* ===== verification/Api_Types.thy ===== *)
theory Api_Types
  imports Go_Strings
begin

text \<open>
  The custom resources of \<^verbatim>\<open>api/v1alpha1\<close> as records, the metadata every Kubernetes object
  carries, and the methods of the backup and restore specs.  A Go \<^verbatim>\<open>map[string]string\<close> is an
  association list read with \<^const>\<open>mget\<close>, a pointer is an option, and a Go \<^verbatim>\<open>int32\<close> is an
  \<open>int\<close>: no code of the operator does arithmetic on these numbers, they are compared and
  printed.
\<close>

type_synonym strmap = "(string \<times> string) list"

text \<open>\<^verbatim>\<open>types.NamespacedName\<close> and \<^verbatim>\<open>api.NamespacedName\<close>.\<close>

record nsname =
  nsNamespace :: string
  nsName :: string

abbreviation mkName :: "string \<Rightarrow> string \<Rightarrow> nsname" where
  "mkName ns n \<equiv> \<lparr>nsNamespace = ns, nsName = n\<rparr>"

section \<open>Object metadata\<close>

record ownerRef =
  orAPIVersion :: string
  orKind :: string
  orName :: string
  orUID :: string
  orController :: "bool option"

record objectMeta =
  omName :: string
  omNamespace :: string
  omUID :: string
  omResourceVersion :: string
  omGeneration :: int
  omCreationTimestamp :: int
  omDeletionTimestamp :: "int option"
  omAnnotations :: strmap
  omLabels :: strmap
  omFinalizers :: "string list"
  omOwnerReferences :: "ownerRef list"

definition emptyMeta :: objectMeta where
  "emptyMeta = \<lparr>omName = [], omNamespace = [], omUID = [], omResourceVersion = [],
     omGeneration = 0, omCreationTimestamp = 0, omDeletionTimestamp = None,
     omAnnotations = [], omLabels = [], omFinalizers = [], omOwnerReferences = []\<rparr>"

definition newMeta :: "string \<Rightarrow> string \<Rightarrow> objectMeta" where
  "newMeta ns n = emptyMeta\<lparr>omNamespace := ns, omName := n\<rparr>"

definition isDeleting :: "objectMeta \<Rightarrow> bool" where
  "isDeleting m \<longleftrightarrow> omDeletionTimestamp m \<noteq> None"

definition metaKey :: "objectMeta \<Rightarrow> nsname" where
  "metaKey m = mkName (omNamespace m) (omName m)"

definition containsFinalizer :: "objectMeta \<Rightarrow> string \<Rightarrow> bool" where
  "containsFinalizer m f \<longleftrightarrow> f \<in> set (omFinalizers m)"

definition addFinalizer :: "string \<Rightarrow> objectMeta \<Rightarrow> objectMeta" where
  "addFinalizer f m =
     (if containsFinalizer m f then m else m\<lparr>omFinalizers := omFinalizers m @ [f]\<rparr>)"

definition removeFinalizer :: "string \<Rightarrow> objectMeta \<Rightarrow> objectMeta" where
  "removeFinalizer f m = m\<lparr>omFinalizers := filter (\<lambda>x. x \<noteq> f) (omFinalizers m)\<rparr>"

text \<open>\<^verbatim>\<open>metav1.GetControllerOf\<close> and \<^verbatim>\<open>metav1.IsControlledBy\<close>: the first owner reference whose
  controller flag is set, and whether it carries the owner's UID.\<close>

definition controllerOf :: "objectMeta \<Rightarrow> ownerRef option" where
  "controllerOf m = find (\<lambda>r. orController r = Some True) (omOwnerReferences m)"

definition isControlledBy :: "objectMeta \<Rightarrow> objectMeta \<Rightarrow> bool" where
  "isControlledBy m owner =
     (case controllerOf m of None \<Rightarrow> False | Some r \<Rightarrow> orUID r = omUID owner)"

lemma containsFinalizer_add [simp]: "containsFinalizer (addFinalizer f m) f"
  by (simp add: containsFinalizer_def addFinalizer_def)

lemma containsFinalizer_remove [simp]:
  "containsFinalizer (removeFinalizer f m) g \<longleftrightarrow> g \<noteq> f \<and> containsFinalizer m g"
  by (auto simp: containsFinalizer_def removeFinalizer_def)

lemma omName_finalizer [simp]:
  "omName (addFinalizer f m) = omName m" "omNamespace (addFinalizer f m) = omNamespace m"
  "omName (removeFinalizer f m) = omName m" "omNamespace (removeFinalizer f m) = omNamespace m"
  by (simp_all add: addFinalizer_def removeFinalizer_def)

section \<open>Status conditions\<close>

record condition =
  cdType :: string
  cdStatus :: string
  cdReason :: string
  cdMessage :: string
  cdTransition :: int

abbreviation ConditionTrue :: string where "ConditionTrue \<equiv> ''True''"
abbreviation ConditionFalse :: string where "ConditionFalse \<equiv> ''False''"

section \<open>Constants\<close>

definition PublicIPAnnotation :: string where
  "PublicIPAnnotation = ''mikrotik.operator.io/public-ip''"
definition DNSNameAnnotation :: string where
  "DNSNameAnnotation = ''mikrotik.operator.io/dns-name''"
definition RouterRefAnnotation :: string where
  "RouterRefAnnotation = ''mikrotik.operator.io/router-ref''"
definition RouteModeAnnotation :: string where
  "RouteModeAnnotation = ''mikrotik.operator.io/route-mode''"
definition ManagedCommentPrefix :: string where
  "ManagedCommentPrefix = ''managed-by=mikrotik-operator''"
definition IngressClassName :: string where
  "IngressClassName = ''mikrotik''"
definition IngressController :: string where
  "IngressController = ''mikrotik.operator.io/controller''"
definition GatewayClassName :: string where
  "GatewayClassName = ''mikrotik''"
definition GatewayController :: string where
  "GatewayController = ''mikrotik.operator.io/controller''"

section \<open>MikroTikRouter\<close>

record routerEndpoint =
  epName :: string
  epAddress :: string
  epPort :: int
  epTLS :: bool
  epCredentialsSecret :: string
  epRouteGateway :: string

record routerSpec =
  rsAddress :: string
  rsPort :: int
  rsTLS :: bool
  rsCredentialsSecret :: string
  rsRouteGateway :: string
  rsRouters :: "routerEndpoint list"

record routerStatus =
  rtConnected :: bool
  rtVersion :: string
  rtAppliedEndpoints :: "routerEndpoint list"
  rtConditions :: "condition list"

record router =
  routerMeta :: objectMeta
  routerSpecOf :: routerSpec
  routerStatusOf :: routerStatus

section \<open>MikroTikDNSRecord, MikroTikPortForward, MikroTikRoute, MikroTikFirewallRule\<close>

record dnsSpec =
  dsRouterRef :: string
  dsName :: string
  dsAddress :: string
  dsTTL :: string
  dsServiceRef :: "nsname option"

record dnsStatus =
  dtApplied :: bool
  dtRouterID :: string
  dtRouterRef :: string
  dtConditions :: "condition list"

record dnsRecord =
  dnsMeta :: objectMeta
  dnsSpecOf :: dnsSpec
  dnsStatusOf :: dnsStatus

record portForwardSpec =
  psRouterRef :: string
  psProtocol :: string
  psExternalPort :: int
  psServiceRef :: "nsname option"
  psPodRef :: "nsname option"
  psTargetPort :: int
  psTargetAddress :: string
  psDestinationAddress :: string

record portForwardStatus =
  ptApplied :: bool
  ptRouterID :: string
  ptRouterRef :: string
  ptTargetAddress :: string
  ptExternalAddress :: string
  ptConditions :: "condition list"

record portForward =
  pfMeta :: objectMeta
  pfSpecOf :: portForwardSpec
  pfStatusOf :: portForwardStatus

record routeSpec =
  osRouterRef :: string
  osDestination :: string
  osGateway :: string
  osDistance :: int

record routeStatus =
  otApplied :: bool
  otRouterRef :: string
  otConditions :: "condition list"

record route =
  routeMeta :: objectMeta
  routeSpecOf :: routeSpec
  routeStatusOf :: routeStatus

record firewallRuleSpec =
  fsRouterRef :: string
  fsChain :: string
  fsAction :: string
  fsProtocol :: string
  fsSourceAddress :: string
  fsDestinationAddress :: string
  fsSourcePort :: string
  fsDestinationPort :: string
  fsInInterface :: string
  fsOutInterface :: string
  fsConnectionState :: "string list"
  fsConnectionNatState :: "string list"
  fsLogPrefix :: string
  fsPlaceBefore :: bool

record firewallRuleStatus =
  ftApplied :: bool
  ftRouterRef :: string
  ftConditions :: "condition list"

record firewallRule =
  fwMeta :: objectMeta
  fwSpecOf :: firewallRuleSpec
  fwStatusOf :: firewallRuleStatus

section \<open>Backup and restore specs\<close>

definition RestoreConfirmValue :: string where
  "RestoreConfirmValue = ''RESTORE''"

definition MaxExportBytes :: nat where
  "MaxExportBytes = 1048576"

definition WarnExportBytes :: nat where
  "WarnExportBytes = 524288"

definition DefaultBackupRetention :: int where
  "DefaultBackupRetention = 5"

text \<open>The roles of a backup object, the labels of its snapshots, the reasons of its conditions.\<close>

definition BackupRolePolicy :: string where
  "BackupRolePolicy = ''Policy''"
definition BackupRoleSnapshot :: string where
  "BackupRoleSnapshot = ''Snapshot''"
definition BackupPolicyLabel :: string where
  "BackupPolicyLabel = ''mikrotik.operator.io/backup-policy''"
definition BackupRouterNameLabel :: string where
  "BackupRouterNameLabel = ''mikrotik.operator.io/backup-router-name''"
definition BackupRouterNamespaceLabel :: string where
  "BackupRouterNamespaceLabel = ''mikrotik.operator.io/backup-router-namespace''"
definition ConditionRemoteNotImplemented :: string where
  "ConditionRemoteNotImplemented = ''RemoteStorageNotImplemented''"
definition ConditionImportInProgress :: string where
  "ConditionImportInProgress = ''ImportInProgress''"

text \<open>The reserved remote destinations; a reference to a Secret is its name.\<close>

record backupRemoteFTP =
  bfAddress :: string
  bfPath :: string
  bfCredentialsSecret :: string

record backupRemoteSMB =
  bmShare :: string
  bmPath :: string
  bmCredentialsSecret :: string

record backupRemoteS3 =
  b3Bucket :: string
  b3Prefix :: string
  b3Endpoint :: string
  b3Region :: string
  b3CredentialsSecret :: string

record backupRemoteSpec =
  brEnabled :: bool
  brFTP :: "backupRemoteFTP option"
  brSMB :: "backupRemoteSMB option"
  brS3 :: "backupRemoteS3 option"

record backupSpec =
  bsRouterRef :: string
  bsSchedule :: string
  bsRetention :: "int option"
  bsRemote :: "backupRemoteSpec option"

text \<open>Instants are those of the clock, absent when the field is not set.\<close>

record backupStatus =
  btRole :: string
  btRouterRef :: string
  btExport :: string
  btExportBytes :: int
  btExportWarning :: string
  btCapturedAt :: "int option"
  btLastScheduleTime :: "int option"
  btNextScheduleTime :: "int option"
  btSnapshotCount :: int
  btObservedGeneration :: int
  btConditions :: "condition list"

record backup =
  bkMeta :: objectMeta
  bkSpecOf :: backupSpec
  bkStatusOf :: backupStatus

definition IsPolicy :: "backupSpec \<Rightarrow> bool" where
  "IsPolicy s \<longleftrightarrow> trimSpace (bsSchedule s) \<noteq> []"

definition RetentionCount :: "backupSpec \<Rightarrow> int" where
  "RetentionCount s =
     (case bsRetention s of
        None \<Rightarrow> DefaultBackupRetention
      | Some r \<Rightarrow> if r < 1 then DefaultBackupRetention else r)"

definition RemoteEnabled :: "backupSpec \<Rightarrow> bool" where
  "RemoteEnabled s = (case bsRemote s of None \<Rightarrow> False | Some r \<Rightarrow> brEnabled r)"

record restoreConnectionSpec =
  rcAddress :: string
  rcPort :: int
  rcTLS :: bool
  rcCredentialsSecret :: string

record restoreSpec =
  reBackupRef :: nsname
  reRouterRef :: string
  reConnection :: "restoreConnectionSpec option"
  reConfirm :: string

record restoreStatus =
  xtApplied :: bool
  xtAppliedAt :: "int option"
  xtBackupUID :: string
  xtTarget :: string
  xtObservedGeneration :: int
  xtConditions :: "condition list"

record restore =
  xrMeta :: objectMeta
  xrSpecOf :: restoreSpec
  xrStatusOf :: restoreStatus

definition Confirmed :: "restoreSpec \<Rightarrow> bool" where
  "Confirmed s \<longleftrightarrow> reConfirm s = RestoreConfirmValue"

definition UsesInlineConnection :: "restoreSpec \<Rightarrow> bool" where
  "UsesInlineConnection s =
     (case reConnection s of
        None \<Rightarrow> False
      | Some c \<Rightarrow> rcAddress c \<noteq> [] \<and> rcCredentialsSecret c \<noteq> [])"

lemma RetentionCount_pos: "1 \<le> RetentionCount s"
  by (auto simp: RetentionCount_def DefaultBackupRetention_def split: option.splits)

end
