(* ===== verification/RouterOS_Client.thy ===== *)
theory RouterOS_Client
  imports Api_Types
begin

text \<open>
  The RouterOS client of \<^verbatim>\<open>internal/routeros/client.go\<close>: managed comments, the \<^verbatim>\<open>Ensure\<close> and
  \<^verbatim>\<open>Delete\<close> operations for DNS records, NAT port forwards, firewall rules and routes, and the
  sweep of everything the operator manages.

  The router and the \<^verbatim>\<open>go-routeros\<close> connection are not part of the repository.  They are the
  parameter \<open>run\<close>, which stands for \<^verbatim>\<open>apiClient.runArgsContext\<close>: it sends one sentence and
  returns the reply or an error.
\<close>

section \<open>Replies and rules\<close>

record reply =
  Re :: "strmap option list"
  Done :: "strmap option"

type_synonym 'w runner = "string list \<Rightarrow> ('w, reply option) prog"

record rosFirewallRule =
  frChain :: string
  frAction :: string
  frProtocol :: string
  frSourceAddress :: string
  frDestinationAddress :: string
  frSourcePort :: string
  frDestinationPort :: string
  frInInterface :: string
  frOutInterface :: string
  frConnectionState :: "string list"
  frConnectionNatState :: "string list"
  frLogPrefix :: string
  frPlaceBefore :: bool

record rosPortForward =
  rpProtocol :: string
  rpExternalPort :: int
  rpTarget :: string
  rpTargetPort :: int
  rpPublicIP :: string

section \<open>Managed comments\<close>

definition managedCommentPrefix :: string where
  "managedCommentPrefix = ''managed-by=mikrotik-operator''"

definition ManagedComment :: "string \<Rightarrow> string \<Rightarrow> string \<Rightarrow> string" where
  "ManagedComment kind name namespace =
     joinWith ''/'' [''managed-by=mikrotik-operator'', kind, namespace, name]"

definition managedCommentPrefixMatches :: "string \<Rightarrow> string \<Rightarrow> bool" where
  "managedCommentPrefixMatches value pre \<longleftrightarrow> value = pre \<or> hasPrefix value (pre @ ''/'')"

definition isManagedComment :: "string \<Rightarrow> bool" where
  "isManagedComment value \<longleftrightarrow>
     value = managedCommentPrefix \<or> hasPrefix value (managedCommentPrefix @ ''/'')"

section \<open>Listing and deleting managed entries\<close>

fun collectEntries :: "(string \<Rightarrow> bool) \<Rightarrow> strmap option list \<Rightarrow> goerr + strmap list" where
  "collectEntries matches [] = Inr []"
| "collectEntries matches (None # re) = Inl (Panic ''nil sentence'')"
| "collectEntries matches (Some m # re) =
     (case collectEntries matches re of
        Inl e \<Rightarrow> Inl e
      | Inr es \<Rightarrow> Inr (if matches (mget m ''comment'') then m # es else es))"

definition managedEntries ::
  "'w runner \<Rightarrow> string \<Rightarrow> (string \<Rightarrow> bool) \<Rightarrow> string list \<Rightarrow> ('w, strmap list) prog" where
  "managedEntries run printCmd matches properties =
     bindE (run [printCmd, ''=.proplist='' @ joinWith '','' properties]) (\<lambda>r.
       case r of
         None \<Rightarrow> failE (Panic ''nil reply'')
       | Some rep \<Rightarrow> readE (\<lambda>_. collectEntries matches (Re rep)))"

definition runContext :: "'w runner \<Rightarrow> string list \<Rightarrow> ('w, unit) prog" where
  "runContext run sentences = bindE (run sentences) (\<lambda>_. returnE ())"

definition deleteMatching ::
  "'w runner \<Rightarrow> string \<Rightarrow> string \<Rightarrow> (string \<Rightarrow> bool) \<Rightarrow> ('w, unit) prog" where
  "deleteMatching run printCmd removeCmd matches =
     bindE (managedEntries run printCmd matches [''.id'', ''comment'']) (\<lambda>entries.
       forE (\<lambda>entry. runContext run [removeCmd, ''=.id='' @ mget entry ''.id'']) entries)"

definition deleteByComment ::
  "'w runner \<Rightarrow> string \<Rightarrow> string \<Rightarrow> string \<Rightarrow> ('w, unit) prog" where
  "deleteByComment run printCmd removeCmd comment =
     deleteMatching run printCmd removeCmd (\<lambda>value. value = comment)"

definition deleteByCommentPrefix ::
  "'w runner \<Rightarrow> string \<Rightarrow> string \<Rightarrow> string \<Rightarrow> ('w, unit) prog" where
  "deleteByCommentPrefix run printCmd removeCmd pre =
     deleteMatching run printCmd removeCmd (\<lambda>value. managedCommentPrefixMatches value pre)"

definition DeleteManagedConfiguration :: "'w runner \<Rightarrow> ('w, unit) prog" where
  "DeleteManagedConfiguration run =
     forE (\<lambda>commands. deleteMatching run (fst commands) (snd commands)
             (\<lambda>value. value = managedCommentPrefix \<or> hasPrefix value (managedCommentPrefix @ ''/'')))
       [(''/ip/dns/static/print'', ''/ip/dns/static/remove''),
        (''/ip/firewall/nat/print'', ''/ip/firewall/nat/remove''),
        (''/ip/firewall/filter/print'', ''/ip/firewall/filter/remove''),
        (''/ip/route/print'', ''/ip/route/remove'')]"

section \<open>DNS records\<close>

definition DeleteDNS :: "'w runner \<Rightarrow> string \<Rightarrow> ('w, unit) prog" where
  "DeleteDNS run comment =
     deleteByComment run ''/ip/dns/static/print'' ''/ip/dns/static/remove'' comment"

definition EnsureDNS ::
  "'w runner \<Rightarrow> string \<Rightarrow> string \<Rightarrow> string \<Rightarrow> string \<Rightarrow> ('w, unit) prog" where
  "EnsureDNS run name address ttl comment =
     bindE (managedEntries run ''/ip/dns/static/print'' (\<lambda>value. value = comment)
              [''name'', ''address'', ''ttl'', ''comment'']) (\<lambda>entries.
       if length entries = 1 \<and> mget (entries ! 0) ''name'' = name
            \<and> mget (entries ! 0) ''address'' = address
            \<and> (ttl = [] \<or> mget (entries ! 0) ''ttl'' = ttl)
       then returnE ()
       else bindE (DeleteDNS run comment) (\<lambda>_.
         runContext run
           ([''/ip/dns/static/add'', ''=name='' @ name, ''=address='' @ address,
             ''=comment='' @ comment]
            @ (if ttl \<noteq> [] then [''=ttl='' @ ttl] else []))))"

section \<open>Placement\<close>

fun firstIDsFrom :: "(string \<times> string) list \<Rightarrow> strmap list \<Rightarrow> strmap" where
  "firstIDsFrom firstIDs [] = firstIDs"
| "firstIDsFrom firstIDs (entry # entries) =
     (let chain = mget entry ''chain''; id = mget entry ''.id'' in
      if chain = [] \<or> id = [] then firstIDsFrom firstIDs entries
      else if map_of firstIDs chain \<noteq> None then firstIDsFrom firstIDs entries
      else firstIDsFrom (firstIDs @ [(chain, id)]) entries)"

definition firstIDsByChain :: "'w runner \<Rightarrow> string \<Rightarrow> ('w, strmap) prog" where
  "firstIDsByChain run printCmd =
     bindE (managedEntries run printCmd (\<lambda>_. True) [''.id'', ''chain'']) (\<lambda>entries.
       returnE (firstIDsFrom [] entries))"

definition placeBeforeArg :: "string \<Rightarrow> strmap \<Rightarrow> string" where
  "placeBeforeArg chain firstIDs =
     (let id = mget firstIDs chain in if id = [] then [] else ''=place-before='' @ id)"

definition optArg :: "string \<Rightarrow> string list" where
  "optArg a = (if a = [] then [] else [a])"

section \<open>NAT port forwards\<close>

definition DeletePortForward :: "'w runner \<Rightarrow> string \<Rightarrow> ('w, unit) prog" where
  "DeletePortForward run comment =
     deleteByCommentPrefix run ''/ip/firewall/nat/print'' ''/ip/firewall/nat/remove'' comment"

definition dstNatMatches :: "rosPortForward \<Rightarrow> strmap \<Rightarrow> bool" where
  "dstNatMatches forward entry \<longleftrightarrow>
     mget entry ''chain'' = ''dstnat'' \<and>
     mget entry ''protocol'' = rpProtocol forward \<and>
     mget entry ''dst-port'' = itoa (rpExternalPort forward) \<and>
     mget entry ''action'' = ''dst-nat'' \<and>
     mget entry ''to-addresses'' = rpTarget forward \<and>
     mget entry ''to-ports'' = itoa (rpTargetPort forward) \<and>
     mget entry ''dst-address'' = rpPublicIP forward"

definition srcNatMatches :: "rosPortForward \<Rightarrow> strmap \<Rightarrow> bool" where
  "srcNatMatches forward entry \<longleftrightarrow>
     mget entry ''chain'' = ''srcnat'' \<and> mget entry ''dst-address'' = rpTarget forward \<and>
     mget entry ''action'' = ''masquerade''"

fun checkNat ::
  "rosPortForward \<Rightarrow> string \<Rightarrow> bool \<times> bool \<Rightarrow> strmap list \<Rightarrow> bool \<times> bool" where
  "checkNat forward comment (dstOK, srcOK) [] = (dstOK, srcOK)"
| "checkNat forward comment (dstOK, srcOK) (entry # entries) =
     checkNat forward comment
       (if mget entry ''comment'' = comment @ ''/dstnat''
        then (dstNatMatches forward entry, srcOK)
        else if mget entry ''comment'' = comment @ ''/srcnat''
        then (dstOK, srcNatMatches forward entry)
        else (dstOK, srcOK))
       entries"

definition dstNatArgs :: "rosPortForward \<Rightarrow> string \<Rightarrow> strmap \<Rightarrow> string list" where
  "dstNatArgs forward comment firstIDs =
     [''/ip/firewall/nat/add'', ''=chain=dstnat'', ''=protocol='' @ rpProtocol forward,
      ''=dst-port='' @ itoa (rpExternalPort forward), ''=action=dst-nat'',
      ''=to-addresses='' @ rpTarget forward, ''=to-ports='' @ itoa (rpTargetPort forward),
      ''=comment='' @ comment @ ''/dstnat'']
     @ (if rpPublicIP forward \<noteq> [] then [''=dst-address='' @ rpPublicIP forward] else [])
     @ optArg (placeBeforeArg ''dstnat'' firstIDs)"

definition srcNatArgs :: "rosPortForward \<Rightarrow> string \<Rightarrow> strmap \<Rightarrow> string list" where
  "srcNatArgs forward comment firstIDs =
     [''/ip/firewall/nat/add'', ''=chain=srcnat'', ''=dst-address='' @ rpTarget forward,
      ''=action=masquerade'', ''=comment='' @ comment @ ''/srcnat'']
     @ optArg (placeBeforeArg ''srcnat'' firstIDs)"

definition EnsurePortForward ::
  "'w runner \<Rightarrow> rosPortForward \<Rightarrow> string \<Rightarrow> ('w, unit) prog" where
  "EnsurePortForward run forward comment =
     bindE (managedEntries run ''/ip/firewall/nat/print''
              (\<lambda>value. managedCommentPrefixMatches value comment)
              [''chain'', ''protocol'', ''dst-port'', ''action'', ''to-addresses'', ''to-ports'',
               ''dst-address'', ''comment'']) (\<lambda>entries.
       let (dstOK, srcOK) = checkNat forward comment (False, False) entries in
       if dstOK \<and> srcOK \<and> length entries = 2 then returnE ()
       else bindE (DeletePortForward run comment) (\<lambda>_.
         bindE (firstIDsByChain run ''/ip/firewall/nat/print'') (\<lambda>firstIDs.
           bindE (runContext run (dstNatArgs forward comment firstIDs)) (\<lambda>_.
             runContext run (srcNatArgs forward comment firstIDs)))))"

section \<open>Firewall rules\<close>

definition DeleteFirewallRule :: "'w runner \<Rightarrow> string \<Rightarrow> ('w, unit) prog" where
  "DeleteFirewallRule run comment =
     deleteByCommentPrefix run ''/ip/firewall/filter/print'' ''/ip/firewall/filter/remove'' comment"

definition firewallRuleMatches :: "strmap \<Rightarrow> rosFirewallRule \<Rightarrow> bool" where
  "firewallRuleMatches entry rule \<longleftrightarrow>
     mget entry ''chain'' = frChain rule \<and>
     mget entry ''action'' = frAction rule \<and>
     mget entry ''protocol'' = frProtocol rule \<and>
     mget entry ''src-address'' = frSourceAddress rule \<and>
     mget entry ''dst-address'' = frDestinationAddress rule \<and>
     mget entry ''src-port'' = frSourcePort rule \<and>
     mget entry ''dst-port'' = frDestinationPort rule \<and>
     mget entry ''in-interface'' = frInInterface rule \<and>
     mget entry ''out-interface'' = frOutInterface rule \<and>
     mget entry ''connection-state'' = joinWith '','' (frConnectionState rule) \<and>
     mget entry ''connection-nat-state'' = joinWith '','' (frConnectionNatState rule) \<and>
     mget entry ''log-prefix'' = frLogPrefix rule"

fun chainOfId :: "string \<Rightarrow> strmap list \<Rightarrow> string" where
  "chainOfId rid [] = []"
| "chainOfId rid (entry # entries) =
     (if mget entry ''.id'' = rid then mget entry ''chain'' else chainOfId rid entries)"

fun precedesFrom :: "string \<Rightarrow> string \<Rightarrow> strmap list \<Rightarrow> bool" where
  "precedesFrom chain rid [] = False"
| "precedesFrom chain rid (entry # entries) =
     (if mget entry ''chain'' \<noteq> chain then precedesFrom chain rid entries
      else if mget entry ''.id'' = rid then True
      else if \<not> isManagedComment (mget entry ''comment'') then False
      else precedesFrom chain rid entries)"

definition firewallRulePrecedesUnmanaged :: "'w runner \<Rightarrow> string \<Rightarrow> ('w, bool) prog" where
  "firewallRulePrecedesUnmanaged run rid =
     (if rid = [] then returnE False
      else bindE (managedEntries run ''/ip/firewall/filter/print'' (\<lambda>_. True)
                    [''.id'', ''chain'', ''comment'']) (\<lambda>entries.
        let chain = chainOfId rid entries in
        if chain = [] then returnE False else returnE (precedesFrom chain rid entries)))"

definition setArg :: "string \<Rightarrow> string \<Rightarrow> string list" where
  "setArg key value = (if value \<noteq> [] then [''='' @ key @ ''='' @ value] else [])"

definition listArg :: "string \<Rightarrow> string list \<Rightarrow> string list" where
  "listArg key values =
     (if values \<noteq> [] then [''='' @ key @ ''='' @ joinWith '','' values] else [])"

definition firewallArgs :: "rosFirewallRule \<Rightarrow> string \<Rightarrow> string list" where
  "firewallArgs rule comment =
     [''/ip/firewall/filter/add'', ''=chain='' @ frChain rule, ''=action='' @ frAction rule,
      ''=comment='' @ comment]
     @ setArg ''protocol'' (frProtocol rule)
     @ setArg ''src-address'' (frSourceAddress rule)
     @ setArg ''dst-address'' (frDestinationAddress rule)
     @ setArg ''src-port'' (frSourcePort rule)
     @ setArg ''dst-port'' (frDestinationPort rule)
     @ setArg ''in-interface'' (frInInterface rule)
     @ setArg ''out-interface'' (frOutInterface rule)
     @ listArg ''connection-state'' (frConnectionState rule)
     @ listArg ''connection-nat-state'' (frConnectionNatState rule)
     @ setArg ''log-prefix'' (frLogPrefix rule)"

definition replaceFirewallRule ::
  "'w runner \<Rightarrow> rosFirewallRule \<Rightarrow> string \<Rightarrow> ('w, unit) prog" where
  "replaceFirewallRule run rule comment =
     bindE (DeleteFirewallRule run comment) (\<lambda>_.
       if frPlaceBefore rule
       then bindE (firstIDsByChain run ''/ip/firewall/filter/print'') (\<lambda>firstIDs.
              runContext run (firewallArgs rule comment
                              @ optArg (placeBeforeArg (frChain rule) firstIDs)))
       else runContext run (firewallArgs rule comment))"

definition EnsureFirewallRule ::
  "'w runner \<Rightarrow> rosFirewallRule \<Rightarrow> string \<Rightarrow> ('w, unit) prog" where
  "EnsureFirewallRule run rule comment =
     bindE (managedEntries run ''/ip/firewall/filter/print'' (\<lambda>value. value = comment)
              [''chain'', ''action'', ''protocol'', ''src-address'', ''dst-address'',
               ''src-port'', ''dst-port'', ''in-interface'', ''out-interface'',
               ''connection-state'', ''connection-nat-state'', ''log-prefix'', ''comment'',
               ''.id'']) (\<lambda>entries.
       if length entries = 1 \<and> firewallRuleMatches (entries ! 0) rule
       then (if \<not> frPlaceBefore rule then returnE ()
             else bindE (firewallRulePrecedesUnmanaged run (mget (entries ! 0) ''.id''))
                    (\<lambda>precedesUnmanaged.
                      if precedesUnmanaged then returnE ()
                      else replaceFirewallRule run rule comment))
       else replaceFirewallRule run rule comment)"

section \<open>Routes\<close>

definition DeleteRoute :: "'w runner \<Rightarrow> string \<Rightarrow> ('w, unit) prog" where
  "DeleteRoute run comment = deleteByComment run ''/ip/route/print'' ''/ip/route/remove'' comment"

definition DeleteRoutesByPrefix :: "'w runner \<Rightarrow> string \<Rightarrow> ('w, unit) prog" where
  "DeleteRoutesByPrefix run pre =
     deleteByCommentPrefix run ''/ip/route/print'' ''/ip/route/remove'' pre"

definition ensureRoute ::
  "'w runner \<Rightarrow> string \<Rightarrow> string \<Rightarrow> int \<Rightarrow> string \<Rightarrow> ('w, unit) prog" where
  "ensureRoute run destination gateway distance comment =
     bindE (managedEntries run ''/ip/route/print'' (\<lambda>value. value = comment)
              [''dst-address'', ''gateway'', ''distance'', ''comment'']) (\<lambda>entries.
       if length entries = 1 \<and> mget (entries ! 0) ''dst-address'' = destination
            \<and> mget (entries ! 0) ''gateway'' = gateway
            \<and> (distance = 0 \<or> mget (entries ! 0) ''distance'' = itoa distance)
       then returnE ()
       else bindE (DeleteRoute run comment) (\<lambda>_.
         runContext run
           ([''/ip/route/add'', ''=dst-address='' @ destination, ''=gateway='' @ gateway,
             ''=comment='' @ comment]
            @ (if distance > 0 then [''=distance='' @ itoa distance] else []))))"

definition EnsureRoute ::
  "'w runner \<Rightarrow> string \<Rightarrow> string \<Rightarrow> string \<Rightarrow> ('w, unit) prog" where
  "EnsureRoute run destination gateway comment = ensureRoute run destination gateway 0 comment"

definition EnsureRouteWithDistance ::
  "'w runner \<Rightarrow> string \<Rightarrow> string \<Rightarrow> int \<Rightarrow> string \<Rightarrow> ('w, unit) prog" where
  "EnsureRouteWithDistance run destination gateway distance comment =
     ensureRoute run destination gateway distance comment"

definition EnsureRoutes ::
  "'w runner \<Rightarrow> string \<Rightarrow> string list \<Rightarrow> string \<Rightarrow> ('w, unit) prog" where
  "EnsureRoutes run destination gateways pre =
     (let desired = map (\<lambda>gateway. pre @ ''/'' @ gateway) gateways in
      bindE (managedEntries run ''/ip/route/print''
               (\<lambda>value. managedCommentPrefixMatches value pre) [''.id'', ''comment'']) (\<lambda>entries.
        bindE (forE (\<lambda>entry.
                 if mget entry ''comment'' \<in> set desired then returnE ()
                 else runContext run [''/ip/route/remove'', ''=.id='' @ mget entry ''.id''])
               entries) (\<lambda>_.
          forE (\<lambda>gateway. EnsureRoute run destination gateway (pre @ ''/'' @ gateway)) gateways)))"

section \<open>Dialling and the outcome of one operation\<close>

definition dialPort :: "int \<Rightarrow> bool \<Rightarrow> int" where
  "dialPort port useTLS = (if port = 0 then (if useTLS then 8729 else 8728) else port)"

text \<open>\<^verbatim>\<open>net.JoinHostPort\<close>: a host with a colon is put in brackets.\<close>

definition joinHostPort :: "string \<Rightarrow> string \<Rightarrow> string" where
  "joinHostPort host port =
     (if CHR '':'' \<in> set host then ''['' @ host @ '']:'' @ port else host @ '':'' @ port)"

definition routerOSAddress :: "string \<Rightarrow> int \<Rightarrow> string" where
  "routerOSAddress address port = joinHostPort address (itoa port)"

text \<open>
  What \<^verbatim>\<open>runRouterOSOperation\<close> returns, from the error of the operation itself, the error of the
  context (timeout or cancellation), of the interrupt and of resetting the deadline.
\<close>

definition wrapErr :: "string \<Rightarrow> goerr \<Rightarrow> goerr" where
  "wrapErr pre e = Wrapped (pre @ errorText e) [e]"

definition runRouterOSOperation ::
  "goerr option \<Rightarrow> goerr option \<Rightarrow> goerr option \<Rightarrow> goerr option \<Rightarrow> goerr option" where
  "runRouterOSOperation operationErr contextErr interruptErr resetErr =
     (case contextErr of
        Some ce \<Rightarrow>
          errorsJoin [Some (wrapErr ''routeros operation: '' ce),
                      map_option (wrapErr ''interrupt routeros I/O: '') interruptErr,
                      map_option (wrapErr ''reset routeros I/O deadline: '') resetErr]
      | None \<Rightarrow>
          (case operationErr of
             Some oe \<Rightarrow>
               (case resetErr of
                  Some re \<Rightarrow> errorsJoin [Some oe, Some (wrapErr ''reset routeros I/O deadline: '' re)]
                | None \<Rightarrow> Some oe)
           | None \<Rightarrow>
               (case interruptErr of
                  Some ie \<Rightarrow> Some (wrapErr ''interrupt routeros I/O: '' ie)
                | None \<Rightarrow> map_option (wrapErr ''reset routeros I/O deadline: '') resetErr)))"

end
