(* ===== verification/RouterOS_Device.thy ===== *)
theory RouterOS_Device
  imports RouterOS_Client
begin

text \<open>
  What the client relies on of a router (the locale \<open>routeros_device\<close>, documented behaviour of
  the RouterOS API for the four tables the operator writes), and what every client operation
  does to the tables of such a router, whether it succeeds or fails.
\<close>

section \<open>Tables of a router\<close>

definition ident :: "strmap \<Rightarrow> string" where
  "ident e = mget e ''.id''"

definition commentOf :: "strmap \<Rightarrow> string" where
  "commentOf e = mget e ''comment''"

definition managedMenus :: "string list" where
  "managedMenus = [''/ip/dns/static'', ''/ip/firewall/nat'', ''/ip/firewall/filter'', ''/ip/route'']"

text \<open>The commands that list and extend one of these tables.\<close>

definition isPrintCmd :: "string \<Rightarrow> bool" where
  "isPrintCmd cmd \<longleftrightarrow> (\<exists>m\<in>set managedMenus. cmd = m @ ''/print'')"

definition isAddCmd :: "string \<Rightarrow> bool" where
  "isAddCmd cmd \<longleftrightarrow> (\<exists>m\<in>set managedMenus. cmd = m @ ''/add'')"

text \<open>Properties that are absent from an entry unless \<^verbatim>\<open>/add\<close> sets them.\<close>

definition matcherKeys :: "string list" where
  "matcherKeys =
     [''protocol'', ''src-address'', ''dst-address'', ''src-port'', ''dst-port'',
      ''in-interface'', ''out-interface'', ''connection-state'', ''connection-nat-state'',
      ''log-prefix'']"

definition argKey :: "string \<Rightarrow> string \<Rightarrow> bool" where
  "argKey k a \<longleftrightarrow> prefix (''='' @ k @ ''='') a"

definition placeEntry :: "string option \<Rightarrow> strmap \<Rightarrow> strmap list \<Rightarrow> strmap list" where
  "placeEntry pb e xs =
     (case pb of
        None \<Rightarrow> xs @ [e]
      | Some i \<Rightarrow> takeWhile (\<lambda>x. ident x \<noteq> i) xs @ e # dropWhile (\<lambda>x. ident x \<noteq> i) xs)"

definition placeBeforeOf :: "string list \<Rightarrow> string option" where
  "placeBeforeOf args =
     map_option (drop (length ''=place-before='')) (find (prefix ''=place-before='') args)"

text \<open>The entry an \<^verbatim>\<open>/add\<close> with these arguments creates.\<close>

definition addedEntry :: "string list \<Rightarrow> strmap \<Rightarrow> bool" where
  "addedEntry args e \<longleftrightarrow>
     (\<forall>k v. (''='' @ k @ ''='' @ v) \<in> set args \<longrightarrow> CHR ''='' \<notin> set k \<longrightarrow>
        k \<noteq> ''place-before'' \<longrightarrow> mget e k = v) \<and>
     (\<forall>k\<in>set matcherKeys. (\<forall>a\<in>set args. \<not> argKey k a) \<longrightarrow> mget e k = [])"

locale routeros_device =
  fixes run :: "'w runner"
    and tbl :: "'w \<Rightarrow> string \<Rightarrow> strmap list"
    and dinv :: "'w \<Rightarrow> bool"
  assumes ids_distinct: "dinv w \<Longrightarrow> distinct (map ident (tbl w m))"
    and ids_nonempty: "dinv w \<Longrightarrow> e \<in> set (tbl w m) \<Longrightarrow> ident e \<noteq> []"
    and inv_run: "dinv w \<Longrightarrow> run args w = (r, w') \<Longrightarrow> dinv w'"
    and print_frame:
      "dinv w \<Longrightarrow> m \<in> set managedMenus \<Longrightarrow> run [m @ ''/print'', x] w = (r, w') \<Longrightarrow> tbl w' = tbl w"
    and print_rows:
      "dinv w \<Longrightarrow> m \<in> set managedMenus \<Longrightarrow> \<forall>p\<in>set ps. CHR '','' \<notin> set p \<Longrightarrow> ps \<noteq> [] \<Longrightarrow>
       run [m @ ''/print'', ''=.proplist='' @ joinWith '','' ps] w = (Inr rp, w') \<Longrightarrow>
       \<exists>rep rows. rp = Some rep \<and> Re rep = map Some rows \<and>
         list_all2 (\<lambda>row e. \<forall>k\<in>set ps. mget row k = mget e k) rows (tbl w m)"
    and remove_effect:
      "dinv w \<Longrightarrow> m \<in> set managedMenus \<Longrightarrow> run [m @ ''/remove'', ''=.id='' @ i] w = (r, w') \<Longrightarrow>
       isl r \<and> tbl w' = tbl w \<or>
       tbl w' = (tbl w)(m := filter (\<lambda>e. ident e \<noteq> i) (tbl w m))"
    and add_effect:
      "dinv w \<Longrightarrow> m \<in> set managedMenus \<Longrightarrow> run ((m @ ''/add'') # args) w = (r, w') \<Longrightarrow>
       isl r \<and> tbl w' = tbl w \<or>
       (\<exists>e. addedEntry args e \<and> tbl w' = (tbl w)(m := placeEntry (placeBeforeOf args) e (tbl w m)))"

section \<open>Generic facts on tables\<close>

lemma filter_placeEntry_other: "\<not> P e \<Longrightarrow> filter P (placeEntry pb e xs) = filter P xs"
proof -
  assume "\<not> P e"
  have "filter P (takeWhile Q xs) @ filter P (dropWhile Q xs) = filter P xs" for Q
    by (metis filter_append takeWhile_dropWhile_id)
  with \<open>\<not> P e\<close> show ?thesis
    by (simp add: placeEntry_def split: option.split)
qed

lemma filter_placeEntry_split:
  assumes "P e"
  obtains ys zs where "filter P (placeEntry pb e xs) = ys @ e # zs" and "ys @ zs = filter P xs"
proof (cases pb)
  case None
  with assms have "filter P (placeEntry pb e xs) = filter P xs @ e # []"
    by (simp add: placeEntry_def)
  then show ?thesis using that[of "filter P xs" "[]"] by simp
next
  case (Some i)
  let ?Q = "\<lambda>x. ident x \<noteq> i"
  have "filter P (takeWhile ?Q xs) @ filter P (dropWhile ?Q xs) = filter P xs"
    by (metis filter_append takeWhile_dropWhile_id)
  moreover have "filter P (placeEntry pb e xs)
      = filter P (takeWhile ?Q xs) @ e # filter P (dropWhile ?Q xs)"
    using Some assms by (simp add: placeEntry_def)
  ultimately show ?thesis using that by blast
qed

lemma set_placeEntry [simp]: "set (placeEntry pb e xs) = insert e (set xs)"
proof -
  have "set (takeWhile Q xs) \<union> set (dropWhile Q xs) = set xs" for Q
    by (metis set_append takeWhile_dropWhile_id)
  then show ?thesis by (auto simp: placeEntry_def split: option.split)
qed

lemma filter_by_ids:
  assumes "distinct (map ident xs)"
  shows "filter (\<lambda>e. ident e \<notin> ident ` {e \<in> set xs. Q e}) xs = filter (\<lambda>e. \<not> Q e) xs"
proof (rule filter_cong[OF refl])
  fix e assume e: "e \<in> set xs"
  have "inj_on ident (set xs)"
    using assms by (simp add: distinct_map)
  with e show "(ident e \<notin> ident ` {e \<in> set xs. Q e}) = (\<not> Q e)"
    by (auto dest: inj_onD)
qed

lemma list_all2_filter:
  assumes "list_all2 R xs ys" and "\<And>x y. R x y \<Longrightarrow> P x = Q y"
  shows "list_all2 R (filter P xs) (filter Q ys)"
  using assms(1) by (induction rule: list_all2_induct) (auto simp: assms(2))

lemma collectEntries_Some [simp]:
  "collectEntries matches (map Some rows) = Inr (filter (\<lambda>m. matches (mget m ''comment'')) rows)"
  by (induction rows) simp_all

definition agreeOn :: "string list \<Rightarrow> strmap \<Rightarrow> strmap \<Rightarrow> bool" where
  "agreeOn ps row e \<longleftrightarrow> (\<forall>k\<in>set ps. mget row k = mget e k)"

text \<open>\<open>untouched tbl dinv P\<close>: outside the comments in \<open>P\<close>, every table has the same entries in
  the same order.\<close>

definition untouched ::
  "('w \<Rightarrow> string \<Rightarrow> strmap list) \<Rightarrow> ('w \<Rightarrow> bool) \<Rightarrow> (string \<Rightarrow> bool) \<Rightarrow> 'w \<Rightarrow> 'w \<Rightarrow> bool" where
  "untouched tbl dinv P w w' \<longleftrightarrow>
     (dinv w \<longrightarrow> dinv w' \<and>
        (\<forall>m. filter (\<lambda>e. \<not> P (commentOf e)) (tbl w' m) = filter (\<lambda>e. \<not> P (commentOf e)) (tbl w m)))"

interpretation untouched: frame "untouched tbl dinv P" for tbl dinv P
  by unfold_locales (auto simp: untouched_def)

lemma untouched_mono:
  assumes "untouched tbl dinv P w w'" and "\<And>c. P c \<Longrightarrow> Q c"
  shows "untouched tbl dinv Q w w'"
proof -
  have "filter (\<lambda>e. \<not> Q (commentOf e)) xs
      = filter (\<lambda>e. \<not> Q (commentOf e)) (filter (\<lambda>e. \<not> P (commentOf e)) xs)" for xs
    using assms(2) by (auto intro!: filter_cong simp: conj_commute)
  with assms(1) show ?thesis
    unfolding untouched_def by metis
qed

lemma keeps_untouched_mono:
  "keeps (untouched tbl dinv P) m \<Longrightarrow> (\<And>c. P c \<Longrightarrow> Q c) \<Longrightarrow> keeps (untouched tbl dinv Q) m"
  unfolding keeps_def by (blast intro: untouched_mono)

section \<open>Arguments\<close>

lemma optArg_placeBefore:
  "placeBeforeOf (optArg (placeBeforeArg chain ids)) =
     (if mget ids chain = [] then None else Some (mget ids chain))"
  by (auto simp: placeBeforeOf_def optArg_def placeBeforeArg_def Let_def)

lemma argKey_simp [simp]:
  "argKey k [] = False"
  by (simp add: argKey_def)

section \<open>Reading and deleting\<close>

context routeros_device
begin

lemma inv_runContext: "dinv w \<Longrightarrow> runContext run args w = (r, w') \<Longrightarrow> dinv w'"
  unfolding runContext_def by (erule bindE_cases) (auto intro: inv_run)

lemma managedEntries_cases:
  assumes "dinv w" and "m \<in> set managedMenus" and "\<forall>p\<in>set ps. CHR '','' \<notin> set p" and "ps \<noteq> []"
    and "''comment'' \<in> set ps \<or> P = (\<lambda>_. True)"
    and run: "managedEntries run (m @ ''/print'') P ps w = (r, w')"
  shows "dinv w' \<and> tbl w' = tbl w \<and>
    (case r of Inl _ \<Rightarrow> True
     | Inr rows \<Rightarrow> list_all2 (agreeOn ps) rows (filter (\<lambda>e. P (commentOf e)) (tbl w m)))"
proof -
  let ?cmd = "[m @ ''/print'', ''=.proplist='' @ joinWith '','' ps]"
  obtain s w1 where s: "run ?cmd w = (s, w1)" by force
  have dinv: "dinv w1" and tbl: "tbl w1 = tbl w"
    using inv_run[OF assms(1) s] print_frame[OF assms(1,2) s] by auto
  show ?thesis
  proof (cases s)
    case (Inl e)
    with run s dinv tbl show ?thesis
      by (auto simp: managedEntries_def)
  next
    case (Inr x)
    with s obtain rep rows where rep: "x = Some rep" "Re rep = map Some rows"
      and rows: "list_all2 (agreeOn ps) rows (tbl w m)"
      using print_rows[OF assms(1,2,3,4)] unfolding agreeOn_def by blast
    have "list_all2 (agreeOn ps) (filter (\<lambda>m. P (mget m ''comment'')) rows)
        (filter (\<lambda>e. P (commentOf e)) (tbl w m))"
      using rows assms(5) by (intro list_all2_filter) (auto simp: agreeOn_def commentOf_def)
    with run s Inr rep dinv tbl show ?thesis
      by (auto simp: managedEntries_def)
  qed
qed

lemmas managedEntriesI = managedEntries_cases[THEN conjunct1]
  managedEntries_cases[THEN conjunct2, THEN conjunct1]

lemma run_remove_all:
  assumes "dinv w" and "m \<in> set managedMenus"
    and "forE (\<lambda>entry. runContext run [m @ ''/remove'', ''=.id='' @ mget entry ''.id'']) rows w
         = (r, w')"
  shows "dinv w' \<and> (\<exists>S \<subseteq> ident ` set rows.
    tbl w' = (tbl w)(m := filter (\<lambda>e. ident e \<notin> S) (tbl w m)) \<and>
    (r = Inr () \<longrightarrow> S = ident ` set rows))"
  using assms(1,3)
proof (induction rows arbitrary: w)
  case Nil
  then show ?case by auto
next
  case (Cons row rows)
  let ?cmd = "[m @ ''/remove'', ''=.id='' @ mget row ''.id'']"
  obtain s w1 where s: "run ?cmd w = (s, w1)" by force
  have inv1: "dinv w1" by (rule inv_run[OF Cons.prems(1) s])
  have eff: "isl s \<and> tbl w1 = tbl w \<or>
      tbl w1 = (tbl w)(m := filter (\<lambda>e. ident e \<noteq> ident row) (tbl w m))"
    using remove_effect[OF Cons.prems(1) assms(2) s] by (simp add: ident_def)
  show ?case
  proof (cases s)
    case (Inl e)
    with Cons.prems(2) s have w': "w' = w1" and r: "r = Inl e"
      by (auto simp: runContext_def bindE_def)
    from eff show ?thesis
    proof
      assume "isl s \<and> tbl w1 = tbl w"
      with w' r inv1 show ?thesis by (intro conjI exI[of _ "{}"]) auto
    next
      assume "tbl w1 = (tbl w)(m := filter (\<lambda>e. ident e \<noteq> ident row) (tbl w m))"
      with w' r inv1 show ?thesis by (intro conjI exI[of _ "{ident row}"]) auto
    qed
  next
    case (Inr x)
    with Cons.prems(2) s
    have "forE (\<lambda>entry. runContext run [m @ ''/remove'', ''=.id='' @ mget entry ''.id'']) rows w1
        = (r, w')"
      by (simp add: runContext_def bindE_def)
    from Cons.IH[OF inv1 this] obtain S where S: "S \<subseteq> ident ` set rows" "dinv w'"
      "tbl w' = (tbl w1)(m := filter (\<lambda>e. ident e \<notin> S) (tbl w1 m))"
      "r = Inr () \<Longrightarrow> S = ident ` set rows"
      by blast
    from eff Inr have "tbl w1 = (tbl w)(m := filter (\<lambda>e. ident e \<noteq> ident row) (tbl w m))"
      by simp
    with S have "tbl w' = (tbl w)(m := filter (\<lambda>e. ident e \<notin> insert (ident row) S) (tbl w m))"
      by (auto intro!: filter_cong)
    with S show ?thesis by (intro conjI exI[of _ "insert (ident row) S"]) auto
  qed
qed

lemma deleteMatching_effect:
  assumes "dinv w" and "m \<in> set managedMenus"
    and del: "deleteMatching run (m @ ''/print'') (m @ ''/remove'') P w = (r, w')"
  shows "dinv w' \<and> (\<exists>S \<subseteq> ident ` {e \<in> set (tbl w m). P (commentOf e)}.
    tbl w' = (tbl w)(m := filter (\<lambda>e. ident e \<notin> S) (tbl w m)) \<and>
    (r = Inr () \<longrightarrow> tbl w' = (tbl w)(m := filter (\<lambda>e. \<not> P (commentOf e)) (tbl w m))))"
proof -
  let ?ps = "[''.id'', ''comment'']"
  obtain s w1 where s: "managedEntries run (m @ ''/print'') P ?ps w = (s, w1)" by force
  note rd = managedEntries_cases[OF assms(1,2) _ _ _ s, simplified]
  show ?thesis
  proof (cases s)
    case (Inl e)
    with del s rd show ?thesis
      by (intro conjI exI[of _ "{}"]) (auto simp: deleteMatching_def)
  next
    case (Inr rows)
    with rd have rows: "list_all2 (agreeOn ?ps) rows (filter (\<lambda>e. P (commentOf e)) (tbl w m))"
      and w1: "dinv w1" "tbl w1 = tbl w" by auto
    have ids: "ident ` set rows = ident ` {e \<in> set (tbl w m). P (commentOf e)}"
    proof -
      have "map ident rows = map ident (filter (\<lambda>e. P (commentOf e)) (tbl w m))"
        using rows by (induction rule: list_all2_induct) (auto simp: agreeOn_def ident_def)
      then have "set (map ident rows) = set (map ident (filter (\<lambda>e. P (commentOf e)) (tbl w m)))"
        by (rule arg_cong)
      then show ?thesis by auto
    qed
    from del s Inr
    have "forE (\<lambda>entry. runContext run [m @ ''/remove'', ''=.id='' @ mget entry ''.id'']) rows w1
        = (r, w')"
      by (simp add: deleteMatching_def)
    from run_remove_all[OF w1(1) assms(2) this] obtain S where S: "dinv w'"
      "S \<subseteq> ident ` set rows"
      "tbl w' = (tbl w)(m := filter (\<lambda>e. ident e \<notin> S) (tbl w m))"
      "r = Inr () \<Longrightarrow> S = ident ` set rows"
      unfolding w1(2) by blast
    have "tbl w' = (tbl w)(m := filter (\<lambda>e. \<not> P (commentOf e)) (tbl w m))" if "r = Inr ()"
      using S(3,4) that filter_by_ids[OF ids_distinct[OF assms(1)], of m "\<lambda>e. P (commentOf e)"]
      by (simp add: ids)
    with S(1,3) S(2)[unfolded ids] show ?thesis by (intro conjI exI[of _ S]) simp_all
  qed
qed

lemma deleteMatching_absent:
  assumes "dinv w" and "m \<in> set managedMenus"
    and "deleteMatching run (m @ ''/print'') (m @ ''/remove'') P w = (Inr (), w')"
  shows "tbl w' = (tbl w)(m := filter (\<lambda>e. \<not> P (commentOf e)) (tbl w m))"
  using deleteMatching_effect[OF assms] by blast

lemma deleteMatching_untouched:
  assumes "m \<in> set managedMenus"
  shows "keeps (untouched tbl dinv P) (deleteMatching run (m @ ''/print'') (m @ ''/remove'') P)"
proof (rule keepsI)
  fix w r w'
  assume del: "deleteMatching run (m @ ''/print'') (m @ ''/remove'') P w = (r, w')"
  show "untouched tbl dinv P w w'"
    unfolding untouched_def
  proof (intro impI conjI allI)
    assume dinv: "dinv w"
    from deleteMatching_effect[OF dinv assms del] obtain S where S: "dinv w'"
      "S \<subseteq> ident ` {e \<in> set (tbl w m). P (commentOf e)}"
      "tbl w' = (tbl w)(m := filter (\<lambda>e. ident e \<notin> S) (tbl w m))"
      by blast
    then show "dinv w'" by simp
    fix m'
    have "inj_on ident (set (tbl w m))"
      using ids_distinct[OF dinv] by (simp add: distinct_map)
    then have "ident e \<notin> S" if "e \<in> set (tbl w m)" "\<not> P (commentOf e)" for e
      using S(2) that by (auto dest: inj_onD)
    then have "filter (\<lambda>e. \<not> P (commentOf e)) (filter (\<lambda>e. ident e \<notin> S) (tbl w m))
        = filter (\<lambda>e. \<not> P (commentOf e)) (tbl w m)"
      by (auto intro!: filter_cong)
    with S(3) show "filter (\<lambda>e. \<not> P (commentOf e)) (tbl w' m')
        = filter (\<lambda>e. \<not> P (commentOf e)) (tbl w m')"
      by (cases "m' = m") simp_all
  qed
qed

lemma managedEntries_untouched:
  assumes "isPrintCmd cmd"
  shows "keeps (untouched tbl dinv P) (managedEntries run cmd Q ps)"
proof -
  from assms obtain m where m: "m \<in> set managedMenus" and cmd: "cmd = m @ ''/print''"
    by (auto simp: isPrintCmd_def)
  have "keeps (untouched tbl dinv P) (run [cmd, x])" for x
    unfolding cmd
    by (rule keepsI) (auto simp: untouched_def dest: inv_run print_frame[OF _ m])
  then show ?thesis
    unfolding managedEntries_def
    by (intro untouched.keeps_combinators) (auto split: option.split intro: untouched.keeps_combinators)
qed

lemma add_untouched:
  assumes "isAddCmd cmd" and "(''=comment='' @ c) \<in> set args" and "P c"
  shows "keeps (untouched tbl dinv P) (runContext run (cmd # args))"
proof -
  from assms(1) obtain m where m: "m \<in> set managedMenus" and cmd: "cmd = m @ ''/add''"
    by (auto simp: isAddCmd_def)
  have "keeps (untouched tbl dinv P) (run (cmd # args))"
    unfolding cmd
  proof (rule keepsI)
    fix w r w'
    assume run: "run ((m @ ''/add'') # args) w = (r, w')"
    have c: "commentOf e = c" if "addedEntry args e" for e
    proof -
      have "(''='' @ ''comment'' @ ''='' @ c) \<in> set args" using assms(2) by simp
      with that show ?thesis unfolding addedEntry_def commentOf_def by force
    qed
    show "untouched tbl dinv P w w'"
      unfolding untouched_def
    proof (intro impI conjI allI)
      assume dinv: "dinv w"
      show "dinv w'" by (rule inv_run[OF dinv run])
      fix m'
      show "filter (\<lambda>e. \<not> P (commentOf e)) (tbl w' m')
          = filter (\<lambda>e. \<not> P (commentOf e)) (tbl w m')"
        using add_effect[OF dinv m run] c assms(3)
        by (cases "m' = m") (auto simp: filter_placeEntry_other)
    qed
  qed
  then show ?thesis
    unfolding runContext_def by (intro untouched.keeps_combinators)
qed

end

end
