(* ===== verification/RouterOS_Contracts.thy ===== *)
theory RouterOS_Contracts
  imports RouterOS_Device
begin

text \<open>
  The contracts of the client's operations on a router that behaves as documented: which entries
  an operation may touch, what the tables hold after it succeeded, and that a second pass over a
  router in the desired state changes nothing.
\<close>

abbreviation dnsMenu :: string where "dnsMenu \<equiv> ''/ip/dns/static''"
abbreviation natMenu :: string where "natMenu \<equiv> ''/ip/firewall/nat''"
abbreviation filterMenu :: string where "filterMenu \<equiv> ''/ip/firewall/filter''"
abbreviation routeMenu :: string where "routeMenu \<equiv> ''/ip/route''"

lemma menus_managed [simp]:
  "dnsMenu \<in> set managedMenus" "natMenu \<in> set managedMenus"
  "filterMenu \<in> set managedMenus" "routeMenu \<in> set managedMenus"
  by (simp_all add: managedMenus_def)

lemma menu_cmds:
  "''/ip/dns/static/print'' = dnsMenu @ ''/print''"
  "''/ip/dns/static/remove'' = dnsMenu @ ''/remove''"
  "''/ip/dns/static/add'' = dnsMenu @ ''/add''"
  "''/ip/firewall/nat/print'' = natMenu @ ''/print''"
  "''/ip/firewall/nat/remove'' = natMenu @ ''/remove''"
  "''/ip/firewall/nat/add'' = natMenu @ ''/add''"
  "''/ip/firewall/filter/print'' = filterMenu @ ''/print''"
  "''/ip/firewall/filter/remove'' = filterMenu @ ''/remove''"
  "''/ip/firewall/filter/add'' = filterMenu @ ''/add''"
  "''/ip/route/print'' = routeMenu @ ''/print''"
  "''/ip/route/remove'' = routeMenu @ ''/remove''"
  "''/ip/route/add'' = routeMenu @ ''/add''"
  by simp_all

lemma managed_cmds [simp]:
  "isPrintCmd ''/ip/dns/static/print''" "isPrintCmd ''/ip/firewall/nat/print''"
  "isPrintCmd ''/ip/firewall/filter/print''" "isPrintCmd ''/ip/route/print''"
  "isAddCmd ''/ip/dns/static/add''" "isAddCmd ''/ip/firewall/nat/add''"
  "isAddCmd ''/ip/firewall/filter/add''" "isAddCmd ''/ip/route/add''"
  by (simp_all add: isPrintCmd_def isAddCmd_def managedMenus_def)

lemma managedCommentPrefixMatches_self [simp]: "managedCommentPrefixMatches c c"
  by (simp add: managedCommentPrefixMatches_def)

lemma managedCommentPrefixMatches_sub [simp]: "managedCommentPrefixMatches (c @ CHR ''/'' # s) c"
  by (simp add: managedCommentPrefixMatches_def hasPrefix_def)

section \<open>Frames of the operations\<close>

lemma managedEntries_restrict:
  "bindE (managedEntries run cmd P ps) (\<lambda>es. k (filter (\<lambda>e. Q (mget e ''comment'')) es)) =
   bindE (managedEntries run cmd (\<lambda>v. P v \<and> Q v) ps) k"
proof -
  have coll: "collectEntries (\<lambda>v. P v \<and> Q v) re =
      map_sum id (filter (\<lambda>e. Q (mget e ''comment''))) (collectEntries P re)" for re
  proof (induction P re rule: collectEntries.induct)
    case (3 P m re)
    then show ?case by (cases "collectEntries P re") auto
  qed simp_all
  show ?thesis
    by (auto simp: managedEntries_def bindE_def fun_eq_iff coll
        split: prod.splits sum.splits option.splits)
qed

context routeros_device
begin

lemma DeleteDNS_untouched: "keeps (untouched tbl dinv (\<lambda>v. v = c)) (DeleteDNS run c)"
  unfolding DeleteDNS_def deleteByComment_def menu_cmds
  by (rule deleteMatching_untouched) simp

lemma DeleteRoute_untouched: "keeps (untouched tbl dinv (\<lambda>v. v = c)) (DeleteRoute run c)"
  unfolding DeleteRoute_def deleteByComment_def menu_cmds
  by (rule deleteMatching_untouched) simp

lemma DeleteRoutesByPrefix_untouched:
  "keeps (untouched tbl dinv (\<lambda>v. managedCommentPrefixMatches v c)) (DeleteRoutesByPrefix run c)"
  unfolding DeleteRoutesByPrefix_def deleteByCommentPrefix_def menu_cmds
  by (rule deleteMatching_untouched) simp

lemma DeletePortForward_untouched:
  "keeps (untouched tbl dinv (\<lambda>v. managedCommentPrefixMatches v c)) (DeletePortForward run c)"
  unfolding DeletePortForward_def deleteByCommentPrefix_def menu_cmds
  by (rule deleteMatching_untouched) simp

lemma DeleteFirewallRule_untouched:
  "keeps (untouched tbl dinv (\<lambda>v. managedCommentPrefixMatches v c)) (DeleteFirewallRule run c)"
  unfolding DeleteFirewallRule_def deleteByCommentPrefix_def menu_cmds
  by (rule deleteMatching_untouched) simp

lemma EnsureDNS_untouched:
  "keeps (untouched tbl dinv (\<lambda>v. v = c)) (EnsureDNS run n a t c)"
  unfolding EnsureDNS_def append_Cons
  by (intro untouched.keeps_combinators managedEntries_untouched DeleteDNS_untouched
      add_untouched[where c = c]) simp_all

lemma ensureRoute_untouched:
  "keeps (untouched tbl dinv (\<lambda>v. v = c)) (ensureRoute run d g n c)"
  unfolding ensureRoute_def append_Cons
  by (intro untouched.keeps_combinators managedEntries_untouched DeleteRoute_untouched
      add_untouched[where c = c]) simp_all

lemma firstIDsByChain_untouched:
  assumes "isPrintCmd cmd"
  shows "keeps (untouched tbl dinv P) (firstIDsByChain run cmd)"
  unfolding firstIDsByChain_def
  by (intro untouched.keeps_combinators managedEntries_untouched[OF assms])

lemma EnsurePortForward_untouched:
  "keeps (untouched tbl dinv (\<lambda>v. managedCommentPrefixMatches v c)) (EnsurePortForward run f c)"
proof -
  let ?R = "untouched tbl dinv (\<lambda>v. managedCommentPrefixMatches v c)"
  have "keeps ?R (runContext run (dstNatArgs f c ids))" for ids
    unfolding dstNatArgs_def append_Cons
    by (rule add_untouched[where c = "c @ ''/dstnat''"]) simp_all
  moreover have "keeps ?R (runContext run (srcNatArgs f c ids))" for ids
    unfolding srcNatArgs_def append_Cons
    by (rule add_untouched[where c = "c @ ''/srcnat''"]) simp_all
  ultimately show ?thesis
    unfolding EnsurePortForward_def split_def Let_def
    by (intro untouched.keeps_combinators managedEntries_untouched DeletePortForward_untouched
        firstIDsByChain_untouched) simp_all
qed

lemma EnsureFirewallRule_untouched:
  "keeps (untouched tbl dinv (\<lambda>v. managedCommentPrefixMatches v c)) (EnsureFirewallRule run f c)"
  unfolding EnsureFirewallRule_def replaceFirewallRule_def firewallRulePrecedesUnmanaged_def
    firewallArgs_def append_Cons Let_def
  by (intro untouched.keeps_combinators managedEntries_untouched DeleteFirewallRule_untouched
      firstIDsByChain_untouched add_untouched[where c = c]) simp_all

lemma EnsureRoutes_untouched:
  "keeps (untouched tbl dinv (\<lambda>v. managedCommentPrefixMatches v c)) (EnsureRoutes run d gs c)"
proof -
  let ?D = "\<lambda>v. v \<in> set (map (\<lambda>gateway. c @ ''/'' @ gateway) gs)"
  let ?rm = "\<lambda>entry. runContext run [routeMenu @ ''/remove'', ''=.id='' @ mget entry ''.id'']"
  let ?P = "\<lambda>v. managedCommentPrefixMatches v c"
  have sweep: "bindE (managedEntries run (routeMenu @ ''/print'') ?P [''.id'', ''comment''])
      (\<lambda>es. forE ?rm (filter (\<lambda>e. \<not> ?D (mget e ''comment'')) es))
    = deleteMatching run (routeMenu @ ''/print'') (routeMenu @ ''/remove'')
        (\<lambda>v. ?P v \<and> \<not> ?D v)"
    unfolding deleteMatching_def by (rule managedEntries_restrict)
  have "keeps (untouched tbl dinv ?P) (deleteMatching run (routeMenu @ ''/print'')
      (routeMenu @ ''/remove'') (\<lambda>v. ?P v \<and> \<not> ?D v))"
    by (rule keeps_untouched_mono[OF deleteMatching_untouched]) auto
  moreover have "keeps (untouched tbl dinv ?P) (EnsureRoute run d g (c @ ''/'' @ g))" for g
    unfolding EnsureRoute_def by (rule keeps_untouched_mono[OF ensureRoute_untouched]) auto
  ultimately show ?thesis
    unfolding EnsureRoutes_def Let_def menu_cmds forE_filter bindE_assoc[symmetric] sweep
    by (intro untouched.keeps_combinators)
qed

lemma DeleteManagedConfiguration_untouched:
  "keeps (untouched tbl dinv isManagedComment) (DeleteManagedConfiguration run)"
  unfolding DeleteManagedConfiguration_def menu_cmds isManagedComment_def[symmetric]
  by (intro untouched.keeps_for)
    (auto intro: deleteMatching_untouched[of dnsMenu, simplified]
      deleteMatching_untouched[of natMenu, simplified]
      deleteMatching_untouched[of filterMenu, simplified]
      deleteMatching_untouched[of routeMenu, simplified])

end

section \<open>What the tables hold after an operation\<close>

text \<open>The entries of a table whose comment satisfies \<open>P\<close>.\<close>

definition owned :: "(string \<Rightarrow> bool) \<Rightarrow> strmap list \<Rightarrow> strmap list" where
  "owned P xs = filter (\<lambda>e. P (commentOf e)) xs"

lemma owned_subset: "set (owned P xs) \<subseteq> set xs"
  by (auto simp: owned_def)

definition dnsPresent ::
  "string \<Rightarrow> string \<Rightarrow> string \<Rightarrow> string \<Rightarrow> (string \<Rightarrow> strmap list) \<Rightarrow> bool" where
  "dnsPresent name address ttl comment T \<longleftrightarrow>
     (\<exists>e. owned (\<lambda>v. v = comment) (T dnsMenu) = [e] \<and> mget e ''name'' = name \<and>
        mget e ''address'' = address \<and> (ttl = [] \<or> mget e ''ttl'' = ttl))"

definition routePresent ::
  "string \<Rightarrow> string \<Rightarrow> int \<Rightarrow> string \<Rightarrow> (string \<Rightarrow> strmap list) \<Rightarrow> bool" where
  "routePresent destination gateway distance comment T \<longleftrightarrow>
     (\<exists>e. owned (\<lambda>v. v = comment) (T routeMenu) = [e] \<and> mget e ''dst-address'' = destination \<and>
        mget e ''gateway'' = gateway \<and> (distance = 0 \<or> mget e ''distance'' = itoa distance))"

text \<open>An entry stands in its chain before every entry the operator does not manage.\<close>

definition aheadOfUnmanaged :: "strmap \<Rightarrow> strmap list \<Rightarrow> bool" where
  "aheadOfUnmanaged e xs \<longleftrightarrow>
     (\<forall>x\<in>set (takeWhile (\<lambda>x. ident x \<noteq> ident e) xs).
        mget x ''chain'' = mget e ''chain'' \<longrightarrow> isManagedComment (commentOf x))"

definition firewallPresent ::
  "rosFirewallRule \<Rightarrow> string \<Rightarrow> (string \<Rightarrow> strmap list) \<Rightarrow> bool" where
  "firewallPresent rule comment T \<longleftrightarrow>
     (\<exists>e. owned (\<lambda>v. v = comment) (T filterMenu) = [e] \<and> firewallRuleMatches e rule \<and>
        (frPlaceBefore rule \<longrightarrow> aheadOfUnmanaged e (T filterMenu)))"

definition portForwardPresent ::
  "rosPortForward \<Rightarrow> string \<Rightarrow> (string \<Rightarrow> strmap list) \<Rightarrow> bool" where
  "portForwardPresent forward comment T \<longleftrightarrow>
     (\<exists>d s. owned (\<lambda>v. managedCommentPrefixMatches v comment) (T natMenu) \<in> {[d, s], [s, d]} \<and>
        commentOf d = comment @ ''/dstnat'' \<and> commentOf s = comment @ ''/srcnat'' \<and>
        dstNatMatches forward d \<and> srcNatMatches forward s)"

text \<open>The arguments of an \<^verbatim>\<open>/add\<close> determine a property of the entry it creates.\<close>

lemma addedEntry_given:
  "addedEntry args e \<Longrightarrow> (''='' @ k @ ''='' @ v) \<in> set args \<Longrightarrow> CHR ''='' \<notin> set k \<Longrightarrow>
   k \<noteq> ''place-before'' \<Longrightarrow> mget e k = v"
  unfolding addedEntry_def by blast

lemma addedEntry_absent:
  "addedEntry args e \<Longrightarrow> k \<in> set matcherKeys \<Longrightarrow> \<forall>a\<in>set args. \<not> argKey k a \<Longrightarrow> mget e k = []"
  unfolding addedEntry_def by blast

lemma one_row:
  assumes "list_all2 R rows xs" and "length rows = 1"
  obtains e where "xs = [e]" and "R (rows ! 0) e"
  using assms by (cases rows; cases xs) auto

lemma pair_rows:
  assumes "list_all2 R rows xs" and "rows \<in> {[d, s], [s, d]}"
  obtains d' s' where "xs \<in> {[d', s'], [s', d']}" and "R d d'" and "R s s'"
proof -
  from assms(2) consider "rows = [d, s]" | "rows = [s, d]" by auto
  then show thesis
    using assms(1) that by cases (auto simp: list_all2_Cons1)
qed

context routeros_device
begin

lemma add_to:
  assumes "dinv w" and "m \<in> set managedMenus"
    and "runContext run ((m @ ''/add'') # args) w = (Inr (), w')"
    and "(''=comment='' @ c) \<in> set args" and "P c"
  obtains e ys zs where "addedEntry args e" and "commentOf e = c"
    and "owned P (tbl w' m) = ys @ e # zs" and "ys @ zs = owned P (tbl w m)"
    and "tbl w' = (tbl w)(m := placeEntry (placeBeforeOf args) e (tbl w m))" and "dinv w'"
proof -
  from assms(3) obtain r where run: "run ((m @ ''/add'') # args) w = (Inr r, w')"
    by (auto simp: runContext_def elim!: bindE_InrE)
  from add_effect[OF assms(1,2) run] obtain e where e: "addedEntry args e"
    "tbl w' = (tbl w)(m := placeEntry (placeBeforeOf args) e (tbl w m))"
    by auto
  have c: "commentOf e = c"
    using addedEntry_given[OF e(1), of "''comment''" c] assms(4) by (simp add: commentOf_def)
  obtain ys zs where "owned P (tbl w' m) = ys @ e # zs" and "ys @ zs = owned P (tbl w m)"
    using e(2) c assms(5) filter_placeEntry_split[of "\<lambda>e. P (commentOf e)" e] unfolding owned_def
    by (metis fun_upd_same)
  with e c inv_runContext[OF assms(1,3)] show thesis by (intro that)
qed

lemma add_fresh:
  assumes "dinv w" and "m \<in> set managedMenus" and "owned P (tbl w m) = []"
    and "runContext run ((m @ ''/add'') # args) w = (Inr (), w')"
    and "(''=comment='' @ c) \<in> set args" and "P c"
  obtains e where "addedEntry args e" and "commentOf e = c" and "owned P (tbl w' m) = [e]"
    and "tbl w' = (tbl w)(m := placeEntry (placeBeforeOf args) e (tbl w m))" and "dinv w'"
  using add_to[where P = P, OF assms(1,2,4,5,6)] assms(3) by (metis append_is_Nil_conv append_Nil)

lemma owned_deleted:
  assumes "dinv w" and "m \<in> set managedMenus"
    and "deleteMatching run (m @ ''/print'') (m @ ''/remove'') P w = (Inr (), w')"
  shows "owned P (tbl w' m) = []" and "dinv w'"
  using deleteMatching_absent[OF assms] deleteMatching_effect[OF assms]
  by (simp_all add: owned_def filter_False)

lemma deleteMatching_noop:
  assumes "dinv w" and "m \<in> set managedMenus" and "owned P (tbl w m) = []"
    and "deleteMatching run (m @ ''/print'') (m @ ''/remove'') P w = (r, w')"
  shows "tbl w' = tbl w"
proof -
  from deleteMatching_effect[OF assms(1,2,4)] obtain S where
    S: "S \<subseteq> ident ` {e \<in> set (tbl w m). P (commentOf e)}"
    "tbl w' = (tbl w)(m := filter (\<lambda>e. ident e \<notin> S) (tbl w m))" by blast
  have "{e \<in> set (tbl w m). P (commentOf e)} = {}"
    using assms(3) by (auto simp: owned_def filter_empty_conv)
  with S have "S = {}" by (metis image_empty subset_empty)
  with S(2) show ?thesis by simp
qed

text \<open>The shape \<open>EnsureDNS\<close> and \<open>ensureRoute\<close> share: list, compare, replace.\<close>

lemma ensure_present:
  assumes "dinv w" and m: "m \<in> set managedMenus"
    and ps: "\<forall>p\<in>set ps. CHR '','' \<notin> set p" "ps \<noteq> []" "''comment'' \<in> set ps"
    and ens: "bindE (managedEntries run (m @ ''/print'') (\<lambda>v. v = c) ps) (\<lambda>rows.
        if ok rows then returnE ()
        else bindE (deleteMatching run (m @ ''/print'') (m @ ''/remove'') (\<lambda>v. v = c)) (\<lambda>_.
          runContext run ((m @ ''/add'') # args))) w = (Inr (), w')"
    and okD: "\<And>rows e. ok rows \<Longrightarrow> length rows = 1 \<and> (agreeOn ps (rows ! 0) e \<longrightarrow> good e)"
    and added: "\<And>e. addedEntry args e \<Longrightarrow> good e"
    and c: "(''=comment='' @ c) \<in> set args"
  shows "\<exists>e. owned (\<lambda>v. v = c) (tbl w' m) = [e] \<and> good e"
proof -
  from ens obtain rows w1 where rows: "managedEntries run (m @ ''/print'') (\<lambda>v. v = c) ps w = (Inr rows, w1)"
    and rest: "(if ok rows then returnE ()
        else bindE (deleteMatching run (m @ ''/print'') (m @ ''/remove'') (\<lambda>v. v = c)) (\<lambda>_.
          runContext run ((m @ ''/add'') # args))) w1 = (Inr (), w')"
    by (elim bindE_InrE)
  from managedEntries_cases[OF assms(1,2) ps(1,2) _ rows] ps(3)
  have w1: "dinv w1" "tbl w1 = tbl w"
    and agree: "list_all2 (agreeOn ps) rows (owned (\<lambda>v. v = c) (tbl w m))"
    by (auto simp: owned_def)
  show ?thesis
  proof (cases "ok rows")
    case True
    with agree okD obtain e where "owned (\<lambda>v. v = c) (tbl w m) = [e]" and "agreeOn ps (rows ! 0) e"
      by (elim one_row) auto
    with True rest w1(2) okD show ?thesis by auto
  next
    case False
    with rest obtain w2
      where del: "deleteMatching run (m @ ''/print'') (m @ ''/remove'') (\<lambda>v. v = c) w1 = (Inr (), w2)"
      and add: "runContext run ((m @ ''/add'') # args) w2 = (Inr (), w')"
      by (auto elim!: bindE_InrE)
    obtain e where "addedEntry args e" "owned (\<lambda>v. v = c) (tbl w' m) = [e]"
      by (rule add_fresh[OF owned_deleted(2)[OF w1(1) m del] m owned_deleted(1)[OF w1(1) m del] add c]) auto
    with added show ?thesis by blast
  qed
qed

lemma ensure_noop:
  assumes "dinv w" and m: "m \<in> set managedMenus"
    and ps: "\<forall>p\<in>set ps. CHR '','' \<notin> set p" "ps \<noteq> []" "''comment'' \<in> set ps"
    and ens: "bindE (managedEntries run (m @ ''/print'') (\<lambda>v. v = c) ps) (\<lambda>rows.
        if ok rows then returnE () else other) w = (r, w')"
    and e: "owned (\<lambda>v. v = c) (tbl w m) = [e]"
    and okI: "\<And>row. agreeOn ps row e \<Longrightarrow> ok [row]"
  shows "tbl w' = tbl w"
proof -
  obtain s w1 where s: "managedEntries run (m @ ''/print'') (\<lambda>v. v = c) ps w = (s, w1)" by force
  note rd = managedEntries_cases[OF assms(1,2) ps(1,2) _ s] ps(3)
  show ?thesis
  proof (cases s)
    case (Inl x)
    with s ens rd show ?thesis by auto
  next
    case (Inr rows)
    with rd e have "list_all2 (agreeOn ps) rows [e]" by (simp add: owned_def)
    then obtain row where "rows = [row]" "agreeOn ps row e" by (auto simp: list_all2_Cons2)
    with s Inr ens rd okI show ?thesis by auto
  qed
qed

lemma EnsureDNS_shape:
  "EnsureDNS run n a t c =
     bindE (managedEntries run (dnsMenu @ ''/print'') (\<lambda>v. v = c)
              [''name'', ''address'', ''ttl'', ''comment'']) (\<lambda>rows.
       if length rows = 1 \<and> mget (rows ! 0) ''name'' = n \<and> mget (rows ! 0) ''address'' = a
            \<and> (t = [] \<or> mget (rows ! 0) ''ttl'' = t)
       then returnE ()
       else bindE (deleteMatching run (dnsMenu @ ''/print'') (dnsMenu @ ''/remove'') (\<lambda>v. v = c)) (\<lambda>_.
         runContext run ((dnsMenu @ ''/add'') # ([''=name='' @ n, ''=address='' @ a, ''=comment='' @ c]
            @ (if t \<noteq> [] then [''=ttl='' @ t] else [])))))"
  by (simp add: EnsureDNS_def DeleteDNS_def deleteByComment_def cong del: if_weak_cong)

lemma EnsureDNS_present:
  assumes "dinv w" and "EnsureDNS run n a t c w = (Inr (), w')"
  shows "dnsPresent n a t c (tbl w')"
  unfolding dnsPresent_def
proof (rule ensure_present[OF assms(1) _ _ _ _ assms(2)[unfolded EnsureDNS_shape]])
  fix e
  assume e: "addedEntry ([''=name='' @ n, ''=address='' @ a, ''=comment='' @ c]
            @ (if t \<noteq> [] then [''=ttl='' @ t] else [])) e"
  have "mget e ''name'' = n" by (rule addedEntry_given[OF e]) auto
  moreover have "mget e ''address'' = a" by (rule addedEntry_given[OF e]) auto
  moreover have "t = [] \<or> mget e ''ttl'' = t"
    using addedEntry_given[OF e, of "''ttl''" t] by auto
  ultimately show "mget e ''name'' = n \<and> mget e ''address'' = a \<and> (t = [] \<or> mget e ''ttl'' = t)"
    by simp
qed (auto simp: agreeOn_def)

lemma EnsureDNS_noop:
  assumes "dinv w" and "dnsPresent n a t c (tbl w)" and "EnsureDNS run n a t c w = (r, w')"
  shows "tbl w' = tbl w"
proof -
  from assms(2) obtain e where e: "owned (\<lambda>v. v = c) (tbl w dnsMenu) = [e]"
    "mget e ''name'' = n" "mget e ''address'' = a" "t = [] \<or> mget e ''ttl'' = t"
    unfolding dnsPresent_def by blast
  show ?thesis
    by (rule ensure_noop[OF assms(1) _ _ _ _ assms(3)[unfolded EnsureDNS_shape] e(1)])
      (use e(2-) in \<open>auto simp: agreeOn_def\<close>)
qed

lemma ensureRoute_shape:
  "ensureRoute run d g n c =
     bindE (managedEntries run (routeMenu @ ''/print'') (\<lambda>v. v = c)
              [''dst-address'', ''gateway'', ''distance'', ''comment'']) (\<lambda>rows.
       if length rows = 1 \<and> mget (rows ! 0) ''dst-address'' = d \<and> mget (rows ! 0) ''gateway'' = g
            \<and> (n = 0 \<or> mget (rows ! 0) ''distance'' = itoa n)
       then returnE ()
       else bindE (deleteMatching run (routeMenu @ ''/print'') (routeMenu @ ''/remove'') (\<lambda>v. v = c)) (\<lambda>_.
         runContext run ((routeMenu @ ''/add'') # ([''=dst-address='' @ d, ''=gateway='' @ g, ''=comment='' @ c]
            @ (if n > 0 then [''=distance='' @ itoa n] else [])))))"
  by (simp add: ensureRoute_def DeleteRoute_def deleteByComment_def cong del: if_weak_cong)

lemma ensureRoute_present:
  assumes "dinv w" and "0 \<le> n" and "ensureRoute run d g n c w = (Inr (), w')"
  shows "routePresent d g n c (tbl w')"
  unfolding routePresent_def
proof (rule ensure_present[OF assms(1) _ _ _ _ assms(3)[unfolded ensureRoute_shape]])
  fix e
  assume e: "addedEntry ([''=dst-address='' @ d, ''=gateway='' @ g, ''=comment='' @ c]
            @ (if n > 0 then [''=distance='' @ itoa n] else [])) e"
  have "mget e ''dst-address'' = d" by (rule addedEntry_given[OF e]) auto
  moreover have "mget e ''gateway'' = g" by (rule addedEntry_given[OF e]) auto
  moreover have "n = 0 \<or> mget e ''distance'' = itoa n"
    using addedEntry_given[OF e, of "''distance''" "itoa n"] assms(2) by (cases "0 < n") auto
  ultimately show "mget e ''dst-address'' = d \<and> mget e ''gateway'' = g \<and>
      (n = 0 \<or> mget e ''distance'' = itoa n)"
    by simp
qed (auto simp: agreeOn_def)

lemma ensureRoute_noop:
  assumes "dinv w" and "routePresent d g n c (tbl w)" and "ensureRoute run d g n c w = (r, w')"
  shows "tbl w' = tbl w"
proof -
  from assms(2) obtain e where e: "owned (\<lambda>v. v = c) (tbl w routeMenu) = [e]"
    "mget e ''dst-address'' = d" "mget e ''gateway'' = g" "n = 0 \<or> mget e ''distance'' = itoa n"
    unfolding routePresent_def by blast
  show ?thesis
    by (rule ensure_noop[OF assms(1) _ _ _ _ assms(3)[unfolded ensureRoute_shape] e(1)])
      (use e(2-) in \<open>auto simp: agreeOn_def\<close>)
qed

end

subsection \<open>Port forwards\<close>

lemma dst_src_differ [simp]: "c @ ''/srcnat'' \<noteq> c @ ''/dstnat''" "c @ ''/dstnat'' \<noteq> c @ ''/srcnat''"
  by simp_all

lemma checkNat_pair:
  assumes "mget d ''comment'' = c @ ''/dstnat''" and "mget s ''comment'' = c @ ''/srcnat''"
    and "rows \<in> {[d, s], [s, d]}"
  shows "checkNat f c (False, False) rows = (dstNatMatches f d, srcNatMatches f s)"
  using assms by auto

text \<open>Conversely, a positive check means that a matching pair is among the rows.\<close>

lemma checkNat_sound:
  assumes "checkNat f c (x, y) rows = (True, True)"
  shows "(x \<or> (\<exists>d\<in>set rows. mget d ''comment'' = c @ ''/dstnat'' \<and> dstNatMatches f d)) \<and>
         (y \<or> (\<exists>s\<in>set rows. mget s ''comment'' = c @ ''/srcnat'' \<and> srcNatMatches f s))"
  using assms
proof (induction rows arbitrary: x y)
  case Nil
  then show ?case by simp
next
  case (Cons e rows)
  then show ?case by (fastforce split: if_splits)
qed

lemma checkNat_two:
  assumes "checkNat f c (False, False) rows = (True, True)" and "length rows = 2"
  obtains d s where "rows \<in> {[d, s], [s, d]}" and "mget d ''comment'' = c @ ''/dstnat''"
    and "mget s ''comment'' = c @ ''/srcnat''" and "dstNatMatches f d" and "srcNatMatches f s"
proof -
  from checkNat_sound[OF assms(1)] obtain d s where ds: "d \<in> set rows" "s \<in> set rows"
    "mget d ''comment'' = c @ ''/dstnat''" "mget s ''comment'' = c @ ''/srcnat''"
    "dstNatMatches f d" "srcNatMatches f s" by auto
  then have "d \<noteq> s" by auto
  moreover from assms(2) obtain a b where "rows = [a, b]"
    by (cases rows; cases "tl rows"; cases "tl (tl rows)") auto
  ultimately have "rows \<in> {[d, s], [s, d]}" using ds by auto
  with ds show thesis by (rule_tac that)
qed

abbreviation natProps :: "string list" where
  "natProps \<equiv> [''chain'', ''protocol'', ''dst-port'', ''action'', ''to-addresses'', ''to-ports'',
     ''dst-address'', ''comment'']"

lemma natMatches_agree:
  assumes "agreeOn natProps row e"
  shows "dstNatMatches f row = dstNatMatches f e" and "srcNatMatches f row = srcNatMatches f e"
    and "mget row ''comment'' = commentOf e"
  using assms by (simp_all add: agreeOn_def dstNatMatches_def srcNatMatches_def commentOf_def)

lemma dstNat_added:
  assumes "addedEntry (tl (dstNatArgs f c ids)) e"
  shows "dstNatMatches f e"
proof -
  have "mget e ''dst-address'' = rpPublicIP f"
  proof (cases "rpPublicIP f = []")
    case True
    have "\<forall>a\<in>set (tl (dstNatArgs f c ids)). \<not> argKey ''dst-address'' a"
      using True by (auto simp: dstNatArgs_def argKey_def optArg_def placeBeforeArg_def Let_def)
    with True show ?thesis
      using addedEntry_absent[OF assms, of "''dst-address''"] by (simp add: matcherKeys_def)
  next
    case False
    then show ?thesis by (intro addedEntry_given[OF assms]) (auto simp: dstNatArgs_def)
  qed
  moreover have "mget e ''chain'' = ''dstnat''" "mget e ''protocol'' = rpProtocol f"
    "mget e ''dst-port'' = itoa (rpExternalPort f)" "mget e ''action'' = ''dst-nat''"
    "mget e ''to-addresses'' = rpTarget f" "mget e ''to-ports'' = itoa (rpTargetPort f)"
    by (rule addedEntry_given[OF assms]; simp add: dstNatArgs_def)+
  ultimately show ?thesis by (simp add: dstNatMatches_def)
qed

lemma srcNat_added:
  assumes "addedEntry (tl (srcNatArgs f c ids)) e"
  shows "srcNatMatches f e"
proof -
  have "mget e ''chain'' = ''srcnat''" "mget e ''dst-address'' = rpTarget f"
    "mget e ''action'' = ''masquerade''"
    by (rule addedEntry_given[OF assms]; simp add: srcNatArgs_def)+
  then show ?thesis by (simp add: srcNatMatches_def)
qed

lemma natArgs_shape:
  "dstNatArgs f c ids = (natMenu @ ''/add'') # tl (dstNatArgs f c ids)"
  "srcNatArgs f c ids = (natMenu @ ''/add'') # tl (srcNatArgs f c ids)"
  "(''=comment='' @ (c @ ''/dstnat'')) \<in> set (tl (dstNatArgs f c ids))"
  "(''=comment='' @ (c @ ''/srcnat'')) \<in> set (tl (srcNatArgs f c ids))"
  by (simp_all add: dstNatArgs_def srcNatArgs_def)

context routeros_device
begin

lemma firstIDsByChain_reads:
  assumes "dinv w" and "m \<in> set managedMenus"
    and "firstIDsByChain run (m @ ''/print'') w = (Inr ids, w')"
  obtains rows where "dinv w'" and "tbl w' = tbl w" and "ids = firstIDsFrom [] rows"
    and "list_all2 (agreeOn [''.id'', ''chain'']) rows (tbl w m)"
proof -
  from assms(3) obtain rows where
    "managedEntries run (m @ ''/print'') (\<lambda>_. True) [''.id'', ''chain''] w = (Inr rows, w')"
    "ids = firstIDsFrom [] rows"
    unfolding firstIDsByChain_def by (auto elim!: bindE_InrE)
  with managedEntries_cases[OF assms(1,2) _ _ _ this(1)] show thesis
    by (auto intro!: that)
qed

lemma EnsurePortForward_present:
  assumes "dinv w" and "EnsurePortForward run f c w = (Inr (), w')"
  shows "portForwardPresent f c (tbl w')"
proof -
  let ?P = "\<lambda>v. managedCommentPrefixMatches v c"
  from assms(2) obtain rows w1 where rows: "managedEntries run (natMenu @ ''/print'') ?P natProps w = (Inr rows, w1)"
    and rest: "(if checkNat f c (False, False) rows = (True, True) \<and> length rows = 2 then returnE ()
       else bindE (DeletePortForward run c) (\<lambda>_.
         bindE (firstIDsByChain run ''/ip/firewall/nat/print'') (\<lambda>firstIDs.
           bindE (runContext run (dstNatArgs f c firstIDs)) (\<lambda>_.
             runContext run (srcNatArgs f c firstIDs))))) w1 = (Inr (), w')"
    unfolding EnsurePortForward_def by (elim bindE_InrE) (auto simp: split_def prod_eq_iff Let_def)
  from managedEntries_cases[OF assms(1) _ _ _ _ rows]
  have w1: "dinv w1" "tbl w1 = tbl w"
    and agree: "list_all2 (agreeOn natProps) rows (owned ?P (tbl w natMenu))"
    by (auto simp: owned_def)
  show ?thesis
  proof (cases "checkNat f c (False, False) rows = (True, True) \<and> length rows = 2")
    case True
    then obtain d s where ds: "rows \<in> {[d, s], [s, d]}" "mget d ''comment'' = c @ ''/dstnat''"
      "mget s ''comment'' = c @ ''/srcnat''" "dstNatMatches f d" "srcNatMatches f s"
      using checkNat_two by blast
    obtain d' s' where "owned ?P (tbl w natMenu) \<in> {[d', s'], [s', d']}"
      "agreeOn natProps d d'" "agreeOn natProps s s'"
      by (rule pair_rows[OF agree ds(1)])
    with ds rest True w1(2) show ?thesis
      unfolding portForwardPresent_def by (auto simp: natMatches_agree)
  next
    case False
    with rest obtain w2 ids w3 w4 where del: "DeletePortForward run c w1 = (Inr (), w2)"
      and ids: "firstIDsByChain run (natMenu @ ''/print'') w2 = (Inr ids, w3)"
      and dst: "runContext run (dstNatArgs f c ids) w3 = (Inr (), w4)"
      and src: "runContext run (srcNatArgs f c ids) w4 = (Inr (), w')"
      by (auto elim!: bindE_InrE)
    from owned_deleted[OF w1(1) _ del[unfolded DeletePortForward_def deleteByCommentPrefix_def menu_cmds]]
    have w2: "owned ?P (tbl w2 natMenu) = []" "dinv w2" by simp_all
    from w2 obtain "dinv w3" "tbl w3 = tbl w2"
      by (rule_tac firstIDsByChain_reads[OF _ _ ids]) auto
    then have w3: "dinv w3" "owned ?P (tbl w3 natMenu) = []" using w2(1) by simp_all
    have dst': "runContext run ((natMenu @ ''/add'') # tl (dstNatArgs f c ids)) w3 = (Inr (), w4)"
      using dst by (subst (asm) natArgs_shape(1))
    have src': "runContext run ((natMenu @ ''/add'') # tl (srcNatArgs f c ids)) w4 = (Inr (), w')"
      using src by (subst (asm) natArgs_shape(2))
    obtain d where d: "addedEntry (tl (dstNatArgs f c ids)) d" "commentOf d = c @ ''/dstnat''"
      "owned ?P (tbl w4 natMenu) = [d]" "dinv w4"
      by (rule add_fresh[OF w3(1) _ w3(2) dst' natArgs_shape(3)]) auto
    obtain s ys zs where s: "addedEntry (tl (srcNatArgs f c ids)) s" "commentOf s = c @ ''/srcnat''"
      "owned ?P (tbl w' natMenu) = ys @ s # zs" "ys @ zs = owned ?P (tbl w4 natMenu)"
      by (rule add_to[where P = ?P, OF d(4) _ src' natArgs_shape(4)]) auto
    from s(3,4) d(3) have "owned ?P (tbl w' natMenu) \<in> {[d, s], [s, d]}"
      by (cases ys) auto
    with d s dstNat_added[OF d(1)] srcNat_added[OF s(1)] show ?thesis
      unfolding portForwardPresent_def by blast
  qed
qed

lemma EnsurePortForward_noop:
  assumes "dinv w" and "portForwardPresent f c (tbl w)" and "EnsurePortForward run f c w = (r, w')"
  shows "tbl w' = tbl w"
proof -
  let ?P = "\<lambda>v. managedCommentPrefixMatches v c"
  obtain x w1 where x: "managedEntries run (natMenu @ ''/print'') ?P natProps w = (x, w1)" by force
  note rd = managedEntries_cases[OF assms(1) _ _ _ _ x, simplified]
  from assms(2) obtain d s where ds: "owned ?P (tbl w natMenu) \<in> {[d, s], [s, d]}"
    "commentOf d = c @ ''/dstnat''" "commentOf s = c @ ''/srcnat''"
    "dstNatMatches f d" "srcNatMatches f s"
    unfolding portForwardPresent_def by blast
  show ?thesis
  proof (cases x)
    case (Inl e)
    with x assms(3) rd show ?thesis by (auto simp: EnsurePortForward_def)
  next
    case (Inr rows)
    with rd have agree: "list_all2 (\<lambda>e row. agreeOn natProps row e) (owned ?P (tbl w natMenu)) rows"
      by (simp add: owned_def list_all2_conv_all_nth)
    obtain d' s' where rows: "rows \<in> {[d', s'], [s', d']}"
      and ag: "agreeOn natProps d' d" "agreeOn natProps s' s"
      by (rule pair_rows[OF agree ds(1)])
    have "checkNat f c (False, False) rows = (True, True)"
      using checkNat_pair[of d' c s' rows f] rows ds natMatches_agree[OF ag(1)] natMatches_agree[OF ag(2)]
      by simp
    moreover have "length rows = 2" using rows by auto
    ultimately show ?thesis
      using x Inr assms(3) rd by (auto simp: EnsurePortForward_def)
  qed
qed

end

subsection \<open>Firewall rules\<close>

lemma firstIDsFrom_spec:
  assumes "chain \<noteq> []" and "\<forall>x\<in>set xs. mget x ''.id'' \<noteq> []"
  shows "mget (firstIDsFrom acc xs) chain =
    (if map_of acc chain \<noteq> None then mget acc chain
     else case find (\<lambda>x. mget x ''chain'' = chain) xs of None \<Rightarrow> [] | Some x \<Rightarrow> mget x ''.id'')"
  using assms(2)
proof (induction xs arbitrary: acc)
  case Nil
  then show ?case by (auto simp: mget_def)
next
  case (Cons x xs)
  then show ?case using assms(1)
    by (auto simp: Let_def mget_def map_add_def split: option.splits)
qed

lemma precedesFrom_agree:
  assumes "list_all2 (agreeOn [''.id'', ''chain'', ''comment'']) rows xs"
  shows "precedesFrom chain i rows = precedesFrom chain i xs" and "chainOfId i rows = chainOfId i xs"
  using assms by (induction rule: list_all2_induct) (auto simp: agreeOn_def)

lemma chainOfId_member:
  assumes "distinct (map ident xs)" and "e \<in> set xs"
  shows "chainOfId (ident e) xs = mget e ''chain''"
  using assms by (induction xs) (auto simp: ident_def image_iff)

lemma precedesFrom_iff:
  assumes "distinct (map ident xs)" and "e \<in> set xs"
  shows "precedesFrom (mget e ''chain'') (ident e) xs \<longleftrightarrow> aheadOfUnmanaged e xs"
  using assms
proof (induction xs)
  case Nil
  then show ?case by simp
next
  case (Cons x xs)
  then show ?case
    by (auto simp: aheadOfUnmanaged_def ident_def commentOf_def image_iff)
qed

lemma setArg_mem:
  "a \<in> set (setArg k v) \<longleftrightarrow> v \<noteq> [] \<and> a = ''='' @ k @ ''='' @ v"
  "a \<in> set (listArg k vs) \<longleftrightarrow> vs \<noteq> [] \<and> a = ''='' @ k @ ''='' @ joinWith '','' vs"
  by (auto simp: setArg_def listArg_def)

lemma setArg_ball:
  "(\<forall>a\<in>set (setArg k v). Q a) \<longleftrightarrow> v = [] \<or> Q (''='' @ k @ ''='' @ v)"
  "(\<forall>a\<in>set (listArg k vs). Q a) \<longleftrightarrow> vs = [] \<or> Q (''='' @ k @ ''='' @ joinWith '','' vs)"
  by (auto simp: setArg_def listArg_def)

lemma firewallArgs_given:
  assumes "addedEntry (tl (firewallArgs rule c) @ optArg (placeBeforeArg ch ids)) e"
  shows "firewallRuleMatches e rule"
proof -
  let ?args = "tl (firewallArgs rule c) @ optArg (placeBeforeArg ch ids)"
  have pb: "\<not> argKey k a" if "a \<in> set (optArg (placeBeforeArg ch ids))" "k \<in> set matcherKeys" for a k
    using that
    by (auto simp: optArg_def placeBeforeArg_def Let_def argKey_def matcherKeys_def split: if_splits)
  have key: "mget e k = v"
    if k: "k \<in> set matcherKeys" "CHR ''='' \<notin> set k"
      and v: "v \<noteq> [] \<longrightarrow> (''='' @ k @ ''='' @ v) \<in> set ?args"
      and no: "v = [] \<longrightarrow> (''='' @ k @ ''='') \<in> set ?args \<or> (\<forall>a\<in>set (tl (firewallArgs rule c)). \<not> argKey k a)"
    for k v
  proof (cases "v = [] \<and> (''='' @ k @ ''='') \<notin> set ?args")
    case True
    with no pb k(1) have "\<forall>a\<in>set ?args. \<not> argKey k a" by auto
    with addedEntry_absent[OF assms k(1)] True show ?thesis by simp
  next
    case False
    have "k \<noteq> ''place-before''" using k(1) by (auto simp: matcherKeys_def)
    with False v k(2) show ?thesis
      using addedEntry_given[OF assms, of k v] by auto
  qed
  have "mget e ''chain'' = frChain rule" "mget e ''action'' = frAction rule"
    by (rule addedEntry_given[OF assms]; simp add: firewallArgs_def)+
  moreover have "mget e ''protocol'' = frProtocol rule"
    "mget e ''src-address'' = frSourceAddress rule" "mget e ''dst-address'' = frDestinationAddress rule"
    "mget e ''src-port'' = frSourcePort rule" "mget e ''dst-port'' = frDestinationPort rule"
    "mget e ''in-interface'' = frInInterface rule" "mget e ''out-interface'' = frOutInterface rule"
    "mget e ''connection-state'' = joinWith '','' (frConnectionState rule)"
    "mget e ''connection-nat-state'' = joinWith '','' (frConnectionNatState rule)"
    "mget e ''log-prefix'' = frLogPrefix rule"
    by (rule key; auto simp: matcherKeys_def firewallArgs_def setArg_mem setArg_ball ball_Un argKey_def)+
  ultimately show ?thesis by (simp add: firewallRuleMatches_def)
qed

abbreviation filterProps :: "string list" where
  "filterProps \<equiv> [''chain'', ''action'', ''protocol'', ''src-address'', ''dst-address'',
     ''src-port'', ''dst-port'', ''in-interface'', ''out-interface'', ''connection-state'',
     ''connection-nat-state'', ''log-prefix'', ''comment'', ''.id'']"

lemma firewallRuleMatches_agree:
  assumes "agreeOn filterProps row e"
  shows "firewallRuleMatches row rule = firewallRuleMatches e rule" and "mget row ''.id'' = ident e"
  using assms by (simp_all add: agreeOn_def firewallRuleMatches_def ident_def)

lemma firewallArgs_shape:
  "firewallArgs rule c @ xs = (filterMenu @ ''/add'') # (tl (firewallArgs rule c) @ xs)"
  "(''=comment='' @ c) \<in> set (tl (firewallArgs rule c) @ xs)"
  by (simp_all add: firewallArgs_def)

lemma placeBeforeOf_firewall:
  "placeBeforeOf (tl (firewallArgs rule c) @ xs) = placeBeforeOf xs"
proof -
  have "\<not> prefix ''=place-before='' a" if "a \<in> set (tl (firewallArgs rule c))" for a
    using that by (auto simp: firewallArgs_def setArg_mem)
  then have "find (prefix ''=place-before='') (tl (firewallArgs rule c) @ xs)
      = find (prefix ''=place-before='') xs"
    by (intro find_append_skip) blast
  then show ?thesis by (simp add: placeBeforeOf_def)
qed

text \<open>An entry placed before the first entry of its chain is ahead of the whole chain.\<close>

lemma placed_first_is_ahead:
  assumes "distinct (map ident (placeEntry pb e xs))"
    and "pb = (case find (\<lambda>x. mget x ''chain'' = mget e ''chain'') xs of
        None \<Rightarrow> None | Some x \<Rightarrow> Some (ident x))"
  shows "aheadOfUnmanaged e (placeEntry pb e xs)"
proof -
  have "mget x ''chain'' \<noteq> mget e ''chain''"
    if x: "x \<in> set (takeWhile (\<lambda>x. ident x \<noteq> ident e) (placeEntry pb e xs))" for x
  proof (cases pb)
    case None
    with assms(2) have no: "\<forall>x\<in>set xs. mget x ''chain'' \<noteq> mget e ''chain''"
      by (auto simp: find_None_iff split: option.splits)
    from x None have "x \<in> set xs"
      by (auto simp: placeEntry_def takeWhile_append split: if_splits dest: set_takeWhileD)
    with no show ?thesis by blast
  next
    case (Some i)
    with assms(2) obtain y where y: "find (\<lambda>x. mget x ''chain'' = mget e ''chain'') xs = Some y"
      "i = ident y" by (auto split: option.splits)
    let ?pre = "takeWhile (\<lambda>x. ident x \<noteq> i) xs"
    have "ident e \<notin> ident ` set ?pre"
      using assms(1) Some by (auto simp: placeEntry_def)
    then have "takeWhile (\<lambda>x. ident x \<noteq> ident e) (placeEntry pb e xs) = ?pre"
      unfolding Some placeEntry_def option.case by (rule takeWhile_before) simp
    with x have xp: "x \<in> set ?pre" by simp
    from y(1) obtain us vs where xs: "xs = us @ y # vs"
      and us: "\<forall>u\<in>set us. mget u ''chain'' \<noteq> mget e ''chain''"
      by (rule find_SomeE)
    have "set ?pre \<subseteq> set us"
      unfolding xs y(2) by (induction us) auto
    with xp us show ?thesis by blast
  qed
  then show ?thesis unfolding aheadOfUnmanaged_def by blast
qed

context routeros_device
begin

lemma replaceFirewallRule_present:
  assumes "dinv w" and "frPlaceBefore rule \<longrightarrow> frChain rule \<noteq> []"
    and "replaceFirewallRule run rule c w = (Inr (), w')"
  shows "firewallPresent rule c (tbl w')"
proof -
  let ?P = "\<lambda>v. managedCommentPrefixMatches v c"
  have weaken: "owned (\<lambda>v. v = c) xs = []" if "owned ?P xs = []" for xs
    using that by (auto simp: owned_def filter_empty_conv)
  from assms(3) obtain w1 where del: "DeleteFirewallRule run c w = (Inr (), w1)"
    and rest: "(if frPlaceBefore rule
       then bindE (firstIDsByChain run ''/ip/firewall/filter/print'') (\<lambda>firstIDs.
              runContext run (firewallArgs rule c @ optArg (placeBeforeArg (frChain rule) firstIDs)))
       else runContext run (firewallArgs rule c)) w1 = (Inr (), w')"
    unfolding replaceFirewallRule_def by (rule bindE_unitE)
  from owned_deleted[OF assms(1) _ del[unfolded DeleteFirewallRule_def deleteByCommentPrefix_def menu_cmds]]
  have w1: "owned (\<lambda>v. v = c) (tbl w1 filterMenu) = []" "dinv w1" by (simp_all add: weaken)
  show ?thesis
  proof (cases "frPlaceBefore rule")
    case False
    with rest have "runContext run ((filterMenu @ ''/add'') # (tl (firewallArgs rule c)
        @ optArg (placeBeforeArg [] []))) w1 = (Inr (), w')"
      by (simp add: optArg_def placeBeforeArg_def firewallArgs_def)
    from add_fresh[OF w1(2) menus_managed(3) w1(1) this firewallArgs_shape(2)]
    obtain e where "addedEntry (tl (firewallArgs rule c) @ optArg (placeBeforeArg [] [])) e"
      "owned (\<lambda>v. v = c) (tbl w' filterMenu) = [e]" by metis
    with False firewallArgs_given show ?thesis unfolding firewallPresent_def by blast
  next
    case True
    with rest obtain ids w2 where ids: "firstIDsByChain run (filterMenu @ ''/print'') w1 = (Inr ids, w2)"
      and add: "runContext run (firewallArgs rule c @ optArg (placeBeforeArg (frChain rule) ids)) w2
        = (Inr (), w')"
      by (auto elim!: bindE_InrE)
    obtain rows where w2: "dinv w2" "tbl w2 = tbl w1" and rows: "ids = firstIDsFrom [] rows"
      "list_all2 (agreeOn [''.id'', ''chain'']) rows (tbl w1 filterMenu)"
      by (rule firstIDsByChain_reads[OF w1(2) _ ids]) auto
    let ?args = "tl (firewallArgs rule c) @ optArg (placeBeforeArg (frChain rule) ids)"
    obtain e where e: "addedEntry ?args e" "owned (\<lambda>v. v = c) (tbl w' filterMenu) = [e]"
      "tbl w' = (tbl w2)(filterMenu := placeEntry (placeBeforeOf ?args) e (tbl w2 filterMenu))" "dinv w'"
      using add_fresh[OF w2(1) menus_managed(3) w1(1)[folded w2(2)]
          add[unfolded firewallArgs_shape(1)] firewallArgs_shape(2)] by metis
    have match: "firewallRuleMatches e rule" by (rule firewallArgs_given[OF e(1)])
    then have chain: "mget e ''chain'' = frChain rule" by (simp add: firewallRuleMatches_def)
    have nonempty_tbl: "\<forall>x\<in>set (tbl w1 filterMenu). ident x \<noteq> []"
      using ids_nonempty[OF w1(2)] by blast
    with rows(2) have nonempty: "\<forall>x\<in>set rows. mget x ''.id'' \<noteq> []"
      by (induction rule: list_all2_induct) (auto simp: agreeOn_def ident_def)
    have "find (\<lambda>x. mget x ''chain'' = frChain rule) rows = None \<and>
          find (\<lambda>x. mget x ''chain'' = frChain rule) (tbl w1 filterMenu) = None \<or>
          (\<exists>x y. find (\<lambda>x. mget x ''chain'' = frChain rule) rows = Some x \<and>
            find (\<lambda>x. mget x ''chain'' = frChain rule) (tbl w1 filterMenu) = Some y \<and>
            mget x ''.id'' = ident y \<and> ident y \<noteq> [])"
      using rows(2) nonempty_tbl by (induction rule: list_all2_induct) (auto simp: agreeOn_def ident_def)
    then have "placeBeforeOf ?args = (case find (\<lambda>x. mget x ''chain'' = mget e ''chain'') (tbl w2 filterMenu) of
        None \<Rightarrow> None | Some x \<Rightarrow> Some (ident x))"
      using True assms(2) nonempty
      by (auto simp: placeBeforeOf_firewall optArg_placeBefore rows(1) firstIDsFrom_spec chain w2(2))
    moreover have "distinct (map ident (placeEntry (placeBeforeOf ?args) e (tbl w2 filterMenu)))"
      using ids_distinct[OF e(4), of filterMenu] e(3) by simp
    ultimately have "aheadOfUnmanaged e (tbl w' filterMenu)"
      using placed_first_is_ahead e(3) by simp
    with match e(2) show ?thesis unfolding firewallPresent_def by blast
  qed
qed

lemma firewallRulePrecedesUnmanaged_reads:
  assumes "dinv w" and "e \<in> set (tbl w filterMenu)" and "mget e ''chain'' \<noteq> []"
    and "firewallRulePrecedesUnmanaged run (ident e) w = (r, w')"
  shows "dinv w' \<and> tbl w' = tbl w \<and> (\<forall>b. r = Inr b \<longrightarrow> b = aheadOfUnmanaged e (tbl w filterMenu))"
proof -
  let ?ps = "[''.id'', ''chain'', ''comment'']"
  obtain s w1 where s: "managedEntries run (filterMenu @ ''/print'') (\<lambda>_. True) ?ps w = (s, w1)" by force
  note rd = managedEntries_cases[OF assms(1) _ _ _ _ s, simplified]
  have "ident e \<noteq> []" by (rule ids_nonempty[OF assms(1,2)])
  with assms(4) s have step: "(case s of Inl x \<Rightarrow> (Inl x, w1)
      | Inr rows \<Rightarrow> (Inr (if chainOfId (ident e) rows = [] then False
          else precedesFrom (chainOfId (ident e) rows) (ident e) rows), w1)) = (r, w')"
    by (auto simp: firewallRulePrecedesUnmanaged_def Let_def bindE_def split: sum.splits if_splits)
  show ?thesis
  proof (cases s)
    case (Inl x)
    with step rd show ?thesis by auto
  next
    case (Inr rows)
    with rd have rows: "list_all2 (agreeOn ?ps) rows (tbl w filterMenu)" by simp
    show ?thesis
      using step rd Inr precedesFrom_agree[OF rows] assms(3)
        chainOfId_member[OF ids_distinct[OF assms(1)] assms(2)]
        precedesFrom_iff[OF ids_distinct[OF assms(1)] assms(2)]
      by auto
  qed
qed

lemma EnsureFirewallRule_lists:
  assumes "dinv w" and "EnsureFirewallRule run rule c w = (r, w')"
  obtains (err) "isl r" and "dinv w'" and "tbl w' = tbl w"
    | (read) rows w1 where "dinv w1" and "tbl w1 = tbl w"
      and "list_all2 (agreeOn filterProps) rows (owned (\<lambda>v. v = c) (tbl w filterMenu))"
      and "(if length rows = 1 \<and> firewallRuleMatches (rows ! 0) rule
       then (if \<not> frPlaceBefore rule then returnE ()
             else bindE (firewallRulePrecedesUnmanaged run (mget (rows ! 0) ''.id''))
                    (\<lambda>precedesUnmanaged.
                      if precedesUnmanaged then returnE ()
                      else replaceFirewallRule run rule c))
       else replaceFirewallRule run rule c) w1 = (r, w')"
proof -
  note ens = assms(2)[unfolded EnsureFirewallRule_def menu_cmds]
  obtain s w1 where s: "managedEntries run (filterMenu @ ''/print'') (\<lambda>v. v = c) filterProps w = (s, w1)"
    by force
  have "\<forall>p\<in>set filterProps. CHR '','' \<notin> set p" "filterProps \<noteq> []" "''comment'' \<in> set filterProps"
    by simp_all
  note rd = managedEntries_cases[OF assms(1) menus_managed(3) this(1,2) disjI1[OF this(3)] s]
  show thesis
  proof (cases s)
    case (Inl x)
    with ens s rd show thesis by (intro err) auto
  next
    case (Inr rows)
    with rd ens s show thesis by (intro read) (auto simp: owned_def cong del: if_weak_cong)
  qed
qed

lemma EnsureFirewallRule_present:
  assumes "dinv w" and "frPlaceBefore rule \<longrightarrow> frChain rule \<noteq> []"
    and "EnsureFirewallRule run rule c w = (Inr (), w')"
  shows "firewallPresent rule c (tbl w')"
  using assms(1,3)
proof (cases rule: EnsureFirewallRule_lists)
  case (read rows w1)
  note repl = replaceFirewallRule_present[OF _ assms(2)]
  show ?thesis
  proof (cases "length rows = 1 \<and> firewallRuleMatches (rows ! 0) rule")
    case False
    with read repl show ?thesis by auto
  next
    case True
    with read(3) obtain e where e: "owned (\<lambda>v. v = c) (tbl w filterMenu) = [e]"
      and agree: "agreeOn filterProps (rows ! 0) e"
      by (auto elim: one_row)
    have m: "firewallRuleMatches e rule" and i: "mget (rows ! 0) ''.id'' = ident e"
      using firewallRuleMatches_agree[OF agree] agree True
      by (auto simp: agreeOn_def ident_def)
    have mem: "e \<in> set (tbl w1 filterMenu)"
      using owned_subset[of "\<lambda>v. v = c" "tbl w filterMenu"] e read(2) by auto
    show ?thesis
    proof (cases "frPlaceBefore rule")
      case False
      with True read(2,4) e m show ?thesis by (auto simp: firewallPresent_def)
    next
      case pb: True
      with assms(2) m have ch: "mget e ''chain'' \<noteq> []" by (auto simp: firewallRuleMatches_def)
      from pb True read(4) i obtain b w2
        where b: "firewallRulePrecedesUnmanaged run (ident e) w1 = (Inr b, w2)"
        and rest: "(if b then returnE () else replaceFirewallRule run rule c) w2 = (Inr (), w')"
        by (auto elim!: bindE_InrE)
      from firewallRulePrecedesUnmanaged_reads[OF read(1) mem ch b]
      have w2: "dinv w2" "tbl w2 = tbl w" "b = aheadOfUnmanaged e (tbl w filterMenu)"
        using read(2) by auto
      show ?thesis
      proof (cases b)
        case True
        with rest w2 e m show ?thesis by (auto simp: firewallPresent_def)
      next
        case False
        with rest repl[OF w2(1)] show ?thesis by simp
      qed
    qed
  qed
qed auto

lemma EnsureFirewallRule_noop:
  assumes "dinv w" and "frPlaceBefore rule \<longrightarrow> frChain rule \<noteq> []"
    and "firewallPresent rule c (tbl w)" and "EnsureFirewallRule run rule c w = (r, w')"
  shows "tbl w' = tbl w"
  using assms(1,4)
proof (cases rule: EnsureFirewallRule_lists)
  case (read rows w1)
  from assms(3) obtain e where e: "owned (\<lambda>v. v = c) (tbl w filterMenu) = [e]" "firewallRuleMatches e rule"
    "frPlaceBefore rule \<longrightarrow> aheadOfUnmanaged e (tbl w filterMenu)"
    unfolding firewallPresent_def by blast
  with read(3) obtain row where rows: "rows = [row]" and agree: "agreeOn filterProps row e"
    by (auto simp: list_all2_Cons2)
  have m: "firewallRuleMatches row rule" and i: "mget row ''.id'' = ident e"
    using firewallRuleMatches_agree[OF agree] agree e(2)
    by (auto simp: agreeOn_def ident_def)
  have mem: "e \<in> set (tbl w1 filterMenu)"
    using owned_subset[of "\<lambda>v. v = c" "tbl w filterMenu"] e(1) read(2) by auto
  show ?thesis
  proof (cases "frPlaceBefore rule")
    case False
    with read(2,4) rows m show ?thesis by simp
  next
    case True
    with assms(2) e(2) have ch: "mget e ''chain'' \<noteq> []" by (auto simp: firewallRuleMatches_def)
    obtain s w2 where s: "firewallRulePrecedesUnmanaged run (ident e) w1 = (s, w2)" by force
    from firewallRulePrecedesUnmanaged_reads[OF read(1) mem ch s] True e(3) read(2)
    have "tbl w2 = tbl w" and "\<forall>b. s = Inr b \<longrightarrow> b" by auto
    with s read(4) rows m i True show ?thesis by (cases s) auto
  qed
qed auto

end

end
