(* ===== verification/RouterOS_Objects.thy ===== *)
theory RouterOS_Objects
  imports RouterOS_Contracts
begin

text \<open>
  The routes of one object as a set, the common contract of the objects the operator keeps on a
  router (the locale \<open>managed_object\<close>) and its instances: DNS records, port forwards, routes and
  firewall rules.
\<close>

section \<open>The set of routes of one object\<close>

text \<open>Exactly one route per gateway under the prefix, and nothing else under it.\<close>

definition routesPresent ::
  "string \<Rightarrow> string list \<Rightarrow> string \<Rightarrow> (string \<Rightarrow> strmap list) \<Rightarrow> bool" where
  "routesPresent destination gateways pre T \<longleftrightarrow>
     (\<forall>g\<in>set gateways. routePresent destination g 0 (pre @ ''/'' @ g) T) \<and>
     (\<forall>e\<in>set (T routeMenu). managedCommentPrefixMatches (commentOf e) pre \<longrightarrow>
        (\<exists>g\<in>set gateways. commentOf e = pre @ ''/'' @ g))"

lemma untouched_owned:
  assumes "untouched tbl dinv P w w'" and "dinv w" and "\<And>v. Q v \<Longrightarrow> \<not> P v"
  shows "owned Q (tbl w' m) = owned Q (tbl w m)" and "dinv w'"
proof -
  have "owned Q xs = owned Q (filter (\<lambda>e. \<not> P (commentOf e)) xs)" for xs
    using assms(3) by (auto simp: owned_def intro!: filter_cong)
  with assms(1,2) show "owned Q (tbl w' m) = owned Q (tbl w m)" and "dinv w'"
    unfolding untouched_def by metis+
qed

context routeros_device
begin

lemma EnsureRoute_loop:
  assumes "dinv w"
    and "forE (\<lambda>g. EnsureRoute run d g (pre @ ''/'' @ g)) gs w = (Inr (), w')"
  shows "dinv w' \<and> (\<forall>g\<in>set gs. routePresent d g 0 (pre @ ''/'' @ g) (tbl w')) \<and>
    (\<forall>Q. (\<forall>g\<in>set gs. \<not> Q (pre @ ''/'' @ g)) \<longrightarrow>
       owned Q (tbl w' routeMenu) = owned Q (tbl w routeMenu))"
  using assms
proof (induction gs arbitrary: w)
  case Nil
  then show ?case by simp
next
  case (Cons g gs)
  from Cons.prems(2) obtain w1 where step: "ensureRoute run d g 0 (pre @ ''/'' @ g) w = (Inr (), w1)"
    and rest: "forE (\<lambda>g. EnsureRoute run d g (pre @ ''/'' @ g)) gs w1 = (Inr (), w')"
    unfolding EnsureRoute_def forE.simps by (rule bindE_unitE)
  note keep = untouched_owned[OF keepsD[OF ensureRoute_untouched step] Cons.prems(1)]
  have w1: "dinv w1" by (rule keep(2)[of "\<lambda>_. False"]) simp
  have here: "routePresent d g 0 (pre @ ''/'' @ g) (tbl w1)"
    by (rule ensureRoute_present[OF Cons.prems(1) _ step]) simp
  have IH: "dinv w'" "\<forall>g\<in>set gs. routePresent d g 0 (pre @ ''/'' @ g) (tbl w')"
    and IH3: "\<And>Q. \<forall>g\<in>set gs. \<not> Q (pre @ ''/'' @ g) \<Longrightarrow>
       owned Q (tbl w' routeMenu) = owned Q (tbl w1 routeMenu)"
    using Cons.IH[OF w1 rest] by blast+
  have "routePresent d g 0 (pre @ ''/'' @ g) (tbl w')"
  proof (cases "g \<in> set gs")
    case False
    then have "owned (\<lambda>v. v = pre @ ''/'' @ g) (tbl w' routeMenu)
        = owned (\<lambda>v. v = pre @ ''/'' @ g) (tbl w1 routeMenu)" by (intro IH3) auto
    with here show ?thesis by (simp add: routePresent_def)
  qed (use IH in blast)
  moreover have "owned Q (tbl w' routeMenu) = owned Q (tbl w routeMenu)"
    if "\<forall>g\<in>set (g # gs). \<not> Q (pre @ ''/'' @ g)" for Q
  proof -
    have "owned Q (tbl w' routeMenu) = owned Q (tbl w1 routeMenu)" by (rule IH3) (use that in simp)
    also have "\<dots> = owned Q (tbl w routeMenu)" by (rule keep(1)) (use that in auto)
    finally show ?thesis .
  qed
  ultimately show ?case using IH by simp
qed

lemma EnsureRoutes_present:
  assumes "dinv w" and "EnsureRoutes run d gs pre w = (Inr (), w')"
  shows "routesPresent d gs pre (tbl w')"
proof -
  let ?D = "\<lambda>v. v \<in> set (map (\<lambda>gateway. pre @ ''/'' @ gateway) gs)"
  let ?P = "\<lambda>v. managedCommentPrefixMatches v pre"
  let ?del = "deleteMatching run (routeMenu @ ''/print'') (routeMenu @ ''/remove'') (\<lambda>v. ?P v \<and> \<not> ?D v)"
  have sweep: "bindE (managedEntries run (routeMenu @ ''/print'') ?P [''.id'', ''comment''])
      (\<lambda>es. forE (\<lambda>entry. runContext run [routeMenu @ ''/remove'', ''=.id='' @ mget entry ''.id''])
        (filter (\<lambda>e. \<not> ?D (mget e ''comment'')) es)) = ?del"
    unfolding deleteMatching_def by (rule managedEntries_restrict)
  from assms(2) obtain w1 where del: "?del w = (Inr (), w1)"
    and loop: "forE (\<lambda>g. EnsureRoute run d g (pre @ ''/'' @ g)) gs w1 = (Inr (), w')"
    unfolding EnsureRoutes_def Let_def menu_cmds forE_filter bindE_assoc[symmetric] sweep
    by (rule bindE_unitE)
  from owned_deleted[OF assms(1) _ del]
  have w1: "owned (\<lambda>v. ?P v \<and> \<not> ?D v) (tbl w1 routeMenu) = []" "dinv w1" by simp_all
  from EnsureRoute_loop[OF w1(2) loop] w1(1)
  have "owned (\<lambda>v. ?P v \<and> \<not> ?D v) (tbl w' routeMenu) = []"
    and "\<forall>g\<in>set gs. routePresent d g 0 (pre @ ''/'' @ g) (tbl w')" by auto
  then show ?thesis unfolding routesPresent_def owned_def filter_empty_conv by fastforce
qed

end

section \<open>The sweep\<close>

context routeros_device
begin

lemma deleteMatching_all:
  assumes "dinv w" and "set ms \<subseteq> set managedMenus"
    and "forE (\<lambda>m. deleteMatching run (m @ ''/print'') (m @ ''/remove'') P) ms w = (Inr (), w')"
  shows "tbl w' = (\<lambda>m. if m \<in> set ms then filter (\<lambda>e. \<not> P (commentOf e)) (tbl w m) else tbl w m)"
  using assms
proof (induction ms arbitrary: w)
  case (Cons m ms)
  from Cons.prems(3) obtain w1
    where del: "deleteMatching run (m @ ''/print'') (m @ ''/remove'') P w = (Inr (), w1)"
    and rest: "forE (\<lambda>m. deleteMatching run (m @ ''/print'') (m @ ''/remove'') P) ms w1 = (Inr (), w')"
    unfolding forE.simps by (rule bindE_unitE)
  from Cons.prems have m: "m \<in> set managedMenus" and ms: "set ms \<subseteq> set managedMenus" by auto
  have "dinv w1" using deleteMatching_effect[OF Cons.prems(1) m del] by blast
  from Cons.IH[OF this ms rest] deleteMatching_absent[OF Cons.prems(1) m del]
  show ?case by (auto simp: fun_eq_iff)
qed simp

lemma DeleteManagedConfiguration_sweeps:
  assumes "dinv w" and "DeleteManagedConfiguration run w = (Inr (), w')"
  shows "tbl w' = (\<lambda>m. if m \<in> set managedMenus
    then filter (\<lambda>e. \<not> isManagedComment (commentOf e)) (tbl w m) else tbl w m)"
proof (rule deleteMatching_all[OF assms(1) subset_refl])
  show "forE (\<lambda>m. deleteMatching run (m @ ''/print'') (m @ ''/remove'') isManagedComment) managedMenus w
      = (Inr (), w')"
    using assms(2) by (simp add: DeleteManagedConfiguration_def managedMenus_def isManagedComment_def[abs_def])
qed

end

section \<open>Objects kept on a router\<close>

text \<open>
  What a reconciler relies on of an ensure/remove pair, whatever the kind of object: a successful
  ensure leaves the object present, an ensure of a present object and a removal of an absent one
  leave the tables as they are.  The four kinds the operator manages are instances.
\<close>

locale managed_object =
  fixes ensure remove :: "('w, unit) prog"
    and good :: "'w \<Rightarrow> bool"
    and view :: "'w \<Rightarrow> 'v"
    and present gone :: "'v \<Rightarrow> bool"
  assumes ensure_good: "good w \<Longrightarrow> ensure w = (r, w') \<Longrightarrow> good w'"
    and ensure_present: "good w \<Longrightarrow> ensure w = (Inr (), w') \<Longrightarrow> present (view w')"
    and ensure_noop: "good w \<Longrightarrow> present (view w) \<Longrightarrow> ensure w = (r, w') \<Longrightarrow> view w' = view w"
    and remove_good: "good w \<Longrightarrow> remove w = (r, w') \<Longrightarrow> good w'"
    and remove_gone: "good w \<Longrightarrow> remove w = (Inr (), w') \<Longrightarrow> gone (view w')"
    and remove_noop: "good w \<Longrightarrow> gone (view w) \<Longrightarrow> remove w = (r, w') \<Longrightarrow> view w' = view w"
begin

lemma ensure_idempotent:
  assumes "good w" and "ensure w = (Inr (), w1)" and "ensure w1 = (r, w2)"
  shows "present (view w1) \<and> view w2 = view w1"
  using assms ensure_good ensure_present ensure_noop by blast

lemma ensure_stable:
  assumes "good w" and "present (view w)"
  shows "view (((\<lambda>w. snd (ensure w)) ^^ n) w) = view w \<and> good (((\<lambda>w. snd (ensure w)) ^^ n) w)"
proof (induction n)
  case (Suc n)
  let ?u = "((\<lambda>w. snd (ensure w)) ^^ n) w"
  have "ensure ?u = (fst (ensure ?u), snd (ensure ?u))" by simp
  with Suc assms(2) show ?case using ensure_noop[of ?u] ensure_good[of ?u] by fastforce
qed (use assms(1) in simp)

lemma converges:
  assumes "good w" and "ensure w = (Inr (), w1)"
  shows "view (((\<lambda>w. snd (ensure w)) ^^ n) w1) = view w1"
  using assms ensure_stable ensure_good ensure_present by blast

lemma remove_idempotent:
  assumes "good w" and "remove w = (Inr (), w1)" and "remove w1 = (r, w2)"
  shows "gone (view w1) \<and> view w2 = view w1"
  using assms remove_good remove_gone remove_noop by blast

end

lemma keeps_untouched_inv: "keeps (untouched tbl dinv P) m \<Longrightarrow> dinv w \<Longrightarrow> m w = (r, w') \<Longrightarrow> dinv w'"
  by (drule (1) keepsD) (simp add: untouched_def)

context routeros_device
begin

lemma DeleteDNS_gone:
  assumes "dinv w" and "DeleteDNS run c w = (Inr (), w')"
  shows "owned (\<lambda>v. v = c) (tbl w' dnsMenu) = []"
  by (rule owned_deleted(1)[OF assms(1) menus_managed(1)
        assms(2)[unfolded DeleteDNS_def deleteByComment_def menu_cmds]])

lemma DeleteRoute_gone:
  assumes "dinv w" and "DeleteRoute run c w = (Inr (), w')"
  shows "owned (\<lambda>v. v = c) (tbl w' routeMenu) = []"
  by (rule owned_deleted(1)[OF assms(1) menus_managed(4)
        assms(2)[unfolded DeleteRoute_def deleteByComment_def menu_cmds]])

lemma DeletePortForward_gone:
  assumes "dinv w" and "DeletePortForward run c w = (Inr (), w')"
  shows "owned (\<lambda>v. managedCommentPrefixMatches v c) (tbl w' natMenu) = []"
  by (rule owned_deleted(1)[OF assms(1) menus_managed(2)
        assms(2)[unfolded DeletePortForward_def deleteByCommentPrefix_def menu_cmds]])

lemma DeleteFirewallRule_gone:
  assumes "dinv w" and "DeleteFirewallRule run c w = (Inr (), w')"
  shows "owned (\<lambda>v. managedCommentPrefixMatches v c) (tbl w' filterMenu) = []"
  by (rule owned_deleted(1)[OF assms(1) menus_managed(3)
        assms(2)[unfolded DeleteFirewallRule_def deleteByCommentPrefix_def menu_cmds]])

lemma DeleteDNS_noop:
  assumes "dinv w" and "owned (\<lambda>v. v = c) (tbl w dnsMenu) = []" and "DeleteDNS run c w = (r, w')"
  shows "tbl w' = tbl w"
  by (rule deleteMatching_noop[OF assms(1) menus_managed(1) assms(2)
        assms(3)[unfolded DeleteDNS_def deleteByComment_def menu_cmds]])

lemma DeleteRoute_noop:
  assumes "dinv w" and "owned (\<lambda>v. v = c) (tbl w routeMenu) = []" and "DeleteRoute run c w = (r, w')"
  shows "tbl w' = tbl w"
  by (rule deleteMatching_noop[OF assms(1) menus_managed(4) assms(2)
        assms(3)[unfolded DeleteRoute_def deleteByComment_def menu_cmds]])

lemma DeletePortForward_noop:
  assumes "dinv w" and "owned (\<lambda>v. managedCommentPrefixMatches v c) (tbl w natMenu) = []"
    and "DeletePortForward run c w = (r, w')"
  shows "tbl w' = tbl w"
  by (rule deleteMatching_noop[OF assms(1) menus_managed(2) assms(2)
        assms(3)[unfolded DeletePortForward_def deleteByCommentPrefix_def menu_cmds]])

lemma DeleteFirewallRule_noop:
  assumes "dinv w" and "owned (\<lambda>v. managedCommentPrefixMatches v c) (tbl w filterMenu) = []"
    and "DeleteFirewallRule run c w = (r, w')"
  shows "tbl w' = tbl w"
  by (rule deleteMatching_noop[OF assms(1) menus_managed(3) assms(2)
        assms(3)[unfolded DeleteFirewallRule_def deleteByCommentPrefix_def menu_cmds]])

end

sublocale routeros_device \<subseteq> dns: managed_object "EnsureDNS run n a t c" "DeleteDNS run c" dinv tbl
  "dnsPresent n a t c" "\<lambda>T. owned (\<lambda>v. v = c) (T dnsMenu) = []" for n a t c
  by (unfold_locales; rule keeps_untouched_inv[OF EnsureDNS_untouched] EnsureDNS_present EnsureDNS_noop
      keeps_untouched_inv[OF DeleteDNS_untouched] DeleteDNS_gone DeleteDNS_noop)

sublocale routeros_device \<subseteq> nat: managed_object "EnsurePortForward run f c" "DeletePortForward run c"
  dinv tbl "portForwardPresent f c"
  "\<lambda>T. owned (\<lambda>v. managedCommentPrefixMatches v c) (T natMenu) = []" for f c
  by (unfold_locales; rule keeps_untouched_inv[OF EnsurePortForward_untouched]
      EnsurePortForward_present EnsurePortForward_noop
      keeps_untouched_inv[OF DeletePortForward_untouched] DeletePortForward_gone DeletePortForward_noop)

sublocale routeros_device \<subseteq> rt: managed_object "ensureRoute run d g (int k) c" "DeleteRoute run c"
  dinv tbl "routePresent d g (int k) c" "\<lambda>T. owned (\<lambda>v. v = c) (T routeMenu) = []" for d g k c
  by (unfold_locales; rule keeps_untouched_inv[OF ensureRoute_untouched]
      ensureRoute_present[OF _ of_nat_0_le_iff] ensureRoute_noop
      keeps_untouched_inv[OF DeleteRoute_untouched] DeleteRoute_gone DeleteRoute_noop)

text \<open>For firewall rules the contract needs a rule that can be compared: with
  \<^verbatim>\<open>placeBefore\<close> the chain must be set, which the resource's schema requires anyway.\<close>

locale firewall_object = routeros_device run tbl dinv
  for run :: "'w runner" and tbl :: "'w \<Rightarrow> string \<Rightarrow> strmap list" and dinv :: "'w \<Rightarrow> bool" +
  fixes rule :: rosFirewallRule
  assumes chain_set: "frPlaceBefore rule \<longrightarrow> frChain rule \<noteq> []"

sublocale firewall_object \<subseteq> fw: managed_object "EnsureFirewallRule run rule c" "DeleteFirewallRule run c"
  dinv tbl "firewallPresent rule c"
  "\<lambda>T. owned (\<lambda>v. managedCommentPrefixMatches v c) (T filterMenu) = []" for c
  by (unfold_locales; rule keeps_untouched_inv[OF EnsureFirewallRule_untouched]
      EnsureFirewallRule_present[OF _ chain_set] EnsureFirewallRule_noop[OF _ chain_set]
      keeps_untouched_inv[OF DeleteFirewallRule_untouched] DeleteFirewallRule_gone DeleteFirewallRule_noop)

context routeros_device
begin

lemmas EnsureDNS_passes = dns.converges
lemmas EnsurePortForward_passes = nat.converges
lemmas ensureRoute_passes = rt.converges

end

context firewall_object
begin

lemmas EnsureFirewallRule_passes = fw.converges

end

end
