(* ===== verification/RouterOS_Sim.thy ===== *)
theory RouterOS_Sim
  imports RouterOS_Objects
begin

text \<open>
  An executable router: tables in memory that answer the print, add and remove commands the
  client sends.  It meets the laws of \<open>routeros_device\<close>, so the contracts are not about an
  empty class of routers, and the concrete runs of the development are evaluated on it.
\<close>

record simState =
  simData :: "(string \<times> strmap list) list"
  simNext :: nat

definition simTables :: "simState \<Rightarrow> string \<Rightarrow> strmap list" where
  "simTables w m = (case map_of (simData w) m of None \<Rightarrow> [] | Some xs \<Rightarrow> xs)"

definition simSet :: "string \<Rightarrow> strmap list \<Rightarrow> simState \<Rightarrow> simState" where
  "simSet m xs w = w\<lparr>simData := (m, xs) # filter (\<lambda>p. fst p \<noteq> m) (simData w)\<rparr>"

definition simEmpty :: simState where
  "simEmpty = \<lparr>simData = [], simNext = 1\<rparr>"

lemma map_of_filter_other: "m' \<noteq> m \<Longrightarrow> map_of (filter (\<lambda>p. fst p \<noteq> m) xs) m' = map_of xs m'"
  by (induction xs) auto

lemma simTables_set [simp]: "simTables (simSet m xs w) = (simTables w)(m := xs)"
  by (auto simp: simTables_def simSet_def fun_eq_iff map_of_filter_other)

lemma simNext_set [simp]: "simNext (simSet m xs w) = simNext w"
  by (simp add: simSet_def)

lemma simTables_next [simp]: "simTables (w\<lparr>simNext := n\<rparr>) = simTables w"
  by (simp add: simTables_def fun_eq_iff)

text \<open>An argument \<^verbatim>\<open>=key=value\<close> as a pair.\<close>

fun argPair :: "string \<Rightarrow> (string \<times> string) option" where
  "argPair [] = None"
| "argPair (c # cs) =
     (if c \<noteq> CHR ''='' then None
      else case dropWhile (\<lambda>x. x \<noteq> CHR ''='') cs of
             [] \<Rightarrow> None
           | _ # v \<Rightarrow> Some (takeWhile (\<lambda>x. x \<noteq> CHR ''='') cs, v))"

definition simIdent :: "nat \<Rightarrow> string" where
  "simIdent n = CHR ''*'' # natDigits n"

definition simAdd :: "string \<Rightarrow> string list \<Rightarrow> simState \<Rightarrow> (goerr + reply option) \<times> simState" where
  "simAdd m args w =
     (let ps = map argPair args; kvs = concat (map (\<lambda>p. case p of None \<Rightarrow> [] | Some kv \<Rightarrow> [kv]) ps) in
      if (\<exists>p\<in>set ps. p = None) \<or> \<not> distinct (map fst kvs) \<or> ''.id'' \<in> set (map fst kvs)
      then (Inl (Opaque ''bad arguments''), w)
      else let e = (''.id'', simIdent (simNext w)) # kvs in
        (Inr (Some \<lparr>Re = [], Done = None\<rparr>),
         (simSet m (placeEntry (placeBeforeOf args) e (simTables w m)) w)\<lparr>simNext := simNext w + 1\<rparr>))"

definition menuOf :: "string \<Rightarrow> string \<Rightarrow> string option" where
  "menuOf verb cmd = find (\<lambda>m. cmd = m @ verb) managedMenus"

definition simRun :: "simState runner" where
  "simRun args w =
     (case args of
        [] \<Rightarrow> (Inl (Opaque ''no command''), w)
      | cmd # rest \<Rightarrow>
          (case menuOf ''/print'' cmd of
             Some m \<Rightarrow> (Inr (Some \<lparr>Re = map Some (simTables w m), Done = None\<rparr>), w)
           | None \<Rightarrow>
          (case menuOf ''/remove'' cmd of
             Some m \<Rightarrow>
               (case rest of
                  [a] \<Rightarrow>
                    (if hasPrefix a ''=.id=''
                     then (Inr (Some \<lparr>Re = [], Done = None\<rparr>),
                           simSet m (filter (\<lambda>e. ident e \<noteq> drop 5 a) (simTables w m)) w)
                     else (Inl (Opaque ''no such item''), w))
                | _ \<Rightarrow> (Inl (Opaque ''bad arguments''), w))
           | None \<Rightarrow>
          (case menuOf ''/add'' cmd of
             Some m \<Rightarrow> simAdd m rest w
           | None \<Rightarrow> (Inl (Opaque ''no such command''), w)))))"

definition simInv :: "simState \<Rightarrow> bool" where
  "simInv w \<longleftrightarrow> (\<forall>m. distinct (map ident (simTables w m)) \<and>
     (\<forall>e\<in>set (simTables w m). \<exists>k<simNext w. ident e = simIdent k))"

lemma simInv_empty [simp]: "simInv simEmpty"
  by (simp add: simInv_def simEmpty_def simTables_def)

lemma argPair_arg [simp]: "CHR ''='' \<notin> set k \<Longrightarrow> argPair (CHR ''='' # k @ CHR ''='' # v) = Some (k, v)"
proof -
  assume "CHR ''='' \<notin> set k"
  then have "dropWhile (\<lambda>x. x \<noteq> CHR ''='') (k @ CHR ''='' # v) = CHR ''='' # v"
    and "takeWhile (\<lambda>x. x \<noteq> CHR ''='') (k @ CHR ''='' # v) = k"
    by (induction k) auto
  then show ?thesis by simp
qed

lemma argPair_key:
  assumes "argPair a = Some (k, v)"
  shows "argKey k a"
proof (cases a)
  case Nil
  with assms show ?thesis by simp
next
  case (Cons c cs)
  from assms Cons obtain x where c: "c = CHR ''=''"
    and k: "k = takeWhile (\<lambda>x. x \<noteq> CHR ''='') cs" and d: "dropWhile (\<lambda>x. x \<noteq> CHR ''='') cs = x # v"
    by (auto split: if_splits list.splits)
  have "x = CHR ''=''" using hd_dropWhile[of "\<lambda>x. x \<noteq> CHR ''=''" cs] d by simp
  then have "cs = k @ CHR ''='' # v" using k d by (metis takeWhile_dropWhile_id)
  with Cons c show ?thesis by (simp add: argKey_def)
qed

lemma menuOf_hit:
  assumes "m \<in> set managedMenus"
  shows "menuOf ''/print'' (m @ ''/print'') = Some m"
    and "menuOf ''/remove'' (m @ ''/remove'') = Some m" "menuOf ''/print'' (m @ ''/remove'') = None"
    and "menuOf ''/add'' (m @ ''/add'') = Some m" "menuOf ''/print'' (m @ ''/add'') = None"
    "menuOf ''/remove'' (m @ ''/add'') = None"
  using assms by (auto simp: menuOf_def managedMenus_def)

lemma simIdent_inj [simp]: "simIdent m = simIdent n \<longleftrightarrow> m = n"
  by (simp add: simIdent_def)

lemma distinct_placeEntry:
  assumes "distinct (map ident xs)" and "ident e \<notin> ident ` set xs"
  shows "distinct (map ident (placeEntry pb e xs))"
proof (cases pb)
  case None
  with assms show ?thesis by (auto simp: placeEntry_def)
next
  case (Some i)
  obtain us vs where eq: "takeWhile (\<lambda>x. ident x \<noteq> i) xs = us" "dropWhile (\<lambda>x. ident x \<noteq> i) xs = vs"
    by simp
  then have "xs = us @ vs" by (metis takeWhile_dropWhile_id)
  with assms Some eq show ?thesis by (auto simp: placeEntry_def)
qed

lemma simAdd_added:
  assumes "simAdd m args w = (r, w')"
  shows "isl r \<and> w' = w \<or> (\<exists>e. addedEntry args e \<and> ident e = simIdent (simNext w) \<and>
    w' = (simSet m (placeEntry (placeBeforeOf args) e (simTables w m)) w)\<lparr>simNext := simNext w + 1\<rparr>)"
proof -
  let ?ps = "map argPair args"
  let ?kvs = "concat (map (\<lambda>p. case p of None \<Rightarrow> [] | Some kv \<Rightarrow> [kv]) ?ps)"
  let ?e = "(''.id'', simIdent (simNext w)) # ?kvs"
  let ?bad = "(\<exists>p\<in>set ?ps. p = None) \<or> \<not> distinct (map fst ?kvs) \<or> ''.id'' \<in> set (map fst ?kvs)"
  show ?thesis
  proof (cases ?bad)
    case True
    then have "simAdd m args w = (Inl (Opaque ''bad arguments''), w)"
      unfolding simAdd_def Let_def by (rule if_P)
    with assms show ?thesis by auto
  next
    case False
    then have dist: "distinct (map fst ?kvs)" and noid: "''.id'' \<notin> set (map fst ?kvs)" by simp_all
    have mem: "(k, v) \<in> set ?kvs \<longleftrightarrow> (\<exists>a\<in>set args. argPair a = Some (k, v))" for k v
      by (force split: option.splits)
    have "mget ?e k = v" if "(''='' @ k @ ''='' @ v) \<in> set args" "CHR ''='' \<notin> set k" for k v
    proof -
      have "argPair (''='' @ k @ ''='' @ v) = Some (k, v)"
        using argPair_arg[OF that(2)] by (simp del: argPair.simps)
      then have kv: "(k, v) \<in> set ?kvs" unfolding mem using that(1) by blast
      then have "k \<noteq> ''.id''" using noid by force
      with kv dist show ?thesis by (simp add: mget_def map_of_is_SomeI del: set_concat)
    qed
    moreover have "mget ?e k = []" if "k \<in> set matcherKeys" "\<forall>a\<in>set args. \<not> argKey k a" for k
    proof -
      have "map_of ?kvs k = None"
        using that(2) argPair_key mem by (auto simp: map_of_eq_None_iff simp del: set_concat) blast
      moreover have "k \<noteq> ''.id''" using that(1) by (auto simp: matcherKeys_def)
      ultimately show ?thesis by (simp add: mget_def)
    qed
    ultimately have "addedEntry args ?e" unfolding addedEntry_def by blast
    moreover have "ident ?e = simIdent (simNext w)" by (simp add: ident_def)
    moreover have "w' = (simSet m (placeEntry (placeBeforeOf args) ?e (simTables w m)) w)\<lparr>simNext := simNext w + 1\<rparr>"
      using assms False unfolding simAdd_def Let_def by (simp only: if_False) simp
    ultimately show ?thesis by blast
  qed
qed

lemma simInv_add:
  assumes "simInv w" and "ident e = simIdent (simNext w)"
  shows "simInv ((simSet m (placeEntry pb e (simTables w m)) w)\<lparr>simNext := simNext w + 1\<rparr>)"
proof -
  have "ident e \<notin> ident ` set (simTables w m)"
    using assms by (force simp: simInv_def)
  moreover have "\<exists>k<Suc (simNext w). ident x = simIdent k" if "x \<in> set (simTables w m')" for x m'
    using that assms(1) by (meson simInv_def less_SucI)
  ultimately show ?thesis
    using assms distinct_placeEntry by (auto simp: simInv_def)
qed

lemma simInv_filter:
  "simInv w \<Longrightarrow> simInv (simSet m (filter P (simTables w m)) w)"
  by (auto simp: simInv_def distinct_map_filter)

lemma simInv_run:
  assumes "simInv w" and "simRun args w = (r, w')"
  shows "simInv w'"
proof -
  have "simInv w'" if "simAdd m xs w = (r, w')" for m xs
    using simAdd_added[OF that] simInv_add[OF assms(1)] assms(1) by auto
  with assms show ?thesis
    by (auto simp: simRun_def simInv_filter split: list.splits option.splits if_splits)
qed

interpretation sim: routeros_device simRun simTables simInv
proof
  fix w args r w'
  show "simInv w \<Longrightarrow> simRun args w = (r, w') \<Longrightarrow> simInv w'" by (rule simInv_run)
next
  fix w m x r w'
  assume "m \<in> set managedMenus" and "simRun [m @ ''/print'', x] w = (r, w')"
  then show "simTables w' = simTables w" by (auto simp: simRun_def menuOf_hit)
next
  fix w m ps rp w'
  assume "m \<in> set managedMenus"
    and "simRun [m @ ''/print'', ''=.proplist='' @ joinWith '','' ps] w = (Inr rp, w')"
  then show "\<exists>rep rows. rp = Some rep \<and> Re rep = map Some rows \<and>
      list_all2 (\<lambda>row e. \<forall>k\<in>set ps. mget row k = mget e k) rows (simTables w m)"
    by (auto simp: simRun_def menuOf_hit intro!: exI[of _ "simTables w m"] list_all2_refl)
next
  fix w m i r w'
  assume "m \<in> set managedMenus" and "simRun [m @ ''/remove'', ''=.id='' @ i] w = (r, w')"
  then show "isl r \<and> simTables w' = simTables w \<or>
      simTables w' = (simTables w)(m := filter (\<lambda>e. ident e \<noteq> i) (simTables w m))"
    by (auto simp: simRun_def menuOf_hit hasPrefix_def)
next
  fix w m args r w'
  assume "m \<in> set managedMenus" and "simRun ((m @ ''/add'') # args) w = (r, w')"
  then have "simAdd m args w = (r, w')" by (simp add: simRun_def menuOf_hit)
  then show "isl r \<and> simTables w' = simTables w \<or>
      (\<exists>e. addedEntry args e \<and> simTables w' =
        (simTables w)(m := placeEntry (placeBeforeOf args) e (simTables w m)))"
    by (drule_tac simAdd_added) auto
next
  fix w m e
  assume "simInv w"
  then show "distinct (map ident (simTables w m))" by (simp add: simInv_def)
  assume "e \<in> set (simTables w m)"
  with \<open>simInv w\<close> show "ident e \<noteq> []" by (force simp: simInv_def simIdent_def)
qed

end
