(* ===== verification/RouterOS_Properties.thy ===== *)
theory RouterOS_Properties
  imports RouterOS_Sim
begin

text \<open>
  The properties of the RouterOS client, for every router that behaves as documented
  (\<open>routeros_device\<close>), with their instances on the executable router of \<open>RouterOS_Sim\<close>.
\<close>

section \<open>Managed comments\<close>

lemma ManagedComment_parts:
  assumes "CHR ''/'' \<notin> set kind" and "CHR ''/'' \<notin> set name" and "CHR ''/'' \<notin> set ns"
    and "managedCommentPrefixMatches v (ManagedComment kind name ns)"
  shows "take 4 (splitOn CHR ''/'' v) = [managedCommentPrefix, kind, ns, name]"
proof -
  have no: "CHR ''/'' \<notin> set managedCommentPrefix" by (simp add: managedCommentPrefix_def)
  have mc: "ManagedComment kind name ns = managedCommentPrefix @ CHR ''/'' # kind @ CHR ''/'' # ns @ CHR ''/'' # name"
    by (simp add: ManagedComment_def managedCommentPrefix_def)
  from assms(4) consider "v = ManagedComment kind name ns"
    | s where "v = ManagedComment kind name ns @ CHR ''/'' # s"
    by (auto simp: managedCommentPrefixMatches_def hasPrefix_def prefix_def)
  then show ?thesis
  proof cases
    case 1
    with no assms(1-3) show ?thesis by (simp add: mc splitOn_append_sep)
  next
    case (2 s)
    with no assms(1-3) show ?thesis by (simp add: mc splitOn_append_sep)
  qed
qed

lemma ManagedComment_managed:
  assumes "managedCommentPrefixMatches v (ManagedComment kind name ns)"
  shows "isManagedComment v"
proof -
  have "hasPrefix (ManagedComment kind name ns) (managedCommentPrefix @ ''/'')"
    by (simp add: ManagedComment_def managedCommentPrefix_def hasPrefix_def)
  then have "hasPrefix v (managedCommentPrefix @ ''/'')"
    using assms unfolding managedCommentPrefixMatches_def hasPrefix_def prefix_def by auto
  then show ?thesis by (simp add: isManagedComment_def)
qed

text \<open>
  Comments identify objects: a comment the operator attributes to the object of one kind,
  namespace and name, exactly or by prefix, is never attributed to another object (Kubernetes
  names have no slash).
\<close>

theorem ManagedComment_disjoint:
  assumes "CHR ''/'' \<notin> set kind" and "CHR ''/'' \<notin> set name" and "CHR ''/'' \<notin> set ns"
    and "CHR ''/'' \<notin> set kind'" and "CHR ''/'' \<notin> set name'" and "CHR ''/'' \<notin> set ns'"
    and "managedCommentPrefixMatches v (ManagedComment kind name ns)"
    and "managedCommentPrefixMatches v (ManagedComment kind' name' ns')"
  shows "kind = kind' \<and> name = name' \<and> ns = ns'"
  using ManagedComment_parts[OF assms(1-3,7)] ManagedComment_parts[OF assms(4-6,8)] by simp

theorem ManagedComment_disjoint_witness:
  "managedCommentPrefixMatches (ManagedComment ''nat'' ''web'' ''prod'' @ ''/dstnat'')
     (ManagedComment ''nat'' ''web'' ''prod'') \<and>
   \<not> managedCommentPrefixMatches (ManagedComment ''nat'' ''web'' ''prod'' @ ''/dstnat'')
     (ManagedComment ''nat'' ''we'' ''prod'')"
proof -
  have m: "managedCommentPrefixMatches (ManagedComment ''nat'' ''web'' ''prod'' @ ''/dstnat'')
     (ManagedComment ''nat'' ''web'' ''prod'')" by simp
  have "\<not> managedCommentPrefixMatches (ManagedComment ''nat'' ''web'' ''prod'' @ ''/dstnat'')
     (ManagedComment ''nat'' ''we'' ''prod'')"
    using ManagedComment_disjoint[of "''nat''" "''web''" "''prod''" "''nat''" "''we''" "''prod''", OF _ _ _ _ _ _ m]
    by auto
  with m show ?thesis by blast
qed

section \<open>Frames\<close>

text \<open>The client operations on the object with a given comment.\<close>

definition objectOperation :: "'w runner \<Rightarrow> string \<Rightarrow> ('w, unit) prog \<Rightarrow> bool" where
  "objectOperation run c op \<longleftrightarrow>
     (\<exists>n a t. op = EnsureDNS run n a t c) \<or> op = DeleteDNS run c \<or>
     (\<exists>f. op = EnsurePortForward run f c) \<or> op = DeletePortForward run c \<or>
     (\<exists>f. op = EnsureFirewallRule run f c) \<or> op = DeleteFirewallRule run c \<or>
     (\<exists>d g k. op = EnsureRouteWithDistance run d g k c) \<or> op = DeleteRoute run c \<or>
     (\<exists>d gs. op = EnsureRoutes run d gs c) \<or> op = DeleteRoutesByPrefix run c"

context routeros_device
begin

lemma objectOperation_untouched:
  assumes "objectOperation run c op"
  shows "keeps (untouched tbl dinv (\<lambda>v. managedCommentPrefixMatches v c)) op"
proof -
  have mono: "keeps (untouched tbl dinv (\<lambda>v. v = c)) m \<Longrightarrow>
      keeps (untouched tbl dinv (\<lambda>v. managedCommentPrefixMatches v c)) m" for m :: "('w, unit) prog"
    by (erule keeps_untouched_mono) simp
  show ?thesis
    using assms unfolding objectOperation_def EnsureRouteWithDistance_def
    by (elim disjE exE; hypsubst)
      (rule EnsurePortForward_untouched DeletePortForward_untouched EnsureFirewallRule_untouched
        DeleteFirewallRule_untouched EnsureRoutes_untouched DeleteRoutesByPrefix_untouched
        mono[OF EnsureDNS_untouched] mono[OF DeleteDNS_untouched] mono[OF ensureRoute_untouched]
        mono[OF DeleteRoute_untouched])+
qed

end


text \<open>A router with one rule of the administrator's own, and the operator's comments.\<close>

definition simAdmin :: simState where
  "simAdmin = \<lparr>simData = [(filterMenu,
       [[(''.id'', ''*0''), (''chain'', ''forward''), (''action'', ''drop''), (''comment'', ''lab'')]])],
     simNext = 1\<rparr>"

definition simRule :: rosFirewallRule where
  "simRule = \<lparr>frChain = ''forward'', frAction = ''accept'', frProtocol = ''tcp'', frSourceAddress = [],
     frDestinationAddress = [], frSourcePort = [], frDestinationPort = ''443'', frInInterface = [],
     frOutInterface = [], frConnectionState = [''new''], frConnectionNatState = [], frLogPrefix = [],
     frPlaceBefore = True\<rparr>"

lemma simInv_admin [simp]: "simInv simAdmin"
proof -
  have "simIdent 0 = ''*0''" by code_simp
  then show ?thesis by (simp add: simInv_def simAdmin_def simTables_def ident_def)
qed

text \<open>A router with a static route of its own and a route of an earlier pass.\<close>

definition simStale :: simState where
  "simStale = \<lparr>simData = [(routeMenu,
       [[(''.id'', ''*0''), (''dst-address'', ''0.0.0.0/0''), (''gateway'', ''10.0.0.254''), (''comment'', [])],
        [(''.id'', ''*1''), (''dst-address'', ''10.9.0.0/16''), (''gateway'', ''10.0.0.1''),
         (''comment'', ''managed-by=mikrotik-operator/route/prod/lan/10.0.0.1'')]])],
     simNext = 2\<rparr>"

lemma simInv_stale [simp]: "simInv simStale"
proof -
  have "simIdent 0 = ''*0''" and "simIdent 1 = ''*1''" by code_simp+
  then show ?thesis by (auto simp: simInv_def simStale_def simTables_def ident_def less_Suc_eq numeral_2_eq_2)
qed


text \<open>
  C14.  Objects do not interfere: an operation for one object leaves every entry of another object
  (another kind, namespace or name) as it is, whether the operation succeeds or fails.
\<close>

theorem other_objects_untouched:
  assumes "routeros_device run tbl dinv" and "dinv w"
    and "CHR ''/'' \<notin> set kind" and "CHR ''/'' \<notin> set name" and "CHR ''/'' \<notin> set ns"
    and "CHR ''/'' \<notin> set kind'" and "CHR ''/'' \<notin> set name'" and "CHR ''/'' \<notin> set ns'"
    and "(kind, name, ns) \<noteq> (kind', name', ns')"
    and "objectOperation run (ManagedComment kind name ns) op" and "op w = (r, w')"
  shows "owned (\<lambda>v. managedCommentPrefixMatches v (ManagedComment kind' name' ns')) (tbl w' m)
       = owned (\<lambda>v. managedCommentPrefixMatches v (ManagedComment kind' name' ns')) (tbl w m)"
proof (rule untouched_owned(1)[OF keepsD[OF routeros_device.objectOperation_untouched[OF assms(1,10)]
      assms(11)] assms(2)])
  fix v
  assume "managedCommentPrefixMatches v (ManagedComment kind' name' ns')"
  with ManagedComment_parts[OF assms(6-8)] ManagedComment_parts[OF assms(3-5)] assms(9)
  show "\<not> managedCommentPrefixMatches v (ManagedComment kind name ns)" by force
qed

theorem other_objects_untouched_witness:
  "owned (\<lambda>v. managedCommentPrefixMatches v (ManagedComment ''route'' ''lan'' ''prod''))
     (simTables (snd (DeleteRoute simRun (ManagedComment ''route'' ''la'' ''prod'') simStale)) routeMenu)
   = owned (\<lambda>v. managedCommentPrefixMatches v (ManagedComment ''route'' ''lan'' ''prod'')) (simTables simStale routeMenu)
   \<and> length (owned (\<lambda>v. managedCommentPrefixMatches v (ManagedComment ''route'' ''lan'' ''prod''))
         (simTables simStale routeMenu)) = 1"
proof (rule conjI)
  let ?c = "ManagedComment ''route'' ''la'' ''prod''"
  have op: "objectOperation simRun ?c (DeleteRoute simRun ?c)" unfolding objectOperation_def by blast
  show "owned (\<lambda>v. managedCommentPrefixMatches v (ManagedComment ''route'' ''lan'' ''prod''))
     (simTables (snd (DeleteRoute simRun ?c simStale)) routeMenu)
   = owned (\<lambda>v. managedCommentPrefixMatches v (ManagedComment ''route'' ''lan'' ''prod'')) (simTables simStale routeMenu)"
    by (rule other_objects_untouched[OF sim.routeros_device_axioms simInv_stale _ _ _ _ _ _ _ op prod.collapse[symmetric]])
      simp_all
  show "length (owned (\<lambda>v. managedCommentPrefixMatches v (ManagedComment ''route'' ''lan'' ''prod''))
         (simTables simStale routeMenu)) = 1"
    by code_simp
qed

section \<open>Convergence\<close>

text \<open>
  A successful \<^verbatim>\<open>EnsureDNS\<close> leaves exactly one entry with the object's comment, with the
  wanted name, address and TTL; any number of further passes leaves the tables as they are.
\<close>

theorem EnsureDNS_converges:
  assumes "routeros_device run tbl dinv" and "dinv w" and "EnsureDNS run n a t c w = (Inr (), w1)"
  shows "dnsPresent n a t c (tbl w1) \<and> tbl (((\<lambda>w. snd (EnsureDNS run n a t c w)) ^^ k) w1) = tbl w1"
  using routeros_device.EnsureDNS_present[OF assms]
    routeros_device.EnsureDNS_passes[OF assms]
  by blast

theorem EnsureDNS_converges_witness:
  "dnsPresent ''app.lab'' ''10.0.0.7'' ''5m'' ''c''
     (simTables (snd (EnsureDNS simRun ''app.lab'' ''10.0.0.7'' ''5m'' ''c'' simEmpty)))"
proof -
  have "fst (EnsureDNS simRun ''app.lab'' ''10.0.0.7'' ''5m'' ''c'' simEmpty) = Inr ()" by code_simp
  then show ?thesis
    using EnsureDNS_converges[OF sim.routeros_device_axioms simInv_empty,
        of "''app.lab''" "''10.0.0.7''" "''5m''" "''c''"] by (metis prod.collapse)
qed

text \<open>
  A successful \<^verbatim>\<open>EnsurePortForward\<close> leaves exactly the two NAT rules of the object, the
  destination NAT and the masquerade, with the wanted contents; further passes change nothing.
\<close>

theorem EnsurePortForward_converges:
  assumes "routeros_device run tbl dinv" and "dinv w" and "EnsurePortForward run f c w = (Inr (), w1)"
  shows "portForwardPresent f c (tbl w1) \<and>
    tbl (((\<lambda>w. snd (EnsurePortForward run f c w)) ^^ k) w1) = tbl w1"
  using routeros_device.EnsurePortForward_present[OF assms]
    routeros_device.EnsurePortForward_passes[OF assms]
  by blast

definition simForward :: rosPortForward where
  "simForward = \<lparr>rpProtocol = ''tcp'', rpExternalPort = 8443, rpTarget = ''10.1.2.3'',
     rpTargetPort = 443, rpPublicIP = ''203.0.113.9''\<rparr>"

theorem EnsurePortForward_converges_witness:
  "portForwardPresent simForward ''c'' (simTables (snd (EnsurePortForward simRun simForward ''c'' simEmpty)))"
proof -
  have "fst (EnsurePortForward simRun simForward ''c'' simEmpty) = Inr ()" by code_simp
  then show ?thesis
    using EnsurePortForward_converges[OF sim.routeros_device_axioms simInv_empty, of simForward "''c''"]
    by (metis prod.collapse)
qed

text \<open>
  C15.  A successful \<^verbatim>\<open>EnsureFirewallRule\<close> leaves exactly one rule with the object's comment, it
  matches the wanted rule and, with \<^verbatim>\<open>PlaceBefore\<close>, stands in its chain before every rule the
  operator does not manage; further passes change nothing.
\<close>

theorem EnsureFirewallRule_converges:
  assumes "routeros_device run tbl dinv" and "dinv w" and "frPlaceBefore rule \<longrightarrow> frChain rule \<noteq> []"
    and "EnsureFirewallRule run rule c w = (Inr (), w1)"
  shows "firewallPresent rule c (tbl w1) \<and>
    tbl (((\<lambda>w. snd (EnsureFirewallRule run rule c w)) ^^ k) w1) = tbl w1"
proof -
  have fw: "firewall_object run tbl dinv rule"
    using assms(1,3) by (simp add: firewall_object_def firewall_object_axioms_def)
  show ?thesis
    using routeros_device.EnsureFirewallRule_present[OF assms]
      firewall_object.EnsureFirewallRule_passes[OF fw assms(2,4)]
    by blast
qed

interpretation simfw: firewall_object simRun simTables simInv simRule
  by unfold_locales (simp add: simRule_def)

theorem EnsureFirewallRule_converges_witness:
  "firewallPresent simRule ''c'' (simTables (snd (EnsureFirewallRule simRun simRule ''c'' simAdmin)))"
proof -
  have "fst (EnsureFirewallRule simRun simRule ''c'' simAdmin) = Inr ()" by code_simp
  then show ?thesis
    using EnsureFirewallRule_converges[OF sim.routeros_device_axioms simInv_admin simfw.chain_set, of "''c''"]
    by (metis prod.collapse)
qed

text \<open>
  A successful \<^verbatim>\<open>EnsureRoutes\<close> leaves, under the object's prefix, exactly one route per
  wanted gateway and no other route.
\<close>

theorem EnsureRoutes_exact:
  assumes "routeros_device run tbl dinv" and "dinv w" and "EnsureRoutes run d gs pre w = (Inr (), w')"
  shows "routesPresent d gs pre (tbl w')"
  by (rule routeros_device.EnsureRoutes_present[OF assms])

theorem EnsureRoutes_exact_witness:
  "routesPresent ''10.9.0.0/16'' [''10.0.0.2'', ''10.0.0.3''] (ManagedComment ''route'' ''lan'' ''prod'')
     (simTables (snd (EnsureRoutes simRun ''10.9.0.0/16'' [''10.0.0.2'', ''10.0.0.3'']
       (ManagedComment ''route'' ''lan'' ''prod'') simStale)))"
proof -
  have "fst (EnsureRoutes simRun ''10.9.0.0/16'' [''10.0.0.2'', ''10.0.0.3'']
      (ManagedComment ''route'' ''lan'' ''prod'') simStale) = Inr ()" by code_simp
  then show ?thesis
    using EnsureRoutes_exact[OF sim.routeros_device_axioms simInv_stale,
        of "''10.9.0.0/16''" "[''10.0.0.2'', ''10.0.0.3'']" "ManagedComment ''route'' ''lan'' ''prod''"]
    by (metis prod.collapse)
qed

text \<open>
  The sweep of a removed endpoint, \<^verbatim>\<open>DeleteManagedConfiguration\<close>: when it succeeds, every
  managed entry of the four tables is gone, and nothing else is.
\<close>

theorem DeleteManagedConfiguration_exact:
  assumes "routeros_device run tbl dinv" and "dinv w" and "DeleteManagedConfiguration run w = (Inr (), w')"
  shows "tbl w' = (\<lambda>m. if m \<in> set managedMenus
    then filter (\<lambda>e. \<not> isManagedComment (commentOf e)) (tbl w m) else tbl w m)"
  by (rule routeros_device.DeleteManagedConfiguration_sweeps[OF assms])

theorem DeleteManagedConfiguration_exact_witness:
  "map commentOf (simTables (snd (DeleteManagedConfiguration simRun simStale)) routeMenu) = [[]] \<and>
   simTables (snd (DeleteManagedConfiguration simRun simStale)) routeMenu
     = filter (\<lambda>e. \<not> isManagedComment (commentOf e)) (simTables simStale routeMenu)"
proof (rule conjI)
  show "map commentOf (simTables (snd (DeleteManagedConfiguration simRun simStale)) routeMenu) = [[]]"
    by code_simp
  have "fst (DeleteManagedConfiguration simRun simStale) = Inr ()" by code_simp
  then have "DeleteManagedConfiguration simRun simStale = (Inr (), snd (DeleteManagedConfiguration simRun simStale))"
    by (metis prod.collapse)
  from DeleteManagedConfiguration_exact[OF sim.routeros_device_axioms simInv_stale this]
  show "simTables (snd (DeleteManagedConfiguration simRun simStale)) routeMenu
     = filter (\<lambda>e. \<not> isManagedComment (commentOf e)) (simTables simStale routeMenu)"
    by simp
qed

text \<open>
  \<^verbatim>\<open>runRouterOSOperation\<close> reports success exactly when the operation, its context, the
  interrupt and the reset of the deadline all did; whenever one failed the error is one of
  theirs, wrapped.
\<close>

theorem runRouterOSOperation_nil_iff:
  "runRouterOSOperation operationErr contextErr interruptErr resetErr = None \<longleftrightarrow>
     operationErr = None \<and> contextErr = None \<and> interruptErr = None \<and> resetErr = None"
  by (auto simp: runRouterOSOperation_def errorsJoin_def Let_def split: option.splits)

end
