(* ===== verification/RouterOS_Export.thy ===== *)
theory RouterOS_Export
  imports RouterOS_Client
begin

text \<open>
  Export and restore of a router's configuration, \<^verbatim>\<open>internal/routeros/export.go\<close>: reading the
  \<^verbatim>\<open>/export\<close> reply, cutting a restore script into statements and the statements into chunks
  that fit the RouterOS file size limit, and importing the chunks through a file on the router.
\<close>

abbreviation newline :: string where "newline \<equiv> [CHR 0x0A]"

definition restoreFileName :: string where
  "restoreFileName = ''mikrotik-operator-restore.rsc''"

definition maxRestoreFileContentsBytes :: int where
  "maxRestoreFileContentsBytes = 4095"

definition ensureTrailingNewline :: "string \<Rightarrow> string" where
  "ensureTrailingNewline value = (if hasSuffix value newline then value else value @ newline)"

section \<open>Export\<close>

definition exportArgs :: "bool \<Rightarrow> bool \<Rightarrow> string list" where
  "exportArgs compact showSensitive =
     [''/export''] @ (if compact then [''=compact=''] else [])
       @ (if showSensitive then [''=show-sensitive=''] else [])"

fun firstVersion :: "strmap option list \<Rightarrow> string" where
  "firstVersion [] = []"
| "firstVersion (None # re) = firstVersion re"
| "firstVersion (Some m # re) =
     (let version = trimSpace (mget m ''version'') in if version \<noteq> [] then version else firstVersion re)"

definition resourceVersion :: "reply option \<Rightarrow> string" where
  "resourceVersion r =
     (case r of
        None \<Rightarrow> []
      | Some rep \<Rightarrow>
          (let version = firstVersion (Re rep) in
           if version \<noteq> [] then version
           else case Done rep of Some m \<Rightarrow> trimSpace (mget m ''version'') | None \<Rightarrow> []))"

text \<open>\<^verbatim>\<open>strconv.Atoi\<close> on digits: an error beyond the 64-bit range.\<close>

definition atoiDigits :: "string \<Rightarrow> int option" where
  "atoiDigits s = (if decimal s \<le> 9223372036854775807 then Some (int (decimal s)) else None)"

definition routerOSMajorVersion :: "string \<Rightarrow> int" where
  "routerOSMajorVersion version =
     (let version = trimSpace version; digits = takeWhile isDigit version in
      if version = [] then 0
      else if digits = [] then 0
      else case atoiDigits digits of None \<Rightarrow> 0 | Some major \<Rightarrow> major)"

definition exportShowSensitive :: "'w runner \<Rightarrow> ('w, bool) prog" where
  "exportShowSensitive run =
     tryE (run [''/system/resource/print'', ''=.proplist=version'']) (\<lambda>r.
       case r of
         Inl e \<Rightarrow> returnE False
       | Inr reply \<Rightarrow> returnE (routerOSMajorVersion (resourceVersion reply) \<ge> 7))"

definition exportKeys :: "strmap \<Rightarrow> string list" where
  "exportKeys m =
     sort (filter (\<lambda>key. key \<noteq> [] \<and> key \<noteq> ''.id'' \<and> mget m key \<noteq> []) (firstOccs {} (map fst m)))"

definition exportSentence :: "strmap \<Rightarrow> string" where
  "exportSentence m =
     (let script = mget m ''script'' in
      if script \<noteq> [] then ensureTrailingNewline script
      else concat (map (\<lambda>key. ensureTrailingNewline (mget m key)) (exportKeys m)))"

definition exportText :: "reply option \<Rightarrow> string" where
  "exportText r =
     (case r of
        None \<Rightarrow> []
      | Some rep \<Rightarrow>
          (let ret = (case Done rep of None \<Rightarrow> [] | Some m \<Rightarrow> trimSpace (mget m ''ret'')) in
           if ret \<noteq> [] then ensureTrailingNewline ret
           else concat (map (\<lambda>s. case s of None \<Rightarrow> [] | Some m \<Rightarrow> exportSentence m) (Re rep))))"

fun exportFrom :: "'w runner \<Rightarrow> bool \<Rightarrow> goerr option \<Rightarrow> bool list \<Rightarrow> ('w, string) prog" where
  "exportFrom run showSensitive lastErr [] =
     (case lastErr of
        Some e \<Rightarrow> failE (wrapErr ''export RouterOS configuration: '' e)
      | None \<Rightarrow> failE (Opaque ''export RouterOS configuration: empty export''))"
| "exportFrom run showSensitive lastErr (compact # rest) =
     tryE (run (exportArgs compact showSensitive)) (\<lambda>r.
       case r of
         Inl e \<Rightarrow> exportFrom run showSensitive (Some e) rest
       | Inr reply \<Rightarrow>
           (let text = exportText reply in
            if trimSpace text = [] then exportFrom run showSensitive lastErr rest
            else returnE text))"

definition Export :: "'w runner \<Rightarrow> ('w, string) prog" where
  "Export run =
     bindE (exportShowSensitive run) (\<lambda>showSensitive.
       exportFrom run showSensitive None [True, False])"

section \<open>Statements of a restore script\<close>

text \<open>The open quote of a scanner state is a byte, 0 when no quote is open.\<close>

abbreviation noQuote :: char where "noQuote \<equiv> CHR 0x00"

fun scanFrom :: "bool \<Rightarrow> string \<Rightarrow> char \<Rightarrow> nat \<Rightarrow> char \<times> nat" where
  "scanFrom escaped [] quote braceDepth = (quote, braceDepth)"
| "scanFrom escaped (c # line) quote braceDepth =
     (if escaped then scanFrom False line quote braceDepth
      else if c = CHR 0x5C then scanFrom True line quote braceDepth
      else if quote \<noteq> noQuote
      then scanFrom False line (if c = quote then noQuote else quote) braceDepth
      else if c = CHR 0x22 \<or> c = CHR 0x27 then scanFrom False line c braceDepth
      else if c = CHR ''{'' then scanFrom False line quote (braceDepth + 1)
      else if c = CHR ''}'' then scanFrom False line quote (if braceDepth > 0 then braceDepth - 1 else braceDepth)
      else scanFrom False line quote braceDepth)"

definition scanRestoreLine :: "string \<Rightarrow> char \<Rightarrow> nat \<Rightarrow> char \<times> nat" where
  "scanRestoreLine line quote braceDepth = scanFrom False line quote braceDepth"

text \<open>\<^verbatim>\<open>strings.ReplaceAll\<close> of CR LF, then of CR, by LF.\<close>

fun replaceCRLF :: "string \<Rightarrow> string" where
  "replaceCRLF [] = []"
| "replaceCRLF [c] = [c]"
| "replaceCRLF (c # d # s) =
     (if c = CHR 0x0D \<and> d = CHR 0x0A then CHR 0x0A # replaceCRLF s else c # replaceCRLF (d # s))"

definition normalizeLines :: "string \<Rightarrow> string" where
  "normalizeLines script = map (\<lambda>c. if c = CHR 0x0D then CHR 0x0A else c) (replaceCRLF script)"

definition lineContinued :: "string \<Rightarrow> bool" where
  "lineContinued line = hasSuffix (trimRightSet [CHR '' '', CHR 0x09] line) [CHR 0x5C]"

fun statementsFrom ::
  "string list \<Rightarrow> string \<Rightarrow> char \<Rightarrow> nat \<Rightarrow> string list \<Rightarrow> goerr + string list" where
  "statementsFrom statements current quote braceDepth [] =
     (if quote \<noteq> noQuote \<or> braceDepth > 0
      then Inl (Opaque ''unterminated restore script statement'')
      else if trimSpace current \<noteq> [] then Inr (statements @ [current]) else Inr statements)"
| "statementsFrom statements current quote braceDepth (line # lines) =
     (let current = (if current \<noteq> [] then current @ newline else current) @ line;
          (quote, braceDepth) = scanRestoreLine line quote braceDepth;
          continued = (quote = noQuote \<and> lineContinued line)
      in if quote \<noteq> noQuote \<or> braceDepth > 0 \<or> continued
         then statementsFrom statements current quote braceDepth lines
         else if trimSpace current = [] then statementsFrom statements [] quote braceDepth lines
         else statementsFrom (statements @ [current]) [] quote braceDepth lines)"

definition restoreStatements :: "string \<Rightarrow> goerr + string list" where
  "restoreStatements script =
     statementsFrom [] [] noQuote 0 (splitOn CHR 0x0A (normalizeLines script))"

section \<open>Chunks\<close>

definition firstRestoreLine :: "string \<Rightarrow> string" where
  "firstRestoreLine stmt = takeWhile (\<lambda>c. c \<noteq> CHR 0x0A) stmt"

definition tokenIsRestoreVerb :: "string \<Rightarrow> bool" where
  "tokenIsRestoreVerb token \<longleftrightarrow>
     token \<in> set [''add'', ''set'', ''remove'', ''move'', ''enable'', ''disable'', ''comment'',
                  ''reset'', ''print'']"

definition restoreLineVerb :: "string \<Rightarrow> string" where
  "restoreLineVerb line =
     (case stringFields line of
        [] \<Rightarrow> []
      | f # fs \<Rightarrow>
          (let parts = splitOn CHR ''/'' (trimSet [CHR ''/''] f) in
           if tokenIsRestoreVerb (last parts) then last parts
           else case find tokenIsRestoreVerb fs of Some field \<Rightarrow> field | None \<Rightarrow> []))"

definition restorePathLine :: "string \<Rightarrow> bool" where
  "restorePathLine stmt =
     (let line = trimSpace (firstRestoreLine stmt) in
      if \<not> hasPrefix line ''/'' then False else restoreLineVerb line = [])"

definition restoreCommentLine :: "string \<Rightarrow> bool" where
  "restoreCommentLine stmt = hasPrefix (trimSpace stmt) ''#''"

text \<open>
  One turn of the loop: the path after the statement and the text it adds to the chunk.  The
  loop re-enters a statement after a flush (\<^verbatim>\<open>i--\<close>); the flushed chunk is empty then, so the
  statement is either written or refused.
\<close>

definition pathAfter :: "string \<Rightarrow> string \<Rightarrow> string" where
  "pathAfter currentPath stmt =
     (if restorePathLine stmt then trimSpace (firstRestoreLine stmt) else currentPath)"

definition chunkAddition :: "string \<Rightarrow> bool \<Rightarrow> string \<Rightarrow> string" where
  "chunkAddition currentPath chunkHasPath stmt =
     (let piece = ensureTrailingNewline stmt in
      if \<not> chunkHasPath \<and> currentPath \<noteq> [] \<and> \<not> restorePathLine stmt \<and> \<not> restoreCommentLine stmt
      then ensureTrailingNewline currentPath @ piece
      else piece)"

function splitFrom ::
  "int \<Rightarrow> string list \<Rightarrow> string \<Rightarrow> string \<Rightarrow> bool \<Rightarrow> string list \<Rightarrow> goerr + string list" where
  "splitFrom maxBytes chunks current currentPath chunkHasPath [] =
     (let chunks = (if current = [] then chunks else chunks @ [ensureTrailingNewline current]) in
      if chunks = [] then Inl (Opaque ''empty script'') else Inr chunks)"
| "splitFrom maxBytes chunks current currentPath chunkHasPath (stmt # statements) =
     (let path = pathAfter currentPath stmt; addition = chunkAddition path chunkHasPath stmt in
      if int (length addition) > maxBytes
      then Inl (Opaque (''restore statement exceeds '' @ itoa maxBytes
                        @ ''-byte RouterOS file contents limit''))
      else if int (length current) + int (length addition) > maxBytes
      then splitFrom maxBytes (chunks @ [ensureTrailingNewline current]) [] path False (stmt # statements)
      else splitFrom maxBytes chunks (current @ addition) path
             (chunkHasPath \<or> restorePathLine stmt \<or> path \<noteq> [] \<and> \<not> restoreCommentLine stmt) statements)"
  by pat_completeness auto
termination
  by (relation "inv_image (less_than <*lex*> less_than)
        (\<lambda>(maxBytes, chunks, current, path, has, stmts). (length stmts, if current = [] then 0 else 1))")
    (auto simp: Let_def)

definition splitRestoreScript :: "string \<Rightarrow> int \<Rightarrow> goerr + string list" where
  "splitRestoreScript script maxBytes =
     (if maxBytes \<le> 0 then Inl (Opaque ''restore chunk size must be positive'')
      else case restoreStatements script of
             Inl e \<Rightarrow> Inl e
           | Inr statements \<Rightarrow> splitFrom maxBytes [] [] [] False statements)"

section \<open>Import\<close>

definition restoreFileNames :: "string list" where
  "restoreFileNames = [restoreFileName, restoreFileName @ ''.txt'']"

definition restoreFileNameMatch :: "string \<Rightarrow> bool" where
  "restoreFileNameMatch name \<longleftrightarrow> name \<in> set restoreFileNames"

fun identityFrom :: "strmap option list \<Rightarrow> string \<times> string" where
  "identityFrom [] = ([], [])"
| "identityFrom (None # re) = identityFrom re"
| "identityFrom (Some m # re) =
     (if \<not> restoreFileNameMatch (mget m ''name'') then identityFrom re
      else if mget m ''.id'' = [] then identityFrom re
      else (mget m ''.id'', mget m ''name''))"

definition fileIdentity :: "reply option \<Rightarrow> string \<times> string" where
  "fileIdentity r = (case r of None \<Rightarrow> ([], []) | Some rep \<Rightarrow> identityFrom (Re rep))"

fun lookupFrom :: "'w runner \<Rightarrow> string list \<Rightarrow> ('w, string \<times> string) prog" where
  "lookupFrom run [] = failE (Opaque (''lookup restore file: '' @ restoreFileName @ '' not found''))"
| "lookupFrom run (candidate # rest) =
     tryE (run [''/file/print'', ''=.proplist=.id,name'', ''?name='' @ candidate]) (\<lambda>r.
       case r of
         Inl e \<Rightarrow> failE (wrapErr ''lookup restore file: '' e)
       | Inr reply \<Rightarrow>
           (if fst (fileIdentity reply) \<noteq> [] then returnE (fileIdentity reply)
            else lookupFrom run rest))"

definition lookupRestoreFile :: "'w runner \<Rightarrow> ('w, string \<times> string) prog" where
  "lookupRestoreFile run = lookupFrom run restoreFileNames"

definition removeFileByName :: "'w runner \<Rightarrow> string \<Rightarrow> ('w, unit) prog" where
  "removeFileByName run name =
     bindE (run [''/file/print'', ''=.proplist=.id,name'', ''?name='' @ name]) (\<lambda>reply.
       case reply of
         None \<Rightarrow> returnE ()
       | Some rep \<Rightarrow>
           forE (\<lambda>sentence.
             case sentence of
               None \<Rightarrow> returnE ()
             | Some m \<Rightarrow>
                 (if mget m ''.id'' = [] then returnE ()
                  else bindE (run [''/file/remove'', ''=.id='' @ mget m ''.id'']) (\<lambda>_. returnE ())))
             (Re rep))"

text \<open>\<^verbatim>\<open>fmt.Errorf\<close> around the error of a call.\<close>

definition wrapE :: "string \<Rightarrow> ('w, 'a) prog \<Rightarrow> ('w, 'a) prog" where
  "wrapE pre m = tryE m (\<lambda>r. case r of Inl e \<Rightarrow> failE (wrapErr pre e) | Inr x \<Rightarrow> returnE x)"

fun importChunks :: "'w runner \<Rightarrow> string \<Rightarrow> string \<Rightarrow> nat \<Rightarrow> string list \<Rightarrow> ('w, unit) prog" where
  "importChunks run fileID fileName i [] = returnE ()"
| "importChunks run fileID fileName i (chunk # chunks) =
     bindE (wrapE (''write restore file chunk '' @ itoa (int i + 1) @ '': '')
              (run [''/file/set'', ''=.id='' @ fileID, ''=contents='' @ chunk])) (\<lambda>_.
       bindE (wrapE (''run /import chunk '' @ itoa (int i + 1) @ '': '')
                (run [''/import'', ''=file-name='' @ fileName])) (\<lambda>_.
         importChunks run fileID fileName (i + 1) chunks))"

definition importOutcome :: "goerr + unit \<Rightarrow> goerr + unit \<Rightarrow> ('w, unit) prog" where
  "importOutcome imported removed =
     (case imported of
        Inl importErr \<Rightarrow>
          (case removed of
             Inl removeErr \<Rightarrow>
               failE (Wrapped (errorText importErr @ ''; remove restore file: ''
                               @ errorText removeErr) [importErr])
           | Inr _ \<Rightarrow> failE importErr)
      | Inr _ \<Rightarrow>
          (case removed of
             Inl removeErr \<Rightarrow> failE (wrapErr ''remove restore file: '' removeErr)
           | Inr _ \<Rightarrow> returnE ()))"

definition importViaFile :: "'w runner \<Rightarrow> string \<Rightarrow> ('w, unit) prog" where
  "importViaFile run script =
     bindE (forE (\<lambda>name. wrapE (''remove leftover restore file '' @ goQuote name @ '': '')
                         (removeFileByName run name)) restoreFileNames) (\<lambda>_.
       case splitRestoreScript script maxRestoreFileContentsBytes of
         Inl e \<Rightarrow> failE e
       | Inr chunks \<Rightarrow>
           bindE (wrapE ''create restore file: '' (run [''/file/print'', ''=file='' @ restoreFileName])) (\<lambda>createReply.
             bindE (if fst (fileIdentity createReply) = [] then lookupRestoreFile run
                    else returnE (fileIdentity createReply)) (\<lambda>(fileID, fileName).
               tryE (importChunks run fileID fileName 0 chunks) (\<lambda>imported.
                 tryE (removeFileByName run fileName) (\<lambda>removed.
                   importOutcome imported removed)))))"

definition Import :: "'w runner \<Rightarrow> string \<Rightarrow> ('w, unit) prog" where
  "Import run script =
     (if trimSpace script = [] then failE (Opaque ''import RouterOS configuration: empty script'')
      else wrapE ''import RouterOS configuration: '' (importViaFile run script))"

end
