(* ===== verification/RouterOS_Restore.thy ===== *)
theory RouterOS_Restore
  imports RouterOS_Export
begin

text \<open>
  Properties of export and restore: the statements of a script are its text, the chunks fit the
  limit, each chunk runs its commands in the menu the script runs them in, and an import sends
  the chunks in order.
\<close>

section \<open>Trailing newlines\<close>

lemma ensureTrailingNewline_nonempty [simp]: "ensureTrailingNewline s \<noteq> []"
  by (auto simp: ensureTrailingNewline_def hasSuffix_def)

lemma ensureTrailingNewline_ends [simp]: "hasSuffix (ensureTrailingNewline s) newline"
  by (simp add: ensureTrailingNewline_def hasSuffix_def)

lemma ensureTrailingNewline_append [simp]:
  "ensureTrailingNewline (a @ ensureTrailingNewline s) = a @ ensureTrailingNewline s"
proof -
  have "hasSuffix (a @ ensureTrailingNewline s) newline"
    using ensureTrailingNewline_ends[of s] by (simp add: hasSuffix_def suffix_appendI)
  then show ?thesis by (simp add: ensureTrailingNewline_def[of "a @ ensureTrailingNewline s"])
qed

section \<open>Statements\<close>

text \<open>Between statements no quote or brace is open; a statement in progress has text.\<close>

definition scanState :: "string \<Rightarrow> char \<Rightarrow> nat \<Rightarrow> bool" where
  "scanState current quote braceDepth \<longleftrightarrow> (current = [] \<longrightarrow> quote = noQuote \<and> braceDepth = 0)"

lemma joinWith_head:
  "joinWith sep ((a @ sep @ l) # ls) = joinWith sep (a # l # ls)"
  by (cases ls) simp_all

lemma scanRestoreLine_Nil [simp]: "scanRestoreLine [] q d = (q, d)"
  by (simp add: scanRestoreLine_def)

lemma lineContinued_Nil [simp]: "\<not> lineContinued []"
  by (simp add: lineContinued_def trimRightSet_def hasSuffix_def)

lemma statementsFrom_lossless:
  assumes "statementsFrom stmts current quote depth lines = Inr out" and "scanState current quote depth"
    and "lines \<noteq> []"
  shows "\<exists>raw. raw \<noteq> [] \<and>
    joinWith newline raw = joinWith newline (if current = [] then lines else current # lines) \<and>
    out = stmts @ filter (\<lambda>s. trimSpace s \<noteq> []) raw"
  using assms
proof (induction lines arbitrary: stmts current quote depth)
  case (Cons line lines)
  let ?cur = "(if current \<noteq> [] then current @ newline else current) @ line"
  obtain q d where scan: "scanRestoreLine line quote depth = (q, d)" by force
  let ?open = "q \<noteq> noQuote \<or> d > 0 \<or> q = noQuote \<and> lineContinued line"
  have same: "joinWith newline (if current = [] then line # lines else current # line # lines)
      = joinWith newline (?cur # lines)"
    using joinWith_head[of newline current line lines] by auto
  show ?case
  proof (cases ?open)
    case True
    with Cons.prems(1) scan have rest: "statementsFrom stmts ?cur q d lines = Inr out"
      by (auto simp: Let_def)
    have cur: "?cur \<noteq> []"
    proof
      assume "?cur = []"
      then have "current = []" "line = []" by (auto split: if_splits)
      with True scan Cons.prems(2) show False by (auto simp: scanState_def)
    qed
    show ?thesis
    proof (cases lines)
      case Nil
      with rest have "out = stmts @ filter (\<lambda>s. trimSpace s \<noteq> []) [?cur]"
        by (simp split: if_splits)
      with Nil same show ?thesis by (intro exI[of _ "[?cur]"]) auto
    next
      case (Cons l ls)
      then have "lines \<noteq> []" by simp
      from Cons.IH[OF rest _ this] cur show ?thesis
        unfolding same scanState_def if_not_P[OF cur] by blast
    qed
  next
    case False
    define new where "new = filter (\<lambda>s. trimSpace s \<noteq> []) [?cur]"
    from False Cons.prems(1) scan have rest: "statementsFrom (stmts @ new) [] q d lines = Inr out"
      by (auto simp: Let_def new_def split: if_splits)
    show ?thesis
    proof (cases lines)
      case Nil
      with rest False have "out = stmts @ new" by (simp split: if_splits)
      with Nil same show ?thesis unfolding new_def by (intro exI[of _ "[?cur]"]) auto
    next
      case (Cons l ls)
      with Cons.IH[OF rest] False obtain raw where raw: "raw \<noteq> []"
        "joinWith newline raw = joinWith newline lines" "out = (stmts @ new) @ filter (\<lambda>s. trimSpace s \<noteq> []) raw"
        by (auto simp: scanState_def)
      then show ?thesis using same Cons unfolding new_def
        by (intro exI[of _ "?cur # raw"]) (auto simp: joinWith_Cons)
    qed
  qed
qed simp

text \<open>
  C19.  Cutting a script into statements loses nothing but blank statements: the statements are
  the non-blank ones of a list whose lines are, joined again, the script with normalised line
  ends.
\<close>

theorem restoreStatements_lossless:
  assumes "restoreStatements script = Inr statements"
  shows "\<exists>raw. joinWith newline raw = normalizeLines script \<and>
    statements = filter (\<lambda>s. trimSpace s \<noteq> []) raw"
  using statementsFrom_lossless[OF assms[unfolded restoreStatements_def]]
  by (auto simp: scanState_def joinWith_splitOn)

definition sampleScript :: string where
  "sampleScript = ''/ip address'' @ newline @ ''add address=10.0.0.1/24 comment={'' @ newline
     @ ''two lines}'' @ [CHR 0x0D, CHR 0x0A] @ newline @ ''add address=10.0.1.1/24''"

theorem restoreStatements_lossless_witness:
  "\<exists>statements. restoreStatements sampleScript = Inr statements \<and> length statements = 3 \<and>
     (\<exists>raw. joinWith newline raw = normalizeLines sampleScript \<and>
        statements = filter (\<lambda>s. trimSpace s \<noteq> []) raw)"
proof -
  let ?s = "[''/ip address'', ''add address=10.0.0.1/24 comment={'' @ newline @ ''two lines}'',
    ''add address=10.0.1.1/24'']"
  have "restoreStatements sampleScript = Inr ?s" by code_simp
  with restoreStatements_lossless[OF this] show ?thesis by (intro exI[of _ ?s]) simp
qed

section \<open>Chunks\<close>

lemma chunkAddition_shape:
  obtains a where "chunkAddition p h s = a @ ensureTrailingNewline s"
  by (cases "\<not> h \<and> p \<noteq> [] \<and> \<not> restorePathLine s \<and> \<not> restoreCommentLine s")
    (auto simp: chunkAddition_def Let_def intro: that[of "[]"] that[of "ensureTrailingNewline p"])

definition goodChunk :: "int \<Rightarrow> string \<Rightarrow> bool" where
  "goodChunk maxBytes c \<longleftrightarrow> c \<noteq> [] \<and> int (length c) \<le> maxBytes \<and> hasSuffix c newline"

lemma splitFrom_bounds:
  assumes "splitFrom n chunks current path has stmts = Inr out"
    and "\<forall>c\<in>set chunks. goodChunk n c" and "current = [] \<or> goodChunk n current"
  shows "out \<noteq> [] \<and> (\<forall>c\<in>set out. goodChunk n c)"
  using assms
proof (induction n chunks current path has stmts rule: splitFrom.induct)
  case (1 n chunks current path has)
  then show ?case by (auto simp: Let_def goodChunk_def ensureTrailingNewline_def split: if_splits)
next
  case (2 n chunks current path has stmt stmts)
  let ?p = "pathAfter path stmt"
  let ?a = "chunkAddition ?p has stmt"
  have keep: "goodChunk n current \<Longrightarrow> ensureTrailingNewline current = current"
    by (simp add: goodChunk_def ensureTrailingNewline_def)
  from "2.prems"(1) have fits: "int (length ?a) \<le> n" by (auto simp: Let_def split: if_splits)
  obtain b where b: "?a = b @ ensureTrailingNewline stmt" by (rule chunkAddition_shape)
  show ?case
  proof (cases "int (length current) + int (length ?a) > n")
    case True
    with fits have "current \<noteq> []" by auto
    with "2.prems"(2,3) keep have "\<forall>c\<in>set (chunks @ [ensureTrailingNewline current]). goodChunk n c" by auto
    with "2.IH"(1)[OF refl refl] True fits "2.prems"(1) show ?thesis by (simp add: Let_def)
  next
    case False
    have "goodChunk n (current @ ?a)"
      using False b ensureTrailingNewline_ends[of stmt]
      by (auto simp: goodChunk_def hasSuffix_def suffix_appendI)
    with "2.IH"(2)[OF refl refl] False fits "2.prems"(1,2) show ?thesis by (simp add: Let_def)
  qed
qed

text \<open>
  C20.  Every chunk of a split script fits the byte limit, is not empty and ends with a newline,
  and there is at least one.
\<close>

theorem splitRestoreScript_bounds:
  assumes "splitRestoreScript script maxBytes = Inr chunks"
  shows "chunks \<noteq> [] \<and>
    (\<forall>c\<in>set chunks. c \<noteq> [] \<and> int (length c) \<le> maxBytes \<and> hasSuffix c newline)"
  using assms splitFrom_bounds[of maxBytes "[]" "[]" "[]" False]
  by (auto simp: splitRestoreScript_def goodChunk_def split: if_splits sum.splits)

text \<open>A script of two commands, split at 48 bytes.\<close>

definition sampleChunks :: "string list" where
  "sampleChunks = [''/ip address'' @ newline @ ''add address=10.0.0.1/24'' @ newline,
                   ''/ip address'' @ newline @ ''add address=10.0.1.1/24'' @ newline]"

lemma sampleChunks_eq:
  "splitRestoreScript (''/ip address'' @ newline @ ''add address=10.0.0.1/24'' @ newline
     @ ''add address=10.0.1.1/24'') 48 = Inr sampleChunks"
  by code_simp

theorem splitRestoreScript_bounds_witness:
  "list_all (\<lambda>c. c \<noteq> [] \<and> int (length c) \<le> 48 \<and> hasSuffix c newline) sampleChunks"
  using splitRestoreScript_bounds[OF sampleChunks_eq] by (simp add: list_all_iff)

section \<open>Menus\<close>

text \<open>
  What a list of statements makes the router execute, from a given menu: a path statement changes
  the menu, comments do nothing, every other statement is a command run in the current menu.
\<close>

fun commandsOf :: "string \<Rightarrow> string list \<Rightarrow> (string \<times> string) list" where
  "commandsOf path [] = []"
| "commandsOf path (s # ss) =
     (if restorePathLine s then commandsOf (trimSpace (firstRestoreLine s)) ss
      else if restoreCommentLine s then commandsOf path ss
      else (path, s) # commandsOf path ss)"

definition menuAfter :: "string \<Rightarrow> string list \<Rightarrow> string" where
  "menuAfter path ss = foldl pathAfter path ss"

definition render :: "string list \<Rightarrow> string" where
  "render ss = concat (map ensureTrailingNewline ss)"

lemma commandsOf_append: "commandsOf p (ss @ ts) = commandsOf p ss @ commandsOf (menuAfter p ss) ts"
  by (induction ss arbitrary: p) (auto simp: menuAfter_def pathAfter_def)

lemma menuAfter_append [simp]: "menuAfter p (ss @ ts) = menuAfter (menuAfter p ss) ts"
  by (simp add: menuAfter_def)

lemma menuAfter_Nil [simp]: "menuAfter p [] = p"
  by (simp add: menuAfter_def)

lemma menuAfter_Cons [simp]: "menuAfter p (s # ss) = menuAfter (pathAfter p s) ss"
  by (simp add: menuAfter_def)

lemma render_append [simp]: "render (ss @ ts) = render ss @ render ts"
  by (simp add: render_def)

lemma render_simps [simp]: "render [] = []" "render (s # ss) = ensureTrailingNewline s @ render ss"
  by (simp_all add: render_def)

lemma render_Nil_iff [simp]: "render ss = [] \<longleftrightarrow> ss = []"
  by (cases ss) simp_all

lemma render_ends: "ss \<noteq> [] \<Longrightarrow> ensureTrailingNewline (render ss) = render ss"
  by (induction ss rule: rev_induct) simp_all

text \<open>A menu the splitter remembers can stand as a statement of its own.\<close>

definition isMenu :: "string \<Rightarrow> bool" where
  "isMenu p \<longleftrightarrow> p = [] \<or> restorePathLine p \<and> trimSpace (firstRestoreLine p) = p"

lemma isMenu_pathAfter:
  assumes "isMenu p"
  shows "isMenu (pathAfter p s)"
proof (cases "restorePathLine s")
  case True
  define l where "l = trimSpace (firstRestoreLine s)"
  have "CHR 0x0A \<notin> set (firstRestoreLine s)"
    by (auto simp: firstRestoreLine_def dest: set_takeWhileD)
  then have "CHR 0x0A \<notin> set l" unfolding l_def using set_trimSpace by blast
  then have "takeWhile (\<lambda>c. c \<noteq> CHR 0x0A) l = l" by (auto simp: takeWhile_eq_all_conv)
  then have line: "firstRestoreLine l = l" by (simp add: firstRestoreLine_def)
  have "trimSpace l = l" by (simp add: l_def)
  moreover from this line True have "restorePathLine l"
    by (simp add: restorePathLine_def Let_def l_def[symmetric])
  ultimately show ?thesis using True line by (simp add: isMenu_def pathAfter_def l_def[symmetric])
qed (use assms in \<open>simp add: pathAfter_def\<close>)

lemma pathAfter_idem [simp]: "pathAfter (pathAfter p s) s = pathAfter p s"
  by (simp add: pathAfter_def)

lemma commandsOf_pathAfter [simp]: "commandsOf (pathAfter p s) (s # ss) = commandsOf p (s # ss)"
  by (simp add: pathAfter_def)

lemma pathAfter_menu: "isMenu p \<Longrightarrow> p \<noteq> [] \<Longrightarrow> pathAfter q p = p \<and> commandsOf q [p] = []"
  by (auto simp: isMenu_def pathAfter_def)

lemma pathAfter_nonempty: "restorePathLine s \<Longrightarrow> pathAfter p s \<noteq> []"
  by (auto simp: pathAfter_def restorePathLine_def Let_def hasPrefix_def split: if_splits)

text \<open>What one written statement adds to the current chunk.\<close>

lemma chunkAddition_commands:
  assumes "isMenu p" and "menuAfter [] cur = (if has then p else [])"
    and "p' = pathAfter p s"
    and "has' \<longleftrightarrow> has \<or> restorePathLine s \<or> p' \<noteq> [] \<and> \<not> restoreCommentLine s"
  shows "\<exists>new. chunkAddition p' has s = render new \<and> new \<noteq> [] \<and>
    commandsOf [] (cur @ new) = commandsOf [] cur @ commandsOf p [s] \<and>
    menuAfter [] (cur @ new) = (if has' then p' else [])"
proof (cases "\<not> has \<and> p' \<noteq> [] \<and> \<not> restorePathLine s \<and> \<not> restoreCommentLine s")
  case True
  then have p': "p' = p" "p \<noteq> []" using assms(3) by (auto simp: pathAfter_def)
  note menu = pathAfter_menu[OF assms(1) p'(2)]
  have "chunkAddition p' has s = render [p, s]"
    using True p' by (simp add: chunkAddition_def Let_def)
  moreover have "commandsOf [] (cur @ [p, s]) = commandsOf [] cur @ commandsOf p [s]"
    using menu by (simp add: commandsOf_append[of _ cur] commandsOf_append[of _ "[p]" "[s]", simplified])
  ultimately show ?thesis
    using True p' menu assms(3,4) by (intro exI[of _ "[p, s]"]) simp
next
  case False
  then have "chunkAddition p' has s = render [s]" by (auto simp: chunkAddition_def Let_def)
  moreover have "commandsOf [] (cur @ [s]) = commandsOf [] cur @ commandsOf p [s]"
    using False assms(2,3) by (auto simp: commandsOf_append pathAfter_def)
  moreover have "menuAfter [] (cur @ [s]) = (if has' then p' else [])"
    using False assms(2-) pathAfter_nonempty[of s p] by (auto simp: pathAfter_def)
  ultimately show ?thesis by (intro exI[of _ "[s]"]) auto
qed

lemma splitFrom_commands:
  assumes "splitFrom n chunks (render cur) path has stmts = Inr out" and "isMenu path"
    and "menuAfter [] cur = (if has then path else [])"
  shows "\<exists>css. out = chunks @ map render css \<and>
    concat (map (commandsOf []) css) = commandsOf [] cur @ commandsOf path stmts"
  using assms
proof (induction n chunks "render cur" path has stmts arbitrary: cur rule: splitFrom.induct)
  case (1 n chunks path has)
  show ?case
  proof (cases "cur = []")
    case True
    with "1.prems" show ?thesis by (intro exI[of _ "[]"]) (auto simp: Let_def split: if_splits)
  next
    case False
    with "1.prems" render_ends[OF False] show ?thesis
      by (intro exI[of _ "[cur]"]) (auto simp: Let_def split: if_splits)
  qed
next
  case (2 n chunks path has stmt stmts)
  let ?p = "pathAfter path stmt"
  let ?a = "chunkAddition ?p has stmt"
  let ?has = "has \<or> restorePathLine stmt \<or> ?p \<noteq> [] \<and> \<not> restoreCommentLine stmt"
  have menu: "isMenu ?p" by (rule isMenu_pathAfter[OF "2.prems"(2)])
  from "2.prems"(1) have fits: "\<not> int (length ?a) > n" by (auto simp: Let_def split: if_splits)
  show ?case
  proof (cases "int (length (render cur)) + int (length ?a) > n")
    case True
    with fits have cur: "cur \<noteq> []" by auto
    with True fits "2.prems"(1)
    have "splitFrom n (chunks @ [render cur]) (render []) ?p False (stmt # stmts) = Inr out"
      by (simp add: Let_def render_ends)
    with "2.hyps"(1)[OF refl refl fits True, of "[]"] menu cur obtain css where
      "out = (chunks @ [render cur]) @ map render css"
      "concat (map (commandsOf []) css) = commandsOf path (stmt # stmts)"
      by (auto simp: render_ends simp del: commandsOf.simps(2))
    then show ?thesis by (intro exI[of _ "cur # css"]) simp
  next
    case False
    obtain new where new: "?a = render new" "commandsOf [] (cur @ new) = commandsOf [] cur @ commandsOf path [stmt]"
      "menuAfter [] (cur @ new) = (if ?has then ?p else [])"
      using chunkAddition_commands[OF "2.prems"(2,3) refl refl] by blast
    have "splitFrom n chunks (render (cur @ new)) ?p ?has stmts = Inr out"
      using False fits "2.prems"(1) new(1) by (simp add: Let_def)
    with "2.hyps"(2)[OF refl refl fits False, of "cur @ new"] menu new(1,3) obtain css where
      "out = chunks @ map render css"
      "concat (map (commandsOf []) css) = commandsOf [] (cur @ new) @ commandsOf ?p stmts"
      by auto
    moreover have "commandsOf path (stmt # stmts) = commandsOf path [stmt] @ commandsOf ?p stmts"
      using commandsOf_append[of path "[stmt]" stmts] by simp
    ultimately show ?thesis using new(2) by auto
  qed
qed

text \<open>
  C21.  Splitting does not move a command to another menu: each chunk is the text of a list of
  statements, and importing the chunks one after the other, each from the root menu, runs the
  commands of the script in the script's order, each in the menu the script runs it in.
\<close>

theorem splitRestoreScript_commands:
  assumes "splitRestoreScript script maxBytes = Inr chunks"
  shows "\<exists>statements css. restoreStatements script = Inr statements \<and> chunks = map render css \<and>
    concat (map (commandsOf []) css) = commandsOf [] statements"
proof -
  from assms obtain statements where st: "restoreStatements script = Inr statements"
    and split: "splitFrom maxBytes [] (render []) [] False statements = Inr chunks"
    by (auto simp: splitRestoreScript_def split: if_splits sum.splits)
  from splitFrom_commands[OF split] st show ?thesis by (auto simp: isMenu_def)
qed

theorem splitRestoreScript_commands_witness:
  "\<exists>statements css. sampleChunks = map render css \<and>
     concat (map (commandsOf []) css) = commandsOf [] statements \<and>
     commandsOf [] statements = [(''/ip address'', ''add address=10.0.0.1/24''),
                                 (''/ip address'', ''add address=10.0.1.1/24'')]"
proof -
  have st: "restoreStatements (''/ip address'' @ newline @ ''add address=10.0.0.1/24'' @ newline
     @ ''add address=10.0.1.1/24'')
     = Inr [''/ip address'', ''add address=10.0.0.1/24'', ''add address=10.0.1.1/24'']" by code_simp
  have "commandsOf [] [''/ip address'', ''add address=10.0.0.1/24'', ''add address=10.0.1.1/24'']
     = [(''/ip address'', ''add address=10.0.0.1/24''), (''/ip address'', ''add address=10.0.1.1/24'')]"
    by code_simp
  with splitRestoreScript_commands[OF sampleChunks_eq] show ?thesis unfolding st sum.inject by metis
qed

text \<open>The splitter refuses only what cannot fit.\<close>

lemma splitFrom_total:
  assumes "\<forall>s\<in>set stmts. \<forall>p\<in>M. int (length (chunkAddition p False s)) \<le> n"
    and "path \<in> M" and "\<forall>s\<in>set stmts. \<forall>p\<in>M. pathAfter p s \<in> M"
    and "chunks \<noteq> [] \<or> current \<noteq> [] \<or> stmts \<noteq> []"
  shows "\<exists>out. splitFrom n chunks current path has stmts = Inr out"
  using assms
proof (induction n chunks current path has stmts rule: splitFrom.induct)
  case (2 n chunks current path has stmt stmts)
  let ?p = "pathAfter path stmt"
  have M: "?p \<in> M" using "2.prems"(2,3) by simp
  have "length (chunkAddition ?p has stmt) \<le> length (chunkAddition ?p False stmt)"
    by (simp add: chunkAddition_def Let_def)
  moreover have "int (length (chunkAddition ?p False stmt)) \<le> n" using "2.prems"(1) M by simp
  ultimately have fits: "\<not> int (length (chunkAddition ?p has stmt)) > n" by linarith
  obtain b where b: "chunkAddition ?p has stmt = b @ ensureTrailingNewline stmt" by (rule chunkAddition_shape)
  show ?case
  proof (cases "int (length current) + int (length (chunkAddition ?p has stmt)) > n")
    case True
    with "2.IH"(1)[OF refl refl fits True "2.prems"(1) M "2.prems"(3)] fits show ?thesis by (simp add: Let_def)
  next
    case False
    with "2.IH"(2)[OF refl refl fits False] "2.prems"(1,3) M fits b show ?thesis by (simp add: Let_def)
  qed
qed (auto simp: Let_def)

text \<open>
  Splitting succeeds whenever it can: a script with at least one statement, in which every
  statement fits the limit together with the longest menu line of the script, is split.
\<close>

theorem splitRestoreScript_total:
  assumes "0 < maxBytes" and "restoreStatements script = Inr statements" and "statements \<noteq> []"
    and "\<forall>s\<in>set statements. \<forall>p\<in>set ([] # map (\<lambda>s. trimSpace (firstRestoreLine s)) statements).
      int (length (ensureTrailingNewline p) + length (ensureTrailingNewline s)) \<le> maxBytes"
  shows "\<exists>chunks. splitRestoreScript script maxBytes = Inr chunks"
proof -
  let ?M = "set ([] # map (\<lambda>s. trimSpace (firstRestoreLine s)) statements)"
  have "int (length (chunkAddition p False s)) \<le> maxBytes" if "s \<in> set statements" "p \<in> ?M" for s p
    using assms(4) that by (fastforce simp: chunkAddition_def Let_def)
  then show ?thesis
    using splitFrom_total[of statements ?M maxBytes "[]" "[]" "[]" False] assms(1-3)
    by (auto simp: splitRestoreScript_def pathAfter_def)
qed

theorem splitRestoreScript_total_witness:
  "\<exists>chunks. splitRestoreScript sampleScript 100 = Inr chunks"
proof -
  have "restoreStatements sampleScript = Inr [''/ip address'',
      ''add address=10.0.0.1/24 comment={'' @ newline @ ''two lines}'', ''add address=10.0.1.1/24'']"
    by code_simp
  then show ?thesis by (rule splitRestoreScript_total[rotated]) (code_simp, code_simp, simp)
qed

section \<open>Import\<close>

text \<open>A runner that records the sentences it sends.\<close>

definition traced :: "'w runner \<Rightarrow> (string list list \<times> 'w) runner" where
  "traced run args = (\<lambda>(log, w). case run args w of (r, w') \<Rightarrow> (r, (log @ [args], w')))"

text \<open>\<open>logged P\<close>: only sentences in \<open>P\<close> were sent in between.\<close>

definition logged :: "(string list \<Rightarrow> bool) \<Rightarrow> string list list \<times> 'w \<Rightarrow> string list list \<times> 'w \<Rightarrow> bool" where
  "logged P u v \<longleftrightarrow> (\<exists>xs. fst v = fst u @ xs \<and> (\<forall>x\<in>set xs. P x))"

interpretation lg: frame "logged P" for P
  by unfold_locales (auto simp: logged_def)

lemma traced_logged: "P args \<Longrightarrow> keeps (logged P) (traced run args)"
  by (rule keepsI) (auto simp: traced_def logged_def split: prod.splits)

definition isImportCommand :: "string list \<Rightarrow> bool" where
  "isImportCommand args \<longleftrightarrow> (case args of [] \<Rightarrow> False | cmd # _ \<Rightarrow> cmd = ''/file/set'' \<or> cmd = ''/import'')"

definition importPlan :: "string \<Rightarrow> string \<Rightarrow> string list \<Rightarrow> string list list" where
  "importPlan fileID fileName chunks =
     concat (map (\<lambda>chunk. [[''/file/set'', ''=.id='' @ fileID, ''=contents='' @ chunk],
                          [''/import'', ''=file-name='' @ fileName]]) chunks)"

abbreviation quiet :: "string list list \<times> 'w \<Rightarrow> string list list \<times> 'w \<Rightarrow> bool" where
  "quiet \<equiv> logged (\<lambda>args. \<not> isImportCommand args)"

lemma quiet_filter: "quiet u v \<Longrightarrow> filter isImportCommand (fst v) = filter isImportCommand (fst u)"
  by (auto simp: logged_def filter_False)

lemma keeps_wrapE: "keeps (logged P) m \<Longrightarrow> keeps (logged P) (wrapE pre m)"
  unfolding wrapE_def by (intro lg.keeps_combinators) (auto split: sum.split intro: lg.keeps_combinators)

lemma removeFileByName_quiet: "keeps quiet (removeFileByName (traced run) name)"
  unfolding removeFileByName_def
  by (intro lg.keeps_bind traced_logged)
    (auto simp: isImportCommand_def split: option.split intro!: lg.keeps_combinators traced_logged)

lemma lookupFrom_quiet: "keeps quiet (lookupFrom (traced run) names)"
proof (induction names)
  case (Cons n ns)
  then show ?case
    by (auto simp: isImportCommand_def split: sum.split intro!: lg.keeps_combinators traced_logged)
next
  case Nil
  show ?case unfolding lookupFrom.simps by (rule lg.keeps_fail)
qed

lemma traced_step:
  assumes "wrapE pre (traced run args) (log, w) = (r, (log', w'))"
  shows "log' = log @ [args]"
  using assms by (auto simp: wrapE_def tryE_def traced_def split: prod.splits sum.splits)

lemma importChunks_trace:
  assumes "importChunks (traced run) fileID fileName i chunks (log, w) = (r, (log', w'))"
  shows "\<exists>xs. log' = log @ xs \<and> prefix xs (importPlan fileID fileName chunks) \<and>
    (r = Inr () \<longrightarrow> xs = importPlan fileID fileName chunks)"
  using assms
proof (induction chunks arbitrary: i log w)
  case (Cons c cs)
  let ?set = "[''/file/set'', ''=.id='' @ fileID, ''=contents='' @ c]"
  let ?imp = "[''/import'', ''=file-name='' @ fileName]"
  have plan: "importPlan fileID fileName (c # cs) = ?set # ?imp # importPlan fileID fileName cs"
    by (simp add: importPlan_def)
  from Cons.prems show ?case unfolding importChunks.simps
  proof (cases rule: bindE_cases)
    case (err e)
    with traced_step[OF err(1)] plan show ?thesis by (intro exI[of _ "[?set]"]) auto
  next
    case (ok x u)
    obtain l1 w1 where u: "u = (l1, w1)" by force
    have l1: "l1 = log @ [?set]" using traced_step ok(1) u by metis
    from ok(2)[unfolded u] show ?thesis
    proof (cases rule: bindE_cases)
      case (err e)
      with traced_step[OF err(1)] plan l1 show ?thesis by (intro exI[of _ "[?set, ?imp]"]) auto
    next
      case (ok y v)
      obtain l2 w2 where v: "v = (l2, w2)" by force
      have l2: "l2 = l1 @ [?imp]" using traced_step ok(1) v by metis
      from Cons.IH[OF ok(2)[unfolded v]] obtain xs where
        "log' = l2 @ xs" "prefix xs (importPlan fileID fileName cs)"
        "r = Inr () \<longrightarrow> xs = importPlan fileID fileName cs" by blast
      with plan l1 l2 show ?thesis by (intro exI[of _ "?set # ?imp # xs"]) auto
    qed
  qed
qed (simp add: importPlan_def)

lemma importPlan_commands: "x \<in> set (importPlan i n cs) \<Longrightarrow> isImportCommand x"
  by (auto simp: importPlan_def isImportCommand_def)

definition restoreChunks :: "string \<Rightarrow> string list" where
  "restoreChunks script =
     (case splitRestoreScript script maxRestoreFileContentsBytes of Inl _ \<Rightarrow> [] | Inr chunks \<Rightarrow> chunks)"

text \<open>The import once the file is there, and the whole run.\<close>

lemma importBody_trace:
  assumes "tryE (importChunks (traced run) fileID fileName 0 chunks) (\<lambda>imported.
      tryE (removeFileByName (traced run) fileName) (\<lambda>removed. importOutcome imported removed)) u = (r, v)"
    and "filter isImportCommand (fst u) = []"
  shows "prefix (filter isImportCommand (fst v)) (importPlan fileID fileName chunks) \<and>
    (r = Inr () \<longrightarrow> filter isImportCommand (fst v) = importPlan fileID fileName chunks)"
proof -
  obtain log w where u: "u = (log, w)" by force
  from assms(1) obtain i s d t where i: "importChunks (traced run) fileID fileName 0 chunks u = (i, s)"
    and d: "removeFileByName (traced run) fileName s = (d, t)" and ret: "importOutcome i d t = (r, v)"
    by (elim tryE_E) blast
  obtain l1 w1 where s: "s = (l1, w1)" by force
  from importChunks_trace[OF i[unfolded u s]] obtain xs where
    xs: "l1 = log @ xs" "prefix xs (importPlan fileID fileName chunks)"
    "i = Inr () \<longrightarrow> xs = importPlan fileID fileName chunks" by blast
  from xs(2) have "\<forall>x\<in>set xs. isImportCommand x"
    using importPlan_commands by (meson set_mono_prefix subsetD)
  then have "filter isImportCommand (fst s) = xs" using xs(1) s u assms(2) by simp
  moreover have "v = t" "r = Inr () \<Longrightarrow> i = Inr ()"
    using ret by (auto simp: importOutcome_def split: sum.splits)
  ultimately show ?thesis
    using xs(2,3) quiet_filter[OF keepsD[OF removeFileByName_quiet d]] by auto
qed

lemma wrapE_Inr_iff: "fst (wrapE pre m u) = Inr x \<longleftrightarrow> fst (m u) = Inr x"
  by (auto simp: wrapE_def tryE_def split: prod.splits sum.splits)

lemma snd_wrapE [simp]: "snd (wrapE pre m u) = snd (m u)"
  by (auto simp: wrapE_def tryE_def split: prod.splits sum.splits)

lemma importViaFile_trace:
  assumes "importViaFile (traced run) script ([], w) = (r, v)"
  shows "\<exists>fileID fileName.
    prefix (filter isImportCommand (fst v)) (importPlan fileID fileName (restoreChunks script)) \<and>
    (r = Inr () \<longrightarrow> filter isImportCommand (fst v) = importPlan fileID fileName (restoreChunks script))"
proof -
  let ?clean = "forE (\<lambda>name. wrapE (''remove leftover restore file '' @ goQuote name @ '': '')
                         (removeFileByName (traced run) name)) restoreFileNames"
  let ?file = "\<lambda>createReply. if fst (fileIdentity createReply) = [] then lookupRestoreFile (traced run)
                    else returnE (fileIdentity createReply)"
  have clean: "keeps quiet ?clean"
    by (intro lg.keeps_for keeps_wrapE removeFileByName_quiet)
  have create: "keeps quiet (wrapE ''create restore file: '' (traced run [''/file/print'', ''=file='' @ restoreFileName]))"
    by (intro keeps_wrapE traced_logged) (simp add: isImportCommand_def)
  have located: "keeps quiet (?file c)" for c
    unfolding lookupRestoreFile_def by (intro lg.keeps_combinators lookupFrom_quiet)
  from assms show ?thesis
    unfolding importViaFile_def
  proof (cases rule: bindE_cases)
    case (err e)
    from err(2) quiet_filter[OF keepsD[OF clean err(1)]] show ?thesis by simp
  next
    case (ok x u1)
    have u1: "filter isImportCommand (fst u1) = []" using quiet_filter[OF keepsD[OF clean ok(1)]] by simp
    show ?thesis
    proof (cases "splitRestoreScript script maxRestoreFileContentsBytes")
      case (Inl e)
      with ok(2) u1 show ?thesis by auto
    next
      case (Inr chunks)
      have rc: "restoreChunks script = chunks" by (simp add: restoreChunks_def Inr)
      from ok(2)[unfolded Inr sum.case] show ?thesis
      proof (cases rule: bindE_cases)
        case (err e)
        with quiet_filter[OF keepsD[OF create err(1)]] u1 show ?thesis by auto
      next
        case (ok c u2)
        have u2: "filter isImportCommand (fst u2) = []" using quiet_filter[OF keepsD[OF create ok(1)]] u1 by simp
        from ok(2) show ?thesis
        proof (cases rule: bindE_cases)
          case (err e)
          with quiet_filter[OF keepsD[OF located err(1)]] u2 show ?thesis by auto
        next
          case (ok p u3)
          obtain fileID fileName where p: "p = (fileID, fileName)" by force
          have u3: "filter isImportCommand (fst u3) = []" using quiet_filter[OF keepsD[OF located ok(1)]] u2 by simp
          show ?thesis
            unfolding rc using importBody_trace[OF ok(2)[unfolded p prod.case] u3] by blast
        qed
      qed
    qed
  qed
qed

text \<open>
  An import sends the chunks of the script in order, each written to the restore file and
  then imported, one after the other; when it fails a prefix of this sequence was sent, and when
  it succeeds all of it was.
\<close>

theorem Import_in_order:
  assumes "Import (traced run) script ([], w) = (r, v)"
  shows "\<exists>fileID fileName.
    prefix (filter isImportCommand (fst v)) (importPlan fileID fileName (restoreChunks script)) \<and>
    (r = Inr () \<longrightarrow> filter isImportCommand (fst v) = importPlan fileID fileName (restoreChunks script))"
proof (cases "trimSpace script = []")
  case True
  with assms show ?thesis by (auto simp: Import_def)
next
  case False
  obtain s where s: "importViaFile (traced run) script ([], w) = (s, v)"
    and r: "r = Inr () \<longrightarrow> s = Inr ()"
    using assms False wrapE_Inr_iff[of "''import RouterOS configuration: ''" "importViaFile (traced run) script" "([], w)" "()"]
      snd_wrapE[of "''import RouterOS configuration: ''" "importViaFile (traced run) script" "([], w)"]
    by (metis Import_def fst_conv prod.collapse snd_conv)
  from importViaFile_trace[OF s] r show ?thesis by blast
qed

text \<open>A router that answers every sentence with the identity of the restore file.\<close>

definition fileRun :: "unit runner" where
  "fileRun args w = (Inr (Some \<lparr>Re = [Some [(''.id'', ''*7''), (''name'', restoreFileName)]], Done = None\<rparr>), w)"

theorem Import_in_order_witness:
  "\<exists>fileID fileName. filter isImportCommand (fst (snd (Import (traced fileRun) sampleScript ([], ()))))
     = importPlan fileID fileName (restoreChunks sampleScript)"
proof -
  have "fst (Import (traced fileRun) sampleScript ([], ())) = Inr ()" by code_simp
  with Import_in_order[of fileRun sampleScript "()", OF prod.collapse[symmetric]] show ?thesis by auto
qed

end
