(* ===== verification/Go_Net.thy ===== *)
theory Go_Net
  imports Go_Strings
begin

text \<open>
  What the operator uses of Go's \<^verbatim>\<open>net\<close> package: \<^verbatim>\<open>net.ParseIP\<close> and \<^verbatim>\<open>IP.String\<close>, for both
  address families.  An address is its sixteen bytes, an IPv4 address in the mapped form
  \<^verbatim>\<open>::ffff:a.b.c.d\<close>, as \<^verbatim>\<open>ParseIP\<close> returns it.
\<close>

type_synonym ipaddr = "nat list"

section \<open>IPv4\<close>

text \<open>A decimal field: one to three digits, no leading zero, at most 255.\<close>

definition parseOctet :: "string \<Rightarrow> nat option" where
  "parseOctet f =
     (if f = [] \<or> \<not> list_all isDigit f then None
      else if length f > 1 \<and> hd f = CHR ''0'' then None
      else if length f > 3 \<or> decimal f > 255 then None
      else Some (decimal f))"

fun allSome :: "'a option list \<Rightarrow> 'a list option" where
  "allSome [] = Some []"
| "allSome (None # xs) = None"
| "allSome (Some x # xs) = map_option (Cons x) (allSome xs)"

definition parseIPv4 :: "string \<Rightarrow> nat list option" where
  "parseIPv4 s =
     (let fs = splitOn CHR ''.'' s in
      if length fs = 4 then allSome (map parseOctet fs) else None)"

definition v4prefix :: "nat list" where
  "v4prefix = replicate 10 0 @ [255, 255]"

definition ipv4String :: "nat list \<Rightarrow> string" where
  "ipv4String bs = joinWith ''.'' (map natDigits bs)"

section \<open>IPv6\<close>

definition hexVal :: "char \<Rightarrow> nat option" where
  "hexVal c =
     (let n = of_char c in
      if 48 \<le> n \<and> n \<le> 57 then Some (n - 48)
      else if 97 \<le> n \<and> n \<le> 102 then Some (n - 87)
      else if 65 \<le> n \<and> n \<le> 70 then Some (n - 55)
      else None)"

definition hexDigit :: "nat \<Rightarrow> char" where
  "hexDigit n = char_of (if n < 10 then 48 + n else 87 + n)"

fun hexNumber :: "string \<Rightarrow> nat" where
  "hexNumber [] = 0"
| "hexNumber (c # cs) = (case hexVal c of None \<Rightarrow> 0 | Some v \<Rightarrow> v * 16 ^ length cs + hexNumber cs)"

text \<open>
  The groups of an IPv6 address: the loop of \<^verbatim>\<open>netip.parseIPv6\<close>, with the bytes parsed so far and
  the position of the ellipsis.  The result is the bytes, the ellipsis and the rest of the text.
\<close>

function parseGroups ::
  "nat list \<Rightarrow> nat option \<Rightarrow> string \<Rightarrow> (nat list \<times> nat option \<times> string) option" where
  "parseGroups bytes ellipsis s =
     (if length bytes \<ge> 16 then Some (bytes, ellipsis, s)
      else let hs = takeWhile (\<lambda>c. hexVal c \<noteq> None) s; rest = dropWhile (\<lambda>c. hexVal c \<noteq> None) s; n = hexNumber hs in
      if hs = [] \<or> length hs > 4 then None
      else if rest \<noteq> [] \<and> hd rest = CHR ''.'' then
        (if ellipsis = None \<and> length bytes \<noteq> 12 then None
         else if length bytes + 4 > 16 then None
         else case parseIPv4 s of None \<Rightarrow> None | Some bs \<Rightarrow> Some (bytes @ bs, ellipsis, []))
      else let bytes = bytes @ [n div 256, n mod 256] in
      if rest = [] then Some (bytes, ellipsis, [])
      else if hd rest \<noteq> CHR '':'' then None
      else if tl rest = [] then None
      else if hd (tl rest) = CHR '':'' then
        (if ellipsis \<noteq> None then None
         else if tl (tl rest) = [] then Some (bytes, Some (length bytes), [])
         else parseGroups bytes (Some (length bytes)) (tl (tl rest)))
      else parseGroups bytes ellipsis (tl rest))"
  by pat_completeness auto
termination
  by (relation "measure (\<lambda>(bytes, e, s). 16 - length bytes)") (auto simp: Let_def)

declare parseGroups.simps [simp del]

definition expandEllipsis :: "nat list \<Rightarrow> nat option \<Rightarrow> string \<Rightarrow> nat list option" where
  "expandEllipsis bytes ellipsis s =
     (if s \<noteq> [] then None
      else if length bytes < 16 then
        (case ellipsis of
           None \<Rightarrow> None
         | Some e \<Rightarrow> Some (take e bytes @ replicate (16 - length bytes) 0 @ drop e bytes))
      else if ellipsis \<noteq> None then None
      else Some bytes)"

definition parseIPv6 :: "string \<Rightarrow> nat list option" where
  "parseIPv6 s =
     (if CHR ''%'' \<in> set s then None
      else if prefix ''::'' s then
        (if drop 2 s = [] then Some (replicate 16 0)
         else case parseGroups [] (Some 0) (drop 2 s) of
                None \<Rightarrow> None | Some (bytes, e, r) \<Rightarrow> expandEllipsis bytes e r)
      else case parseGroups [] None s of
             None \<Rightarrow> None | Some (bytes, e, r) \<Rightarrow> expandEllipsis bytes e r)"

text \<open>\<^verbatim>\<open>net.ParseIP\<close>: the first dot or colon decides the family.\<close>

definition parseIP :: "string \<Rightarrow> ipaddr option" where
  "parseIP s =
     (case find (\<lambda>c. c = CHR ''.'' \<or> c = CHR '':'' \<or> c = CHR ''%'') s of
        None \<Rightarrow> None
      | Some c \<Rightarrow>
          (if c = CHR ''.'' then map_option (\<lambda>bs. v4prefix @ bs) (parseIPv4 s)
           else if c = CHR '':'' then parseIPv6 s
           else None))"

section \<open>Printing\<close>

fun groupsOf :: "nat list \<Rightarrow> nat list" where
  "groupsOf (a # b # bs) = (256 * a + b) # groupsOf bs"
| "groupsOf _ = []"

fun hexString :: "nat \<Rightarrow> string" where
  "hexString n = (if n < 16 then [hexDigit n] else hexString (n div 16) @ [hexDigit (n mod 16)])"

declare hexString.simps [simp del]

definition zeroRun :: "nat list \<Rightarrow> nat" where
  "zeroRun gs = length (takeWhile (\<lambda>g. g = 0) gs)"

text \<open>The leftmost longest run of at least two zero groups, as start and length.\<close>

fun bestRun :: "nat \<Rightarrow> nat \<times> nat \<Rightarrow> nat list \<Rightarrow> nat \<times> nat" where
  "bestRun i best [] = best"
| "bestRun i best (g # gs) =
     (let l = zeroRun (g # gs) in
      bestRun (i + 1) (if l \<ge> 2 \<and> l > snd best then (i, l) else best) gs)"

definition ipv6String :: "nat list \<Rightarrow> string" where
  "ipv6String bytes =
     (let gs = groupsOf bytes; (start, len) = bestRun 0 (0, 0) gs in
      if len = 0 then joinWith '':'' (map hexString gs)
      else joinWith '':'' (map hexString (take start gs)) @ ''::''
           @ joinWith '':'' (map hexString (drop (start + len) gs)))"

definition ipString :: "ipaddr \<Rightarrow> string" where
  "ipString ip = (if prefix v4prefix ip then ipv4String (drop 12 ip) else ipv6String ip)"

section \<open>Facts\<close>

lemma allSome_map: "(\<And>x. x \<in> set xs \<Longrightarrow> f x = Some (g x)) \<Longrightarrow> allSome (map f xs) = Some (map g xs)"
  by (induction xs) simp_all

lemma natDigits_no_dot: "CHR ''.'' \<notin> set (natDigits n)" "CHR '':'' \<notin> set (natDigits n)"
  using natDigits_digits[of n] by (auto simp: isDigit_def)

lemma natDigits_small: "n < 10 \<Longrightarrow> natDigits n = [char_of (48 + n)]"
  by (simp add: natDigits.simps)

lemma natDigits_hd: "n \<noteq> 0 \<Longrightarrow> hd (natDigits n) \<noteq> CHR ''0''"
proof (induction n rule: natDigits.induct)
  case (1 n)
  show ?case
  proof (cases "n < 10")
    case True
    then have "digitVal (char_of (48 + n)) \<noteq> digitVal CHR ''0''"
      using "1.prems" by (simp add: digitVal_def)
    then have "char_of (48 + n) \<noteq> CHR ''0''" by metis
    then show ?thesis using True by (simp add: natDigits_small)
  next
    case False
    then have "hd (natDigits (n div 10)) \<noteq> CHR ''0''" using "1.IH" by simp
    with False show ?thesis by (simp add: natDigits.simps[of n])
  qed
qed

lemma parseOctet_natDigits:
  assumes "n \<le> 255"
  shows "parseOctet (natDigits n) = Some n"
proof -
  have digits: "list_all isDigit (natDigits n)"
    using natDigits_digits by (simp add: list_all_iff)
  have "length (natDigits n) \<le> 3"
    using assms by (simp add: natDigits.simps[of n] natDigits.simps[of "n div 10"] natDigits.simps[of "n div 10 div 10"])
  moreover have "length (natDigits n) > 1 \<longrightarrow> hd (natDigits n) \<noteq> CHR ''0''"
    using natDigits_hd[of n] by (cases "n = 0") (auto simp: natDigits_small)
  ultimately show ?thesis using digits assms by (auto simp: parseOctet_def)
qed

text \<open>Parsing is a left inverse of printing on IPv4 addresses.\<close>

lemma parseIPv4_ipv4String:
  assumes "length bs = 4" and "\<forall>b\<in>set bs. b \<le> 255"
  shows "parseIPv4 (ipv4String bs) = Some bs"
proof -
  have split: "splitOn CHR ''.'' (ipv4String bs) = map natDigits bs"
    unfolding ipv4String_def
    by (rule splitOn_joinWith) (use assms(1) natDigits_no_dot in auto)
  have "map parseOctet (map natDigits bs) = map Some bs"
    using assms(2) parseOctet_natDigits by simp
  moreover have "allSome (map Some bs) = Some bs" by (induction bs) simp_all
  ultimately show ?thesis
    using assms(1) by (simp only: parseIPv4_def Let_def split length_map if_True refl)
qed

lemma parseIP_ipString_v4:
  assumes "length bs = 4" and "\<forall>b\<in>set bs. b \<le> 255"
  shows "parseIP (ipString (v4prefix @ bs)) = Some (v4prefix @ bs)"
proof -
  obtain a b c d where bs: "bs = [a, b, c, d]"
    using assms(1) by (auto simp: length_Suc_conv numeral_eq_Suc)
  have pr: "ipString (v4prefix @ bs) = ipv4String bs"
    by (simp add: ipString_def v4prefix_def)
  have "find (\<lambda>c. c = CHR ''.'' \<or> c = CHR '':'' \<or> c = CHR ''%'') (ipv4String bs) = Some CHR ''.''"
  proof -
    have "\<not> (\<lambda>c. c = CHR ''.'' \<or> c = CHR '':'' \<or> c = CHR ''%'') x" if "x \<in> set (natDigits a)" for x
      using natDigits_digits[of a] that by (auto simp: isDigit_def)
    then show ?thesis unfolding bs ipv4String_def by (simp add: find_append_skip)
  qed
  then show ?thesis
    unfolding pr parseIP_def using parseIPv4_ipv4String[OF assms] by simp
qed

lemma parseOctet_le: "parseOctet f = Some n \<Longrightarrow> n \<le> 255"
  by (auto simp: parseOctet_def split: if_splits)

lemma allSome_Some: "allSome xs = Some ys \<Longrightarrow> xs = map Some ys"
  by (induction xs arbitrary: ys rule: allSome.induct) auto

lemma parseIPv4_shape:
  assumes "parseIPv4 s = Some bs"
  shows "length bs = 4 \<and> (\<forall>b\<in>set bs. b \<le> 255)"
proof -
  from assms have l: "length (splitOn CHR ''.'' s) = 4"
    and all: "map parseOctet (splitOn CHR ''.'' s) = map Some bs"
    by (auto simp: parseIPv4_def Let_def split: if_splits dest: allSome_Some)
  have "length bs = 4" using l all by (metis length_map)
  moreover have "b \<le> 255" if "b \<in> set bs" for b
  proof -
    from that have "Some b \<in> set (map parseOctet (splitOn CHR ''.'' s))" unfolding all by simp
    then show ?thesis using parseOctet_le by auto
  qed
  ultimately show ?thesis by blast
qed

end
