(* ===== verification/Kube_Env.thy ===== *)
theory Kube_Env
  imports RouterOS_Client Go_Net
begin

text \<open>
  The environment of the controllers.  The Kubernetes API server, the clock, the credentials and
  the connections to routers are not code of this repository: an \<open>env\<close> is the record of the
  programs that stand for them, and every reconciler is a definition over such a record.  A
  connection is what \<^verbatim>\<open>routeros.Dial\<close> returns, the runner the client of \<open>RouterOS_Client\<close> sends its
  sentences with and the call that closes it.  \<^verbatim>\<open>kSetOwner\<close> is
  \<^verbatim>\<open>controllerutil.SetControllerReference\<close>, from the owner's kind and metadata and the child's.

  The process-local fences of \<^verbatim>\<open>router_fence.go\<close> appear here as acquire and release; the theory
  \<open>Fences\<close> models the registry that implements them.
\<close>

section \<open>Core objects\<close>

record servicePort =
  spName :: string
  spProtocol :: string
  spPort :: int
  spNodePort :: int

record service =
  svMeta :: objectMeta
  svType :: string
  svClusterIP :: string
  svPorts :: "servicePort list"

record pod =
  podMeta :: objectMeta
  podIP :: string

record nodeAddress =
  naType :: string
  naAddress :: string

record node =
  nodeMeta :: objectMeta
  nodeAddresses :: "nodeAddress list"

abbreviation ServiceTypeNodePort :: string where "ServiceTypeNodePort \<equiv> ''NodePort''"
abbreviation ServiceTypeClusterIP :: string where "ServiceTypeClusterIP \<equiv> ''ClusterIP''"
abbreviation ClusterIPNone :: string where "ClusterIPNone \<equiv> ''None''"
abbreviation NodeInternalIP :: string where "NodeInternalIP \<equiv> ''InternalIP''"

section \<open>Stores, connections, the environment\<close>

text \<open>One kind of object on the API server.  A namespace \<open>[]\<close> lists all namespaces; \<^verbatim>\<open>Update\<close> and
  \<^verbatim>\<open>Create\<close> return the object as the server stored it.\<close>

record ('w, 'o) store =
  stGet :: "nsname \<Rightarrow> ('w, 'o) prog"
  stList :: "string \<Rightarrow> ('w, 'o list) prog"
  stCreate :: "'o \<Rightarrow> ('w, 'o) prog"
  stUpdate :: "'o \<Rightarrow> ('w, 'o) prog"
  stUpdateStatus :: "'o \<Rightarrow> ('w, 'o) prog"
  stDelete :: "'o \<Rightarrow> ('w, unit) prog"

record 'w rosClient =
  rcRun :: "'w runner"
  rcClose :: "('w, unit) prog"

record 'w env =
  kRouters :: "('w, router) store"
  kDNS :: "('w, dnsRecord) store"
  kForwards :: "('w, portForward) store"
  kRoutes :: "('w, route) store"
  kFirewall :: "('w, firewallRule) store"
  kServices :: "('w, service) store"
  kGetPod :: "nsname \<Rightarrow> ('w, pod) prog"
  kListNodes :: "('w, node list) prog"
  kGetSecret :: "nsname \<Rightarrow> ('w, strmap) prog"
  kNow :: "'w \<Rightarrow> int"
  kSetOwner :: "string \<Rightarrow> objectMeta \<Rightarrow> objectMeta \<Rightarrow> goerr + objectMeta"
  kFactory :: "string \<Rightarrow> int \<Rightarrow> bool \<Rightarrow> string \<Rightarrow> string \<Rightarrow> ('w, 'w rosClient) prog"
  kFence :: "nsname \<Rightarrow> ('w, unit) prog"
  kUnfence :: "nsname \<Rightarrow> ('w, unit) prog"
  kClaimFence :: "nsname \<Rightarrow> ('w, unit) prog"
  kClaimUnfence :: "nsname \<Rightarrow> ('w, unit) prog"

text \<open>\<^verbatim>\<open>reconcile.Result\<close>: seconds after which the object is queued again, 0 for none.\<close>

type_synonym result = int

abbreviation noRequeue :: result where "noRequeue \<equiv> 0"

definition driftCheckInterval :: result where
  "driftCheckInterval = 60"

abbreviation retryMinute :: result where "retryMinute \<equiv> 60"

definition resourceFinalizer :: string where
  "resourceFinalizer = ''mikrotik.operator.io/managed-config''"

definition serviceRouteFinalizer :: string where
  "serviceRouteFinalizer = ''mikrotik.operator.io/service-route''"

definition serviceRouteRouterAnnotation :: string where
  "serviceRouteRouterAnnotation = ''mikrotik.operator.io/service-route-router''"

definition durableRouterTargetsAnnotation :: string where
  "durableRouterTargetsAnnotation = ''mikrotik.operator.io/router-targets''"

section \<open>Conditions\<close>

text \<open>The Ready condition: its transition time moves only when the condition changes.\<close>

definition readyCondition ::
  "int \<Rightarrow> condition list \<Rightarrow> string \<Rightarrow> string \<Rightarrow> string \<Rightarrow> condition list" where
  "readyCondition now existing status reason message =
     (let transition =
        (case existing of
           [c] \<Rightarrow> if cdType c = ''Ready'' \<and> cdStatus c = status \<and> cdReason c = reason
                     \<and> cdMessage c = message
                  then cdTransition c else now
         | _ \<Rightarrow> now)
      in [\<lparr>cdType = ''Ready'', cdStatus = status, cdReason = reason, cdMessage = message,
           cdTransition = transition\<rparr>])"

lemma readyCondition_stable:
  "readyCondition t' (readyCondition t cs s r m) s r m = readyCondition t cs s r m"
  by (simp add: readyCondition_def)

text \<open>\<^verbatim>\<open>client.IgnoreNotFound\<close> on the error of a \<^verbatim>\<open>Get\<close>, and its use at the head of a reconciler.\<close>

definition ignoreNotFound :: "goerr \<Rightarrow> ('w, result) prog" where
  "ignoreNotFound e = (if isNotFound e then returnE noRequeue else failE e)"

definition getOrIgnore ::
  "('w, 'o) prog \<Rightarrow> ('o \<Rightarrow> ('w, result) prog) \<Rightarrow> ('w, result) prog" where
  "getOrIgnore get f =
     tryE get (\<lambda>r. case r of Inl e \<Rightarrow> ignoreNotFound e | Inr o' \<Rightarrow> f o')"

text \<open>Run a program that returns a value the caller ignores.\<close>

definition voidE :: "('w, 'a) prog \<Rightarrow> ('w, unit) prog" where
  "voidE m = bindE m (\<lambda>_. returnE ())"

definition thenReturn :: "('w, 'a) prog \<Rightarrow> result \<Rightarrow> ('w, result) prog" where
  "thenReturn m r = bindE m (\<lambda>_. returnE r)"

text \<open>\<^verbatim>\<open>apierrors.NewNotFound\<close> for a router.\<close>

definition routerNotFound :: "string \<Rightarrow> goerr" where
  "routerNotFound name =
     StatusError NotFound 404 (''mikrotikrouters.mikrotik.operator.io '' @ [CHR 0x22] @ name
                               @ [CHR 0x22] @ '' not found'')"

lemma isNotFound_routerNotFound [simp]: "isNotFound (routerNotFound n)"
  by (simp add: routerNotFound_def isNotFound_def)

text \<open>\<^verbatim>\<open>withFence\<close>: the operation runs between acquire and release, whatever its outcome.\<close>

definition withFence ::
  "(nsname \<Rightarrow> ('w, unit) prog) \<Rightarrow> (nsname \<Rightarrow> ('w, unit) prog) \<Rightarrow> nsname \<Rightarrow> ('w, 'a) prog \<Rightarrow> ('w, 'a) prog" where
  "withFence acquire release key operation =
     bindE (acquire key) (\<lambda>_. deferE operation (release key))"

end
