(* ===== verification/Router_Refs.thy ===== *)
theory Router_Refs
  imports Kube_Env
begin

text \<open>
  References to routers: their textual form (\<^verbatim>\<open>name\<close> or \<^verbatim>\<open>namespace/name\<close>), how they are stored on
  an object, and how the router a reference means is found, explicitly or implicitly
  (\<^verbatim>\<open>router_controller.go\<close> lines 517 to 636, \<^verbatim>\<open>router_helpers.go\<close> lines 110 to 161).
\<close>

section \<open>Textual references\<close>

definition splitRouterReference :: "string \<Rightarrow> string \<times> string" where
  "splitRouterReference reference =
     (let reference = trimSpace reference in
      if reference = [] then ([], [])
      else let (namespace, name, found) = cutAt CHR ''/'' reference in
        if \<not> found then ([], reference) else (namespace, name))"

definition routerRefStorage :: "string \<Rightarrow> nsname \<Rightarrow> string" where
  "routerRefStorage resourceNamespace key =
     (if nsNamespace key = [] \<or> nsNamespace key = resourceNamespace then nsName key
      else nsNamespace key @ ''/'' @ nsName key)"

definition routerKeyFromRef :: "string \<Rightarrow> string \<Rightarrow> nsname" where
  "routerKeyFromRef resourceNamespace reference =
     (let (hintNamespace, name) = splitRouterReference reference in
      if name = [] then mkName [] []
      else mkName (if hintNamespace = [] then resourceNamespace else hintNamespace) name)"

definition canonicalRouterClaimKey :: "nsname \<Rightarrow> string" where
  "canonicalRouterClaimKey key =
     (if nsName key = [] then [] else nsNamespace key @ ''/'' @ nsName key)"

definition normalizeRouterLookupKey :: "nsname \<Rightarrow> nsname" where
  "normalizeRouterLookupKey key =
     (if nsName key = [] then key
      else let parsed = routerKeyFromRef (nsNamespace key) (nsName key) in
        if nsName parsed \<noteq> [] then parsed else key)"

section \<open>Looking routers up\<close>

definition liveRouters :: "router list \<Rightarrow> router list" where
  "liveRouters routers = filter (\<lambda>r. \<not> isDeleting (routerMeta r)) routers"

definition routerKey :: "router \<Rightarrow> nsname" where
  "routerKey r = metaKey (routerMeta r)"

definition listMikroTikRouter :: "'w env \<Rightarrow> nsname \<Rightarrow> ('w, router option) prog" where
  "listMikroTikRouter env key =
     (if nsNamespace key = [] \<or> nsName key = [] then returnE None
      else bindE (stList (kRouters env) (nsNamespace key)) (\<lambda>routers.
        returnE (find (\<lambda>r. omName (routerMeta r) = nsName key) (liveRouters routers))))"

definition getMikroTikRouter :: "'w env \<Rightarrow> nsname \<Rightarrow> ('w, router) prog" where
  "getMikroTikRouter env key0 =
     (let key = normalizeRouterLookupKey key0 in
      if nsName key = [] \<or> CHR ''/'' \<in> set (nsName key) then failE (routerNotFound (nsName key))
      else tryE (stGet (kRouters env) key) (\<lambda>r.
        case r of
          Inr router \<Rightarrow> returnE router
        | Inl err \<Rightarrow>
            (if \<not> isNotFound err then failE err
             else bindE (listMikroTikRouter env key) (\<lambda>found.
               case found of Some router \<Rightarrow> returnE router | None \<Rightarrow> failE err))))"

definition implicitErr :: "string \<Rightarrow> goerr" where
  "implicitErr text =
     Wrapped (sentinelText ErrImplicitRouterSelection @ '': '' @ text) [Sentinel ErrImplicitRouterSelection]"

definition uniqueClusterRouter :: "'w env \<Rightarrow> string \<Rightarrow> ('w, nsname) prog" where
  "uniqueClusterRouter env name =
     bindE (stList (kRouters env) []) (\<lambda>routers.
       case filter (\<lambda>r. name = [] \<or> omName (routerMeta r) = name) (liveRouters routers) of
         [router] \<Rightarrow> returnE (routerKey router)
       | [] \<Rightarrow> (if name \<noteq> [] then failE (routerNotFound name)
               else failE (implicitErr ''no MikroTikRouter exists in the cluster''))
       | _ \<Rightarrow> failE (implicitErr ''multiple MikroTikRouters exist; set routerRef explicitly''))"

definition resolveRouterReference :: "'w env \<Rightarrow> string \<Rightarrow> string \<Rightarrow> ('w, nsname) prog" where
  "resolveRouterReference env namespace reference =
     (let (hintNamespace, name) = splitRouterReference reference in
      if name \<noteq> [] \<and> hintNamespace \<noteq> [] then
        (let key = mkName hintNamespace name in
         bindE (getMikroTikRouter env key) (\<lambda>_. returnE key))
      else if name \<noteq> [] then
        (let local = mkName namespace name in
         tryE (getMikroTikRouter env local) (\<lambda>r.
           case r of
             Inr _ \<Rightarrow> returnE local
           | Inl err \<Rightarrow>
               (if \<not> isNotFound err then failE err
                else tryE (uniqueClusterRouter env name) (\<lambda>c.
                  case c of
                    Inr cluster \<Rightarrow> returnE cluster
                  | Inl clusterErr \<Rightarrow>
                      (if isNotFound clusterErr then returnE local else failE clusterErr)))))
      else bindE (stList (kRouters env) namespace) (\<lambda>localRouters.
        case liveRouters localRouters of
          [router] \<Rightarrow> returnE (routerKey router)
        | [] \<Rightarrow> uniqueClusterRouter env []
        | _ \<Rightarrow> failE (implicitErr (''multiple MikroTikRouters exist in namespace '' @ namespace
                                  @ ''; set routerRef explicitly''))))"

section \<open>Round trips\<close>

text \<open>A Kubernetes name as the API server admits it: not empty, printable, no slash or comma.\<close>

definition kubeName :: "string \<Rightarrow> bool" where
  "kubeName s \<longleftrightarrow> s \<noteq> [] \<and> (\<forall>c\<in>set s. printable c \<and> c \<noteq> CHR ''/'' \<and> c \<noteq> CHR '','')"

lemma kubeName_trim: "kubeName s \<Longrightarrow> trimSpace s = s"
  by (rule trimSpace_printable) (simp add: kubeName_def)

lemma splitRouterReference_name:
  assumes "kubeName n"
  shows "splitRouterReference n = ([], n)"
proof -
  have "cutAt CHR ''/'' n = (n, [], False)" by (rule cutAt_no_sep) (use assms in \<open>auto simp: kubeName_def\<close>)
  moreover have "n \<noteq> []" using assms by (simp add: kubeName_def)
  ultimately show ?thesis by (simp add: splitRouterReference_def kubeName_trim[OF assms])
qed

lemma splitRouterReference_qualified:
  assumes "kubeName ns" and "kubeName n"
  shows "splitRouterReference (ns @ ''/'' @ n) = (ns, n)"
proof -
  have "trimSpace (ns @ ''/'' @ n) = ns @ ''/'' @ n"
    using assms by (intro trimSpace_printable) (auto simp: kubeName_def printable_def)
  moreover have "cutAt CHR ''/'' (ns @ CHR ''/'' # n) = (ns, n, True)"
    using assms by (intro cutAt_sep) (auto simp: kubeName_def)
  ultimately show ?thesis by (simp add: splitRouterReference_def)
qed

lemma routerKeyFromRef_storage:
  assumes "kubeName (nsNamespace key)" and "kubeName (nsName key)"
  shows "routerKeyFromRef ns (routerRefStorage ns key) = key"
proof -
  have ne: "nsName key \<noteq> []" "nsNamespace key \<noteq> []" using assms by (auto simp: kubeName_def)
  show ?thesis
  proof (cases "nsNamespace key = ns")
    case True
    with ne show ?thesis
      by (simp add: routerRefStorage_def routerKeyFromRef_def splitRouterReference_name[OF assms(2)])
  next
    case False
    with ne show ?thesis
      using splitRouterReference_qualified[OF assms]
      by (simp add: routerRefStorage_def routerKeyFromRef_def)
  qed
qed

lemma normalizeRouterLookupKey_id:
  assumes "kubeName (nsName key)"
  shows "normalizeRouterLookupKey key = key"
  using assms splitRouterReference_name[OF assms]
  by (simp add: normalizeRouterLookupKey_def routerKeyFromRef_def Let_def)

lemma canonicalRouterClaimKey_inj:
  assumes "kubeName (nsNamespace a)" "kubeName (nsName a)" "kubeName (nsNamespace b)" "kubeName (nsName b)"
    and "canonicalRouterClaimKey a = canonicalRouterClaimKey b"
  shows "a = b"
proof -
  have "splitRouterReference (canonicalRouterClaimKey x) = (nsNamespace x, nsName x)"
    if "kubeName (nsNamespace x)" "kubeName (nsName x)" for x
    using splitRouterReference_qualified[OF that] that by (simp add: canonicalRouterClaimKey_def kubeName_def)
  from this[OF assms(1,2)] this[OF assms(3,4)] assms(5) show ?thesis by simp
qed

end
