(* ===== verification/Router_Endpoints.thy ===== *)
theory Router_Endpoints
  imports Router_Refs
begin

text \<open>
  The endpoints of a router: which devices a MikroTikRouter stands for, the key that identifies a
  device whatever its name and credentials, the history of endpoints kept in the status, and the
  ownership of a device by one router (\<^verbatim>\<open>router_controller.go\<close> lines 225 to 270,
  \<^verbatim>\<open>router_helpers.go\<close> lines 24 to 108 and 260 to 306).
\<close>

definition formatBool :: "bool \<Rightarrow> string" where
  "formatBool b = (if b then ''true'' else ''false'')"

definition canonicalAddress :: "string \<Rightarrow> string" where
  "canonicalAddress address =
     (let address = trimSpace address in
      case parseIP address of
        Some ip \<Rightarrow> ipString ip
      | None \<Rightarrow> toLower (trimSuffix address ''.''))"

definition endpointKey :: "routerEndpoint \<Rightarrow> string" where
  "endpointKey endpoint =
     (let port = (if epPort endpoint = 0 then (if epTLS endpoint then 8729 else 8728) else epPort endpoint) in
      joinWith ''|'' [canonicalAddress (epAddress endpoint), itoa port, formatBool (epTLS endpoint)])"

section \<open>The endpoints of a router\<close>

definition routerEndpoints :: "router \<Rightarrow> routerEndpoint list" where
  "routerEndpoints r =
     (let spec = routerSpecOf r in
      if rsRouters spec \<noteq> [] then rsRouters spec
      else if trimSpace (rsAddress spec) = [] \<or> trimSpace (rsCredentialsSecret spec) = [] then []
      else [\<lparr>epName = omName (routerMeta r), epAddress = rsAddress spec, epPort = rsPort spec,
             epTLS = rsTLS spec, epCredentialsSecret = rsCredentialsSecret spec,
             epRouteGateway = rsRouteGateway spec\<rparr>])"

definition routerName :: "router \<Rightarrow> string" where
  "routerName r = omNamespace (routerMeta r) @ ''/'' @ omName (routerMeta r)"

definition endpointUsable :: "routerEndpoint \<Rightarrow> bool" where
  "endpointUsable e \<longleftrightarrow> trimSpace (epAddress e) \<noteq> [] \<and> trimSpace (epCredentialsSecret e) \<noteq> []"

fun validateFrom :: "router \<Rightarrow> int \<Rightarrow> routerEndpoint list \<Rightarrow> goerr option" where
  "validateFrom r index [] = None"
| "validateFrom r index (e # es) =
     (if trimSpace (epAddress e) = []
      then Some (Opaque (''MikroTikRouter '' @ routerName r @ '' endpoint '' @ itoa index @ '' has an empty address''))
      else if trimSpace (epCredentialsSecret e) = []
      then Some (Opaque (''MikroTikRouter '' @ routerName r @ '' endpoint '' @ itoa index @ '' has an empty credentialsSecret''))
      else validateFrom r (index + 1) es)"

definition validateRouterEndpoints :: "router \<Rightarrow> goerr option" where
  "validateRouterEndpoints r =
     (let endpoints = routerEndpoints r in
      if endpoints = []
      then Some (Opaque (''MikroTikRouter '' @ routerName r @ '' requires a legacy address and credentialsSecret or at least one routers entry''))
      else validateFrom r 0 endpoints)"

definition routerCleanupEndpoints :: "router \<Rightarrow> routerEndpoint list" where
  "routerCleanupEndpoints r =
     (let applied = rtAppliedEndpoints (routerStatusOf r);
          candidates = (if applied = [] then routerEndpoints r else applied)
      in filter endpointUsable candidates)"

section \<open>The endpoint history\<close>

text \<open>The loops of \<^verbatim>\<open>durableRouterEndpointUnion\<close>: an endpoint replaces the one with its key in place,
  or is appended.\<close>

fun upsertEndpoint :: "routerEndpoint \<Rightarrow> routerEndpoint list \<Rightarrow> routerEndpoint list" where
  "upsertEndpoint e [] = [e]"
| "upsertEndpoint e (u # us) = (if endpointKey u = endpointKey e then e # us else u # upsertEndpoint e us)"

definition durableRouterEndpointUnion ::
  "routerEndpoint list \<Rightarrow> routerEndpoint list \<Rightarrow> routerEndpoint list" where
  "durableRouterEndpointUnion previous current =
     fold upsertEndpoint current (fold upsertEndpoint previous [])"

definition routerHasDurableCurrentEndpoints :: "router \<Rightarrow> bool" where
  "routerHasDurableCurrentEndpoints r =
     (let durable = map endpointKey (rtAppliedEndpoints (routerStatusOf r));
          current = map endpointKey (routerEndpoints r)
      in list_all (\<lambda>k. k \<in> set durable) current \<and> list_all (\<lambda>k. k \<in> set current) durable
         \<and> current \<noteq> [])"

section \<open>Ownership of devices\<close>

definition claimsEndpoint :: "string \<Rightarrow> router \<Rightarrow> bool" where
  "claimsEndpoint key candidate \<longleftrightarrow> (\<exists>e\<in>set (routerEndpoints candidate). endpointKey e = key)"

definition otherLiveRouter :: "router \<Rightarrow> router \<Rightarrow> bool" where
  "otherLiveRouter r candidate \<longleftrightarrow>
     \<not> isDeleting (routerMeta candidate) \<and>
     \<not> (omNamespace (routerMeta candidate) = omNamespace (routerMeta r)
        \<and> omName (routerMeta candidate) = omName (routerMeta r))"

definition endpointOwners :: "router list \<Rightarrow> router \<Rightarrow> string \<Rightarrow> string list" where
  "endpointOwners routers r key =
     sort (routerName r # map routerName (filter (\<lambda>c. otherLiveRouter r c \<and> claimsEndpoint key c) routers))"

fun ownershipFrom :: "router list \<Rightarrow> router \<Rightarrow> string list \<Rightarrow> routerEndpoint list \<Rightarrow> goerr option" where
  "ownershipFrom routers r seen [] = None"
| "ownershipFrom routers r seen (e # es) =
     (let key = endpointKey e; owners = endpointOwners routers r key in
      if key \<in> set seen
      then Some (Opaque (''MikroTikRouter '' @ routerName r @ '' has duplicate endpoint '' @ epAddress e))
      else if hd owners \<noteq> routerName r
      then Some (Opaque (''MikroTikRouter '' @ routerName r @ '' endpoint '' @ epAddress e
                         @ '' is owned by '' @ hd owners))
      else ownershipFrom routers r (key # seen) es)"

definition ensureRouterEndpointOwnership :: "'w env \<Rightarrow> router \<Rightarrow> ('w, unit) prog" where
  "ensureRouterEndpointOwnership env r =
     bindE (stList (kRouters env) []) (\<lambda>routers.
       liftErr (ownershipFrom routers r [] (routerEndpoints r)))"

definition endpointClaimedByOtherRouter :: "'w env \<Rightarrow> router \<Rightarrow> routerEndpoint \<Rightarrow> ('w, bool) prog" where
  "endpointClaimedByOtherRouter env r endpoint =
     bindE (stList (kRouters env) []) (\<lambda>routers.
       returnE (list_ex (\<lambda>c. otherLiveRouter r c \<and> claimsEndpoint (endpointKey endpoint) c) routers))"

definition ensureRouterActive :: "'w env \<Rightarrow> router \<Rightarrow> ('w, unit) prog" where
  "ensureRouterActive env r =
     (if isDeleting (routerMeta r)
      then failE (Opaque (''MikroTikRouter '' @ routerName r @ '' is being deleted''))
      else if \<not> containsFinalizer (routerMeta r) resourceFinalizer
      then failE (Opaque (''MikroTikRouter '' @ routerName r @ '' is not finalized for external cleanup''))
      else if \<not> routerHasDurableCurrentEndpoints r
      then failE (Opaque (''MikroTikRouter '' @ routerName r @ '' current endpoints are not durably recorded''))
      else ensureRouterEndpointOwnership env r)"

section \<open>Facts\<close>

lemma keys_upsert:
  "map endpointKey (upsertEndpoint e us) =
     (if endpointKey e \<in> endpointKey ` set us then map endpointKey us else map endpointKey us @ [endpointKey e])"
  by (induction us) auto

lemma distinct_upsert: "distinct (map endpointKey us) \<Longrightarrow> distinct (map endpointKey (upsertEndpoint e us))"
  unfolding keys_upsert by auto

lemma distinct_fold_upsert:
  "distinct (map endpointKey us) \<Longrightarrow> distinct (map endpointKey (fold upsertEndpoint es us))"
  by (induction es arbitrary: us) (simp_all add: distinct_upsert)

lemma keys_fold_upsert:
  "endpointKey ` set (fold upsertEndpoint es us) = endpointKey ` set us \<union> endpointKey ` set es"
proof (induction es arbitrary: us)
  case (Cons e es)
  have "endpointKey ` set (upsertEndpoint e us) = insert (endpointKey e) (endpointKey ` set us)"
    using keys_upsert[of e us] by (metis (no_types) insert_absorb list.set(2) list.set_map set_append
        set_ConsD Un_insert_right append_Nil2 list.simps(15) empty_set)
  with Cons show ?case by auto
qed simp

lemma set_upsert: "set (upsertEndpoint e us) \<subseteq> insert e (set us)"
  by (induction us) auto

lemma upsert_member: "e \<in> set (upsertEndpoint e us)"
  by (induction us) auto

lemma upsert_keeps: "u \<in> set us \<Longrightarrow> endpointKey u \<noteq> endpointKey e \<Longrightarrow> u \<in> set (upsertEndpoint e us)"
  by (induction us) auto

lemma fold_upsert_members:
  assumes "distinct (map endpointKey es)"
  shows "set es \<subseteq> set (fold upsertEndpoint es us)"
proof -
  have keep: "u \<in> set us \<Longrightarrow> endpointKey u \<notin> endpointKey ` set es \<Longrightarrow> u \<in> set (fold upsertEndpoint es us)"
    for u us es
    by (induction es arbitrary: us) (auto simp: upsert_keeps)
  show ?thesis
    using assms
  proof (induction es arbitrary: us)
    case (Cons e es)
    then show ?case using keep[OF upsert_member[of e us]] by auto
  qed simp
qed

lemma upsert_last_in_place:
  "distinct (map endpointKey us) \<Longrightarrow> u \<in> set us \<Longrightarrow> upsertEndpoint u us = us"
proof (induction us)
  case (Cons v us)
  then show ?case by (cases "endpointKey v = endpointKey u") (auto dest: imageI)
qed simp

lemma validateFrom_None: "validateFrom r i es = None \<longleftrightarrow> (\<forall>e\<in>set es. endpointUsable e)"
  by (induction es arbitrary: i) (auto simp: endpointUsable_def)

end
