(* ===== verification/Router_Targets.thy ===== *)
theory Router_Targets
  imports Router_Endpoints
begin

text \<open>
  Durable router targets: the annotation in which an object records every router its
  configuration may be on (\<^verbatim>\<open>router_helpers.go\<close> lines 163 to 220).  The annotation is written
  before the first contact with a router and compacted only after the others were cleaned.
\<close>

definition durableRouterTargets :: "objectMeta \<Rightarrow> string list \<Rightarrow> string list" where
  "durableRouterTargets m additional =
     sort (firstOccs {} (filter (\<lambda>t. t \<noteq> [])
       (map trimSpace (splitOn CHR '','' (mget (omAnnotations m) durableRouterTargetsAnnotation)
                       @ additional))))"

text \<open>What the two annotation updates write, \<open>None\<close> when the annotation is already right.\<close>

definition persistTargets :: "objectMeta \<Rightarrow> string list \<Rightarrow> objectMeta option" where
  "persistTargets m targets =
     (let encoded = joinWith '','' (durableRouterTargets m targets) in
      if mget (omAnnotations m) durableRouterTargetsAnnotation = encoded then None
      else Some (m\<lparr>omAnnotations := mput durableRouterTargetsAnnotation encoded (omAnnotations m)\<rparr>))"

definition compactTargets :: "objectMeta \<Rightarrow> string \<Rightarrow> objectMeta option" where
  "compactTargets m target =
     (if target = [] then
        (if map_of (omAnnotations m) durableRouterTargetsAnnotation = None then None
         else Some (m\<lparr>omAnnotations := mdel durableRouterTargetsAnnotation (omAnnotations m)\<rparr>))
      else if mget (omAnnotations m) durableRouterTargetsAnnotation = target then None
      else Some (m\<lparr>omAnnotations := mput durableRouterTargetsAnnotation target (omAnnotations m)\<rparr>))"

text \<open>The calls: \<open>put\<close> writes the object with the new metadata to the API server.\<close>

definition persistDurableRouterTarget ::
  "(objectMeta \<Rightarrow> ('w, unit) prog) \<Rightarrow> objectMeta \<Rightarrow> string list \<Rightarrow> ('w, bool) prog" where
  "persistDurableRouterTarget put m targets =
     (case persistTargets m targets of
        None \<Rightarrow> returnE False
      | Some m' \<Rightarrow> bindE (put m') (\<lambda>_. returnE True))"

definition compactDurableRouterTarget ::
  "(objectMeta \<Rightarrow> ('w, unit) prog) \<Rightarrow> objectMeta \<Rightarrow> string \<Rightarrow> ('w, bool) prog" where
  "compactDurableRouterTarget put m target =
     (case compactTargets m target of
        None \<Rightarrow> returnE False
      | Some m' \<Rightarrow> bindE (put m') (\<lambda>_. returnE True))"

section \<open>Facts\<close>

text \<open>A target as the operator stores it: trimmed, not empty, no comma.\<close>

definition targetName :: "string \<Rightarrow> bool" where
  "targetName t \<longleftrightarrow> t \<noteq> [] \<and> trimSpace t = t \<and> CHR '','' \<notin> set t"

lemma targets_member:
  "t \<in> set (durableRouterTargets m additional) \<longleftrightarrow>
     t \<noteq> [] \<and> t \<in> trimSpace ` (set (splitOn CHR '','' (mget (omAnnotations m) durableRouterTargetsAnnotation))
       \<union> set additional)"
  by (auto simp: durableRouterTargets_def)

lemma targets_sorted_distinct:
  "sorted (durableRouterTargets m additional)" "distinct (durableRouterTargets m additional)"
  by (simp_all add: durableRouterTargets_def)

lemma targetName_member:
  assumes "t \<in> set (durableRouterTargets m additional)" and "\<forall>a\<in>set additional. CHR '','' \<notin> set a"
  shows "targetName t"
proof -
  from assms(1) obtain p where t: "t \<noteq> []" "t = trimSpace p"
    and p: "p \<in> set (splitOn CHR '','' (mget (omAnnotations m) durableRouterTargetsAnnotation)) \<union> set additional"
    unfolding targets_member by blast
  have "CHR '','' \<notin> set p" using p assms(2) splitOn_parts by blast
  then have "CHR '','' \<notin> set t" unfolding t(2) using set_trimSpace by blast
  with t show ?thesis by (simp add: targetName_def)
qed

lemma targets_of_encoded:
  assumes "\<forall>t\<in>set ts. targetName t" and "sorted ts" and "distinct ts"
    and "mget (omAnnotations m) durableRouterTargetsAnnotation = joinWith '','' ts"
  shows "durableRouterTargets m [] = ts"
proof (cases "ts = []")
  case True
  with assms(4) show ?thesis by (simp add: durableRouterTargets_def)
next
  case False
  have "splitOn CHR '','' (joinWith '','' ts) = ts"
    by (rule splitOn_joinWith[OF False]) (use assms(1) in \<open>auto simp: targetName_def\<close>)
  moreover have "map trimSpace ts = ts"
    using assms(1) by (intro map_idI) (auto simp: targetName_def)
  moreover have "filter (\<lambda>t. t \<noteq> []) ts = ts"
    using assms(1) by (intro filter_True) (auto simp: targetName_def)
  ultimately show ?thesis
    using assms(2-4) by (simp add: durableRouterTargets_def firstOccs_distinct_id sorted_sort_id)
qed

text \<open>What is written is read back: the annotation holds the old targets and the new ones.\<close>

lemma persistTargets_roundtrip:
  assumes "persistTargets m targets = Some m'" and "\<forall>a\<in>set targets. CHR '','' \<notin> set a"
  shows "durableRouterTargets m' [] = durableRouterTargets m targets"
proof -
  let ?ts = "durableRouterTargets m targets"
  from assms(1) have "mget (omAnnotations m') durableRouterTargetsAnnotation = joinWith '','' ?ts"
    by (auto simp: persistTargets_def Let_def split: if_splits)
  then show ?thesis
    using targets_of_encoded[of ?ts m'] targetName_member[OF _ assms(2)] targets_sorted_distinct by blast
qed

lemma persistTargets_noop:
  assumes "persistTargets m targets = Some m'" and "\<forall>a\<in>set targets. CHR '','' \<notin> set a"
    and "set (map trimSpace later) - {[]} \<subseteq> set (durableRouterTargets m targets)"
  shows "persistTargets m' later = None"
proof -
  let ?ts = "durableRouterTargets m targets"
  have enc: "mget (omAnnotations m') durableRouterTargetsAnnotation = joinWith '','' ?ts"
    using assms(1) by (auto simp: persistTargets_def Let_def split: if_splits)
  have rt: "durableRouterTargets m' [] = ?ts" by (rule persistTargets_roundtrip[OF assms(1,2)])
  have "t \<in> set (durableRouterTargets m' later) \<longleftrightarrow> t \<in> set ?ts" for t
  proof -
    have "t \<in> set (durableRouterTargets m' later) \<longleftrightarrow>
        t \<in> set (durableRouterTargets m' []) \<or> (t \<noteq> [] \<and> t \<in> trimSpace ` set later)"
      unfolding targets_member by auto
    then show ?thesis unfolding rt using assms(3) by auto
  qed
  then have "durableRouterTargets m' later = ?ts"
    using targets_sorted_distinct by (metis subsetI subset_antisym sorted_distinct_set_unique)
  then show ?thesis by (simp add: persistTargets_def enc)
qed

text \<open>
  What is recorded on an object is read back: the annotation then names exactly the routers it
  named before and the new ones, in order and without duplicates, none of the old ones is lost, and
  recording the same routers again changes nothing.  Router references contain no comma.
\<close>

theorem router_targets_recorded:
  assumes "persistTargets m targets = Some m'" and "list_all (\<lambda>a. CHR '','' \<notin> set a) targets"
  shows "durableRouterTargets m' [] = durableRouterTargets m targets \<and>
    set (durableRouterTargets m []) \<subseteq> set (durableRouterTargets m' []) \<and>
    sorted (durableRouterTargets m' []) \<and> distinct (durableRouterTargets m' []) \<and>
    persistTargets m' targets = None"
proof -
  have c: "\<forall>a\<in>set targets. CHR '','' \<notin> set a" using assms(2) by (simp add: list_all_iff)
  have "set (map trimSpace targets) - {[]} \<subseteq> set (durableRouterTargets m targets)"
    by (auto simp: targets_member)
  from persistTargets_noop[OF assms(1) c this] persistTargets_roundtrip[OF assms(1) c]
  show ?thesis using targets_sorted_distinct[of m targets] by (auto simp: targets_member)
qed

theorem router_targets_recorded_witness:
  "\<exists>m'. persistTargets (newMeta ''lab'' ''app'') [''home'', ''edge/office''] = Some m' \<and>
     durableRouterTargets m' [] = [''edge/office'', ''home''] \<and> persistTargets m' [''home'', ''edge/office''] = None"
proof -
  obtain m' where m': "persistTargets (newMeta ''lab'' ''app'') [''home'', ''edge/office''] = Some m'"
  proof (cases "persistTargets (newMeta ''lab'' ''app'') [''home'', ''edge/office'']")
    case None
    moreover have "persistTargets (newMeta ''lab'' ''app'') [''home'', ''edge/office''] \<noteq> None" by code_simp
    ultimately show ?thesis by simp
  qed
  have "durableRouterTargets (newMeta ''lab'' ''app'') [''home'', ''edge/office''] = [''edge/office'', ''home'']" by code_simp
  with router_targets_recorded[OF m'] m' show ?thesis by auto
qed

end
