(* ===== verification/Router_Connect.thy ===== *)
theory Router_Connect
  imports Router_Targets
begin

text \<open>
  Connections to the endpoints of a router and the operations run over them
  (\<^verbatim>\<open>router_helpers.go\<close> lines 222 to 258 and 308 to 353, \<^verbatim>\<open>router_fence.go\<close> lines 79 to 113).
\<close>

record 'w routerConnection =
  cnEndpoint :: routerEndpoint
  cnClient :: "'w rosClient"

text \<open>Closing logs the errors and goes on.\<close>

definition closeRouterConnections :: "'w routerConnection list \<Rightarrow> ('w, unit) prog" where
  "closeRouterConnections connections =
     forE (\<lambda>connection. tryE (rcClose (cnClient connection)) (\<lambda>_. returnE ())) connections"

definition invalidEndpointErr :: "router \<Rightarrow> goerr" where
  "invalidEndpointErr r = Opaque (''MikroTikRouter '' @ routerName r @ '' has an invalid endpoint'')"

fun connectFrom ::
  "'w env \<Rightarrow> router \<Rightarrow> 'w routerConnection list \<Rightarrow> routerEndpoint list \<Rightarrow> ('w, 'w routerConnection list) prog" where
  "connectFrom env r connections [] = returnE connections"
| "connectFrom env r connections (endpoint # endpoints) =
     (if trimSpace (epAddress endpoint) = [] \<or> trimSpace (epCredentialsSecret endpoint) = []
      then failE (invalidEndpointErr r)
      else tryE (kGetSecret env (mkName (omNamespace (routerMeta r)) (epCredentialsSecret endpoint))) (\<lambda>s.
        case s of
          Inl err \<Rightarrow> bindE (closeRouterConnections connections) (\<lambda>_. failE err)
        | Inr secret \<Rightarrow>
            tryE (kFactory env (epAddress endpoint) (epPort endpoint) (epTLS endpoint)
                    (mget secret ''username'') (mget secret ''password'')) (\<lambda>c.
              case c of
                Inl err \<Rightarrow> bindE (closeRouterConnections connections) (\<lambda>_. failE err)
              | Inr client \<Rightarrow>
                  connectFrom env r (connections @ [\<lparr>cnEndpoint = endpoint, cnClient = client\<rparr>]) endpoints)))"

definition connectRouterClients :: "'w env \<Rightarrow> router \<Rightarrow> ('w, 'w routerConnection list) prog" where
  "connectRouterClients env r = connectFrom env r [] (routerEndpoints r)"

text \<open>The router whose endpoints are the given ones, as the callers build it for cleanups.\<close>

definition withEndpoints :: "router \<Rightarrow> routerEndpoint list \<Rightarrow> router" where
  "withEndpoints r endpoints =
     r\<lparr>routerSpecOf := (routerSpecOf r)\<lparr>rsRouters := endpoints, rsAddress := []\<rparr>\<rparr>"

definition withConnections ::
  "'w env \<Rightarrow> router \<Rightarrow> ('w routerConnection list \<Rightarrow> ('w, 'a) prog) \<Rightarrow> ('w, 'a) prog" where
  "withConnections env r operation =
     bindE (connectRouterClients env r) (\<lambda>connections.
       deferE (operation connections) (closeRouterConnections connections))"

definition withRouterConnections ::
  "'w env \<Rightarrow> nsname \<Rightarrow> bool \<Rightarrow> (router \<Rightarrow> 'w routerConnection list \<Rightarrow> ('w, unit) prog) \<Rightarrow> ('w, unit) prog" where
  "withRouterConnections env key0 requireActive operation =
     (let key = normalizeRouterLookupKey key0 in
      withFence (kFence env) (kUnfence env) key
        (bindE (getMikroTikRouter env key) (\<lambda>router.
          if requireActive
          then bindE (ensureRouterActive env router) (\<lambda>_.
                 withConnections env router (operation router))
          else let endpoints = routerCleanupEndpoints router in
            if endpoints = [] then operation router []
            else withConnections env (withEndpoints router endpoints) (operation router))))"

definition forConnections ::
  "('w rosClient \<Rightarrow> ('w, unit) prog) \<Rightarrow> router \<Rightarrow> 'w routerConnection list \<Rightarrow> ('w, unit) prog" where
  "forConnections f r connections = forE (\<lambda>connection. f (cnClient connection)) connections"

definition cleanupTarget ::
  "'w env \<Rightarrow> string \<Rightarrow> string \<Rightarrow> ('w rosClient \<Rightarrow> ('w, unit) prog) \<Rightarrow> string \<Rightarrow> ('w, unit) prog" where
  "cleanupTarget env namespace exclude cleanup target =
     (let key = routerKeyFromRef namespace target in
      if target = [] \<or> target = exclude then returnE ()
      else if nsName key = [] then returnE ()
      else if exclude \<noteq> [] \<and> key = routerKeyFromRef namespace exclude then returnE ()
      else tryE (withRouterConnections env key False (forConnections cleanup)) (\<lambda>r.
        case r of
          Inr _ \<Rightarrow> returnE ()
        | Inl err \<Rightarrow> (if isNotFound err then returnE () else failE err)))"

definition cleanupRouterTargets ::
  "'w env \<Rightarrow> string \<Rightarrow> string list \<Rightarrow> string \<Rightarrow> ('w rosClient \<Rightarrow> ('w, unit) prog) \<Rightarrow> ('w, unit) prog" where
  "cleanupRouterTargets env namespace targets exclude cleanup =
     forE (cleanupTarget env namespace exclude cleanup) targets"

section \<open>Facts\<close>

lemma routerEndpoints_withEndpoints:
  "es \<noteq> [] \<Longrightarrow> routerEndpoints (withEndpoints r es) = es"
  by (simp add: routerEndpoints_def withEndpoints_def Let_def)

lemma closeRouterConnections_ok: "\<exists>w'. closeRouterConnections cs w = (Inr (), w')"
proof (induction cs arbitrary: w)
  case Nil
  then show ?case by (simp add: closeRouterConnections_def)
next
  case (Cons c cs)
  obtain r w1 where "rcClose (cnClient c) w = (r, w1)" by force
  with Cons[of w1] show ?case by (auto simp: closeRouterConnections_def bindE_def tryE_def)
qed

end
