(* ===== verification/Router_Reconcile.thy ===== *)
theory Router_Reconcile
  imports Router_Connect
begin

text \<open>
  \<^verbatim>\<open>RouterReconciler\<close>: validates the endpoints of a router, records them before the first contact,
  sweeps endpoints that were removed, keeps the connection status, and sweeps every endpoint it
  owns before it lets the router go (\<^verbatim>\<open>router_controller.go\<close> lines 39 to 279).
\<close>

definition nowE :: "'w env \<Rightarrow> ('w, int) prog" where
  "nowE env = readE (\<lambda>w. Inr (kNow env w))"

text \<open>The status is written only when it differs from the one that was read.\<close>

definition putStatus :: "('w, 'o) store \<Rightarrow> bool \<Rightarrow> 'o \<Rightarrow> result \<Rightarrow> ('w, result) prog" where
  "putStatus st unchanged new r =
     (if unchanged then returnE r else bindE (stUpdateStatus st new) (\<lambda>_. returnE r))"

definition failRouter :: "'w env \<Rightarrow> router \<Rightarrow> goerr \<Rightarrow> ('w, result) prog" where
  "failRouter env r err =
     bindE (nowE env) (\<lambda>t.
       let st = routerStatusOf r;
           st' = st\<lparr>rtConnected := False,
                    rtConditions := readyCondition t (rtConditions st) ConditionFalse ''ConnectionFailed'' (errorText err)\<rparr>
       in putStatus (kRouters env) (st' = st) (r\<lparr>routerStatusOf := st'\<rparr>) retryMinute)"

definition deleteManagedConfiguration :: "'w rosClient \<Rightarrow> ('w, unit) prog" where
  "deleteManagedConfiguration c = DeleteManagedConfiguration (rcRun c)"

fun unclaimedEndpoints :: "'w env \<Rightarrow> router \<Rightarrow> routerEndpoint list \<Rightarrow> ('w, routerEndpoint list) prog" where
  "unclaimedEndpoints env r [] = returnE []"
| "unclaimedEndpoints env r (e # es) =
     bindE (endpointClaimedByOtherRouter env r e) (\<lambda>claimed.
       bindE (unclaimedEndpoints env r es) (\<lambda>rest.
         returnE (if claimed then rest else e # rest)))"

definition reconcileDeletionLocked :: "'w env \<Rightarrow> router \<Rightarrow> ('w, result) prog" where
  "reconcileDeletionLocked env r =
     (if \<not> containsFinalizer (routerMeta r) resourceFinalizer then returnE noRequeue
      else let endpoints = routerCleanupEndpoints r;
               release = thenReturn (stUpdate (kRouters env)
                           (r\<lparr>routerMeta := removeFinalizer resourceFinalizer (routerMeta r)\<rparr>)) noRequeue
           in if endpoints = [] then release
              else bindE (unclaimedEndpoints env r endpoints) (\<lambda>owned.
                if owned = [] then release
                else withConnections env (withEndpoints r owned) (\<lambda>connections.
                  bindE (forConnections deleteManagedConfiguration r connections) (\<lambda>_. release))))"

definition reconcileDeletion :: "'w env \<Rightarrow> router \<Rightarrow> ('w, result) prog" where
  "reconcileDeletion env r =
     (let key = routerKey r in
      withFence (kFence env) (kUnfence env) key
        (getOrIgnore (stGet (kRouters env) key) (\<lambda>fresh.
          if \<not> isDeleting (routerMeta fresh) then returnE noRequeue
          else reconcileDeletionLocked env fresh)))"

fun cleanupRemovedFrom :: "'w env \<Rightarrow> router \<Rightarrow> string list \<Rightarrow> routerEndpoint list \<Rightarrow> ('w, unit) prog" where
  "cleanupRemovedFrom env r current [] = returnE ()"
| "cleanupRemovedFrom env r current (e # es) =
     (if trimSpace (epAddress e) = [] \<or> trimSpace (epCredentialsSecret e) = []
      then cleanupRemovedFrom env r current es
      else if endpointKey e \<in> set current then cleanupRemovedFrom env r current es
      else bindE (endpointClaimedByOtherRouter env r e) (\<lambda>claimed.
        if claimed then cleanupRemovedFrom env r current es
        else withConnections env (withEndpoints r [e]) (\<lambda>connections.
          bindE (forConnections deleteManagedConfiguration r connections) (\<lambda>_.
            cleanupRemovedFrom env r current es))))"

definition cleanupRemovedEndpoints :: "'w env \<Rightarrow> router \<Rightarrow> ('w, unit) prog" where
  "cleanupRemovedEndpoints env r =
     cleanupRemovedFrom env r (map endpointKey (routerEndpoints r)) (rtAppliedEndpoints (routerStatusOf r))"

text \<open>How the part under the fence ends: an error to report on an object, an error of a
  finalization, or a result.\<close>

datatype lockedOutcome = LockedFail goerr router | LockedFinal goerr | LockedOk result

definition orFail :: "router \<Rightarrow> ('w, 'a) prog \<Rightarrow> ('a \<Rightarrow> ('w, lockedOutcome) prog) \<Rightarrow> ('w, lockedOutcome) prog" where
  "orFail r m f = tryE m (\<lambda>x. case x of Inl e \<Rightarrow> returnE (LockedFail e r) | Inr y \<Rightarrow> f y)"

definition connectedRouter :: "int \<Rightarrow> router \<Rightarrow> router" where
  "connectedRouter t r =
     r\<lparr>routerStatusOf := (routerStatusOf r)\<lparr>rtConnected := True,
        rtAppliedEndpoints := routerEndpoints r,
        rtConditions := readyCondition t (rtConditions (routerStatusOf r)) ConditionTrue
          ''Connected'' ''Connected to RouterOS''\<rparr>\<rparr>"

definition reconcileLocked :: "'w env \<Rightarrow> nsname \<Rightarrow> router \<Rightarrow> ('w, lockedOutcome) prog" where
  "reconcileLocked env key obj =
     orFail obj (stGet (kRouters env) key) (\<lambda>r.
       if isDeleting (routerMeta r)
       then tryE (reconcileDeletionLocked env r) (\<lambda>x.
              case x of Inl e \<Rightarrow> returnE (LockedFinal e) | Inr res \<Rightarrow> returnE (LockedOk res))
       else orFail r (ensureRouterEndpointOwnership env r) (\<lambda>_.
         orFail r (cleanupRemovedEndpoints env r) (\<lambda>_.
           let current = routerEndpoints r in
           if rtAppliedEndpoints (routerStatusOf r) \<noteq> current
           then let r' = r\<lparr>routerStatusOf := (routerStatusOf r)\<lparr>rtAppliedEndpoints := current\<rparr>\<rparr> in
             orFail r' (stUpdateStatus (kRouters env) r') (\<lambda>_. returnE (LockedOk noRequeue))
           else orFail r (connectRouterClients env r) (\<lambda>connections.
             deferE
               (bindE (nowE env) (\<lambda>t.
                  let r' = connectedRouter t r in
                  if routerStatusOf r' = routerStatusOf r then returnE (LockedOk driftCheckInterval)
                  else orFail r' (stUpdateStatus (kRouters env) r') (\<lambda>_. returnE (LockedOk driftCheckInterval))))
               (closeRouterConnections connections)))))"

definition RouterReconcile :: "'w env \<Rightarrow> nsname \<Rightarrow> ('w, result) prog" where
  "RouterReconcile env key =
     getOrIgnore (stGet (kRouters env) key) (\<lambda>obj.
       if isDeleting (routerMeta obj) then reconcileDeletion env obj
       else case validateRouterEndpoints obj of
         Some err \<Rightarrow> failRouter env obj err
       | None \<Rightarrow>
         if \<not> containsFinalizer (routerMeta obj) resourceFinalizer
         then thenReturn (stUpdate (kRouters env)
                (obj\<lparr>routerMeta := addFinalizer resourceFinalizer (routerMeta obj)\<rparr>)) noRequeue
         else tryE (ensureRouterEndpointOwnership env obj) (\<lambda>own. case own of
           Inl err \<Rightarrow> failRouter env obj err
         | Inr _ \<Rightarrow>
           let history = durableRouterEndpointUnion (rtAppliedEndpoints (routerStatusOf obj)) (routerEndpoints obj) in
           if history \<noteq> rtAppliedEndpoints (routerStatusOf obj)
           then thenReturn (stUpdateStatus (kRouters env)
                  (obj\<lparr>routerStatusOf := (routerStatusOf obj)\<lparr>rtAppliedEndpoints := history\<rparr>\<rparr>)) noRequeue
           else tryE (withFence (kFence env) (kUnfence env) key (reconcileLocked env key obj)) (\<lambda>x. case x of
                  Inl err \<Rightarrow> failRouter env obj err
                | Inr (LockedFail err r) \<Rightarrow> failRouter env r err
                | Inr (LockedFinal err) \<Rightarrow> failE err
                | Inr (LockedOk res) \<Rightarrow> returnE res)))"

end
