(* ===== verification/Go_Sha1.thy ===== *)
theory Go_Sha1
  imports Go_Strings "HOL-Library.Word"
begin

text \<open>
  \<^verbatim>\<open>crypto/sha1\<close> and \<^verbatim>\<open>encoding/hex\<close> as the operator uses them: the names of generated children carry
  the first bytes of a SHA-1 digest in hexadecimal.
\<close>

unbundle bit_operations_syntax

type_synonym w32 = "32 word"

definition rotl :: "nat \<Rightarrow> w32 \<Rightarrow> w32" where
  "rotl n x = (push_bit n x) OR (drop_bit (32 - n) x)"

section \<open>Padding\<close>

definition bytesOf :: "string \<Rightarrow> w32 list" where
  "bytesOf s = map of_char s"

text \<open>The message, a one bit, zeros, and the length in bits as eight bytes.\<close>

definition lengthBytes :: "nat \<Rightarrow> w32 list" where
  "lengthBytes n = map (\<lambda>i. word_of_int ((8 * int n) div 256 ^ i mod 256)) [7, 6, 5, 4, 3, 2, 1, 0]"

definition sha1Pad :: "w32 list \<Rightarrow> w32 list" where
  "sha1Pad bs =
     bs @ [128] @ replicate ((119 - length bs mod 64) mod 64) 0 @ lengthBytes (length bs)"

fun wordsOf :: "w32 list \<Rightarrow> w32 list" where
  "wordsOf (a # b # c # d # bs) =
     (push_bit 24 a OR push_bit 16 b OR push_bit 8 c OR d) # wordsOf bs"
| "wordsOf _ = []"

fun blocksOf :: "nat \<Rightarrow> w32 list \<Rightarrow> w32 list list" where
  "blocksOf 0 ws = []"
| "blocksOf (Suc n) ws = (if ws = [] then [] else take 16 ws # blocksOf n (drop 16 ws))"

section \<open>Compression\<close>

text \<open>The schedule is built backwards: the newest word first.\<close>

fun extendSchedule :: "nat \<Rightarrow> w32 list \<Rightarrow> w32 list" where
  "extendSchedule 0 ws = ws"
| "extendSchedule (Suc n) ws =
     extendSchedule n (rotl 1 (ws ! 2 XOR ws ! 7 XOR ws ! 13 XOR ws ! 15) # ws)"

definition schedule :: "w32 list \<Rightarrow> w32 list" where
  "schedule block = rev (extendSchedule 64 (rev block))"

definition roundFun :: "nat \<Rightarrow> w32 \<Rightarrow> w32 \<Rightarrow> w32 \<Rightarrow> w32 \<times> w32" where
  "roundFun t b c d =
     (if t < 20 then ((b AND c) OR (NOT b AND d), 0x5A827999)
      else if t < 40 then (b XOR c XOR d, 0x6ED9EBA1)
      else if t < 60 then ((b AND c) OR (b AND d) OR (c AND d), 0x8F1BBCDC)
      else (b XOR c XOR d, 0xCA62C1D6))"

type_synonym sha1State = "w32 \<times> w32 \<times> w32 \<times> w32 \<times> w32"

definition sha1Round :: "nat \<times> w32 \<Rightarrow> sha1State \<Rightarrow> sha1State" where
  "sha1Round tw st =
     (case tw of (t, w) \<Rightarrow> case st of (a, b, c, d, e) \<Rightarrow>
        (case roundFun t b c d of (f, k) \<Rightarrow> (rotl 5 a + f + e + k + w, a, rotl 30 b, c, d)))"

definition sha1Block :: "w32 list \<Rightarrow> sha1State \<Rightarrow> sha1State" where
  "sha1Block block st =
     (case fold sha1Round (zip [0..<80] (schedule block)) st of (a, b, c, d, e) \<Rightarrow>
        (case st of (h0, h1, h2, h3, h4) \<Rightarrow> (h0 + a, h1 + b, h2 + c, h3 + d, h4 + e)))"

definition sha1Init :: sha1State where
  "sha1Init = (0x67452301, 0xEFCDAB89, 0x98BADCFE, 0x10325476, 0xC3D2E1F0)"

definition sha1 :: "string \<Rightarrow> w32 list" where
  "sha1 s =
     (let ws = wordsOf (sha1Pad (bytesOf s)) in
      case fold sha1Block (blocksOf (length ws) ws) sha1Init of (a, b, c, d, e) \<Rightarrow> [a, b, c, d, e])"

section \<open>Hexadecimal\<close>

definition hexNibble :: "int \<Rightarrow> char" where
  "hexNibble n = char_of (if n < 10 then 48 + n else 87 + n)"

definition hexWord :: "w32 \<Rightarrow> string" where
  "hexWord w = map (\<lambda>i. hexNibble (uint w div 16 ^ i mod 16)) [7, 6, 5, 4, 3, 2, 1, 0]"

definition hexEncode :: "w32 list \<Rightarrow> string" where
  "hexEncode ws = concat (map hexWord ws)"

lemma length_hexWord [simp]: "length (hexWord w) = 8"
  by (simp add: hexWord_def)

lemma length_sha1 [simp]: "length (sha1 s) = 5"
  by (simp add: sha1_def Let_def split: prod.splits)

lemma length_hexEncode: "length (hexEncode ws) = 8 * length ws"
  by (induction ws) (simp_all add: hexEncode_def)

end
