(* ===== verification/Cluster_Routes.thy ===== *)
theory Cluster_Routes
  imports Router_Connect Go_Sha1
begin

text \<open>
  Routes to ClusterIP services (\<^verbatim>\<open>cluster_routes.go\<close> and \<^verbatim>\<open>router_controller.go\<close> lines 2532 to 2573):
  which gateways a service is reached through on each endpoint of a router, the MikroTikRoute
  children that record them, and the reconciliation of those children with their owner.
\<close>

section \<open>Owners and children\<close>

datatype ownerKind = OwnDNS | OwnForward | OwnService | OwnIngress | OwnHTTPRoute

record ownerObj =
  ooKind :: ownerKind
  ooTypeKind :: string
  ooMeta :: objectMeta

fun kindName :: "ownerKind \<Rightarrow> string" where
  "kindName OwnDNS = ''MikroTikDNSRecord''"
| "kindName OwnForward = ''MikroTikPortForward''"
| "kindName OwnService = ''Service''"
| "kindName OwnIngress = ''Ingress''"
| "kindName OwnHTTPRoute = ''HTTPRoute''"

section \<open>Labels and names\<close>

definition clusterRouteSourceLabel :: string where
  "clusterRouteSourceLabel = ''mikrotik.operator.io/route-source''"
definition clusterRouteOriginLabel :: string where
  "clusterRouteOriginLabel = ''mikrotik.operator.io/cluster-route-origin''"
definition clusterRouteOriginOverride :: string where
  "clusterRouteOriginOverride = ''override''"
definition clusterRouteOriginNodes :: string where
  "clusterRouteOriginNodes = ''nodes''"
definition clusterRouteOriginBoth :: string where
  "clusterRouteOriginBoth = ''both''"

lemmas origins = clusterRouteOriginOverride_def clusterRouteOriginNodes_def clusterRouteOriginBoth_def

definition shortHash :: "string \<Rightarrow> string" where
  "shortHash value = take 16 (hexEncode (sha1 value))"

definition clusterRouteSourceValue :: "string \<Rightarrow> string \<Rightarrow> string" where
  "clusterRouteSourceValue namespace sourceName = shortHash (namespace @ ''/'' @ sourceName)"

definition isClusterIPService :: "service \<Rightarrow> bool" where
  "isClusterIPService s \<longleftrightarrow> svType s = [] \<or> svType s = ServiceTypeClusterIP"

definition serviceWantsClusterRoute :: "service \<Rightarrow> bool" where
  "serviceWantsClusterRoute s =
     (if mget (omAnnotations (svMeta s)) DNSNameAnnotation = [] then False
      else if \<not> isClusterIPService s then False
      else svClusterIP s \<noteq> [] \<and> svClusterIP s \<noteq> ClusterIPNone)"

definition translatorOwnsGeneratedChildren :: "objectMeta \<Rightarrow> bool" where
  "translatorOwnsGeneratedChildren m =
     list_ex (\<lambda>r. orController r = Some True \<and> orKind r \<in> set [''Service'', ''Ingress'', ''HTTPRoute''])
       (omOwnerReferences m)"

section \<open>Gateways\<close>

definition nodeInternalIP :: "node \<Rightarrow> string option" where
  "nodeInternalIP n =
     map_option naAddress (find (\<lambda>a. naType a = NodeInternalIP \<and> naAddress a \<noteq> []) (nodeAddresses n))"

fun collectGateways :: "bool \<Rightarrow> string list \<Rightarrow> node list \<Rightarrow> string list" where
  "collectGateways singleNode gateways [] = gateways"
| "collectGateways singleNode gateways (n # ns) =
     (let gateways = (case nodeInternalIP n of Some a \<Rightarrow> gateways @ [a] | None \<Rightarrow> gateways) in
      if singleNode \<and> gateways \<noteq> [] then gateways else collectGateways singleNode gateways ns)"

definition routeGateways :: "'w env \<Rightarrow> service \<Rightarrow> ('w, string list) prog" where
  "routeGateways env s =
     (let mode = mget (omAnnotations (svMeta s)) RouteModeAnnotation in
      if mode \<noteq> [] \<and> mode \<noteq> ''all-nodes'' \<and> mode \<noteq> ''single-node''
      then failE (Opaque (''unsupported '' @ RouteModeAnnotation @ '' value '' @ goQuote mode
                          @ ''; use all-nodes or single-node''))
      else bindE (kListNodes env) (\<lambda>nodes.
        let unique = remdups_adj (sort (collectGateways (mode = ''single-node'') [] nodes)) in
        if unique = []
        then failE (Opaque (''no node InternalIP found for service '' @ omNamespace (svMeta s) @ ''/'' @ omName (svMeta s)))
        else returnE unique))"

definition endpointRouteGateway :: "routerEndpoint \<Rightarrow> router \<Rightarrow> string" where
  "endpointRouteGateway e r =
     (if epRouteGateway e \<noteq> [] then epRouteGateway e else rsRouteGateway (routerSpecOf r))"

definition clusterRouteAppliesToEndpoint :: "string \<Rightarrow> string \<Rightarrow> routerEndpoint \<Rightarrow> router \<Rightarrow> bool" where
  "clusterRouteAppliesToEndpoint gateway origin e r =
     (let want = endpointRouteGateway e r in
      if want \<noteq> [] then gateway = want
      else origin = clusterRouteOriginNodes \<or> origin = clusterRouteOriginBoth)"

definition mergeClusterRouteOrigin :: "string \<Rightarrow> string \<Rightarrow> string" where
  "mergeClusterRouteOrigin existing added =
     (if existing = [] \<or> existing = added then added else clusterRouteOriginBoth)"

text \<open>Hops in order, each gateway with its origin.\<close>

type_synonym hops = "(string \<times> string) list"

definition hopsWithOrigin :: "string list \<Rightarrow> string \<Rightarrow> hops" where
  "hopsWithOrigin gateways origin = map (\<lambda>g. (g, origin)) gateways"

definition addHop :: "string \<Rightarrow> string \<Rightarrow> hops \<Rightarrow> hops" where
  "addHop origin value hops =
     (if value = [] then hops
      else case map_of hops value of
             Some existing \<Rightarrow> mput value (mergeClusterRouteOrigin existing origin) hops
           | None \<Rightarrow> hops @ [(value, origin)])"

definition addHops :: "string list \<Rightarrow> string \<Rightarrow> hops \<Rightarrow> hops" where
  "addHops values origin hops = fold (addHop origin) values hops"

text \<open>The node list is read once, when the first endpoint needs it.\<close>

definition loadNodes :: "'w env \<Rightarrow> service \<Rightarrow> string list option \<Rightarrow> ('w, string list) prog" where
  "loadNodes env s cache = (case cache of Some nodes \<Rightarrow> returnE nodes | None \<Rightarrow> routeGateways env s)"

fun hopsFrom ::
  "'w env \<Rightarrow> service \<Rightarrow> router \<Rightarrow> string list option \<Rightarrow> hops \<Rightarrow> routerEndpoint list \<Rightarrow> ('w, hops) prog" where
  "hopsFrom env s r cache hops [] =
     (if hops = []
      then bindE (loadNodes env s cache) (\<lambda>nodes. returnE (addHops nodes clusterRouteOriginNodes hops))
      else returnE hops)"
| "hopsFrom env s r cache hops (e # es) =
     (let want = endpointRouteGateway e r in
      if want \<noteq> [] then hopsFrom env s r cache (addHops [want] clusterRouteOriginOverride hops) es
      else bindE (loadNodes env s cache) (\<lambda>nodes.
        hopsFrom env s r (Some nodes) (addHops nodes clusterRouteOriginNodes hops) es))"

definition desiredClusterRouteHops :: "'w env \<Rightarrow> service \<Rightarrow> router \<Rightarrow> ('w, hops) prog" where
  "desiredClusterRouteHops env s r = hopsFrom env s r None [] (routerEndpoints r)"

definition clusterRouteHops :: "'w env \<Rightarrow> service \<Rightarrow> string \<Rightarrow> string \<Rightarrow> ('w, hops) prog" where
  "clusterRouteHops env s ownerNamespace routerRef =
     (if routerRef = []
      then bindE (routeGateways env s) (\<lambda>nodes. returnE (hopsWithOrigin nodes clusterRouteOriginNodes))
      else let key = routerKeyFromRef ownerNamespace routerRef in
        tryE (getMikroTikRouter env key) (\<lambda>x. case x of
          Inl err \<Rightarrow>
            (if isNotFound err
             then failE (Wrapped (''MikroTikRouter '' @ nsNamespace key @ ''/'' @ nsName key @ '' not found: ''
                                  @ errorText err) [err])
             else failE err)
        | Inr router \<Rightarrow> desiredClusterRouteHops env s router))"

definition clusterRouteGateways :: "'w env \<Rightarrow> service \<Rightarrow> string \<Rightarrow> string \<Rightarrow> ('w, string list) prog" where
  "clusterRouteGateways env s ownerNamespace routerRef =
     bindE (clusterRouteHops env s ownerNamespace routerRef) (\<lambda>hops. returnE (map fst hops))"

section \<open>Children\<close>

record clusterRouteRequest =
  crOwner :: ownerObj
  crSourceName :: string
  crNamespace :: string
  crRouterRef :: string
  crServices :: "service list"

record clusterRouteCandidate =
  ccName :: string
  ccDestination :: string
  ccGateway :: string
  ccOrigin :: string

definition candidateName :: "clusterRouteRequest \<Rightarrow> service \<Rightarrow> string \<Rightarrow> string \<Rightarrow> string" where
  "candidateName req s destination gateway =
     ''rt-'' @ shortHash (crNamespace req @ ''/'' @ crSourceName req @ ''/'' @ omNamespace (svMeta s) @ ''/''
                         @ omName (svMeta s) @ ''/'' @ destination @ ''/'' @ gateway)"

definition hopCandidates :: "clusterRouteRequest \<Rightarrow> service \<Rightarrow> hops \<Rightarrow> clusterRouteCandidate list" where
  "hopCandidates req s hops =
     map (\<lambda>(g, origin). \<lparr>ccName = candidateName req s (svClusterIP s @ ''/32'') g,
            ccDestination = svClusterIP s @ ''/32'', ccGateway = g, ccOrigin = origin\<rparr>) hops"

fun addCandidates :: "clusterRouteCandidate list \<Rightarrow> clusterRouteCandidate list \<Rightarrow> clusterRouteCandidate list" where
  "addCandidates acc [] = acc"
| "addCandidates acc (c # cs) =
     (if ccName c \<in> ccName ` set acc then addCandidates acc cs else addCandidates (acc @ [c]) cs)"

fun candidatesFrom ::
  "'w env \<Rightarrow> clusterRouteRequest \<Rightarrow> clusterRouteCandidate list \<Rightarrow> service list \<Rightarrow> ('w, clusterRouteCandidate list) prog" where
  "candidatesFrom env req acc [] = returnE acc"
| "candidatesFrom env req acc (s # ss) =
     (if \<not> isClusterIPService s then candidatesFrom env req acc ss
      else if svClusterIP s = [] \<or> svClusterIP s = ClusterIPNone then candidatesFrom env req acc ss
      else bindE (clusterRouteHops env s (crNamespace req) (crRouterRef req)) (\<lambda>hops.
        candidatesFrom env req (addCandidates acc (hopCandidates req s hops)) ss))"

definition desiredClusterRouteCandidates ::
  "'w env \<Rightarrow> clusterRouteRequest \<Rightarrow> ('w, clusterRouteCandidate list) prog" where
  "desiredClusterRouteCandidates env req = candidatesFrom env req [] (crServices req)"

definition emptyRouteStatus :: routeStatus where
  "emptyRouteStatus = \<lparr>otApplied = False, otRouterRef = [], otConditions = []\<rparr>"

definition newClusterRoute :: "'w env \<Rightarrow> clusterRouteRequest \<Rightarrow> clusterRouteCandidate \<Rightarrow> goerr + route" where
  "newClusterRoute env req c =
     (let m = (newMeta (crNamespace req) (ccName c))\<lparr>omLabels :=
                [(clusterRouteSourceLabel, clusterRouteSourceValue (crNamespace req) (crSourceName req)),
                 (clusterRouteOriginLabel, ccOrigin c)]\<rparr>
      in case kSetOwner env (kindName (ooKind (crOwner req))) (ooMeta (crOwner req)) m of
           Inl e \<Rightarrow> Inl e
         | Inr m' \<Rightarrow> Inr \<lparr>routeMeta = m',
             routeSpecOf = \<lparr>osRouterRef = crRouterRef req, osDestination = ccDestination c,
                            osGateway = ccGateway c, osDistance = 0\<rparr>,
             routeStatusOf = emptyRouteStatus\<rparr>)"

definition updatedClusterRoute :: "clusterRouteRequest \<Rightarrow> clusterRouteCandidate \<Rightarrow> route \<Rightarrow> route" where
  "updatedClusterRoute req c r =
     r\<lparr>routeMeta := (routeMeta r)\<lparr>omLabels :=
          mput clusterRouteOriginLabel (ccOrigin c)
            (mput clusterRouteSourceLabel (clusterRouteSourceValue (crNamespace req) (crSourceName req))
              (omLabels (routeMeta r)))\<rparr>,
       routeSpecOf := (routeSpecOf r)\<lparr>osRouterRef := crRouterRef req,
          osDestination := ccDestination c, osGateway := ccGateway c\<rparr>\<rparr>"

definition applyCandidate :: "'w env \<Rightarrow> clusterRouteRequest \<Rightarrow> clusterRouteCandidate \<Rightarrow> ('w, unit) prog" where
  "applyCandidate env req c =
     tryE (stGet (kRoutes env) (mkName (crNamespace req) (ccName c))) (\<lambda>x. case x of
       Inl err \<Rightarrow>
         (if isNotFound err then
            (case newClusterRoute env req c of
               Inl e \<Rightarrow> failE e
             | Inr r \<Rightarrow> tryE (stCreate (kRoutes env) r) (\<lambda>y. case y of
                 Inl e \<Rightarrow> (if isAlreadyExists e then returnE () else failE e)
               | Inr _ \<Rightarrow> returnE ()))
          else failE err)
     | Inr r \<Rightarrow>
         (if \<not> isControlledBy (routeMeta r) (ooMeta (crOwner req))
          then failE (Opaque (''route '' @ omNamespace (routeMeta r) @ ''/'' @ omName (routeMeta r)
                 @ '' already exists and is not owned by '' @ ooTypeKind (crOwner req) @ '' ''
                 @ omNamespace (ooMeta (crOwner req)) @ ''/'' @ omName (ooMeta (crOwner req))))
          else if osRouterRef (routeSpecOf r) = crRouterRef req
               \<and> osDestination (routeSpecOf r) = ccDestination c
               \<and> osGateway (routeSpecOf r) = ccGateway c
               \<and> mget (omLabels (routeMeta r)) clusterRouteOriginLabel = ccOrigin c
          then returnE ()
          else voidE (stUpdate (kRoutes env) (updatedClusterRoute req c r))))"

text \<open>\<^verbatim>\<open>Delete\<close> with a missing object ignored.\<close>

definition deleteIgnoringMissing :: "('w, 'o) store \<Rightarrow> 'o \<Rightarrow> ('w, unit) prog" where
  "deleteIgnoringMissing st o' =
     tryE (stDelete st o') (\<lambda>x. case x of
       Inl e \<Rightarrow> (if isNotFound e then returnE () else failE e) | Inr _ \<Rightarrow> returnE ())"

definition reconcileOwnedClusterRoutes :: "'w env \<Rightarrow> clusterRouteRequest \<Rightarrow> ('w, unit) prog" where
  "reconcileOwnedClusterRoutes env req =
     bindE (desiredClusterRouteCandidates env req) (\<lambda>candidates.
       bindE (stList (kRoutes env) (crNamespace req)) (\<lambda>existing.
         bindE (forE (applyCandidate env req) candidates) (\<lambda>_.
           forE (\<lambda>r.
             if omName (routeMeta r) \<in> ccName ` set candidates
                \<or> \<not> isControlledBy (routeMeta r) (ooMeta (crOwner req))
             then returnE ()
             else deleteIgnoringMissing (kRoutes env) r) existing)))"

definition deleteLabeledClusterRoutes :: "'w env \<Rightarrow> string \<Rightarrow> string \<Rightarrow> ('w, unit) prog" where
  "deleteLabeledClusterRoutes env namespace sourceName =
     bindE (stList (kRoutes env) namespace) (\<lambda>routes.
       forE (deleteIgnoringMissing (kRoutes env))
         (filter (\<lambda>r. map_of (omLabels (routeMeta r)) clusterRouteSourceLabel
                        = Some (clusterRouteSourceValue namespace sourceName)) routes))"

end
