(* ===== verification/Config_Reconcile.thy ===== *)
theory Config_Reconcile
  imports Router_Reconcile Cluster_Routes
begin

text \<open>
  The reconcilers of MikroTikRoute and MikroTikFirewallRule
  (\<^verbatim>\<open>router_controller.go\<close> lines 2580 to 2698 and 2714 to 2839), and the steps the four
  configuration kinds share: recording the routers an object targets before the first contact,
  leaving routers it no longer targets, and giving up the finalizer last.
\<close>

section \<open>The shared steps\<close>

text \<open>How a kind of object is stored and read.\<close>

record ('w, 'o) kindOps =
  koStore :: "('w, 'o) store"
  koMeta :: "'o \<Rightarrow> objectMeta"
  koSetMeta :: "objectMeta \<Rightarrow> 'o \<Rightarrow> 'o"
  koStatusRef :: "'o \<Rightarrow> string"
  koClear :: "'o \<Rightarrow> 'o"

definition targetsOf :: "('w, 'o) kindOps \<Rightarrow> 'o \<Rightarrow> string" where
  "targetsOf ko o' = mget (omAnnotations (koMeta ko o')) durableRouterTargetsAnnotation"

definition putMeta :: "('w, 'o) kindOps \<Rightarrow> 'o \<Rightarrow> objectMeta \<Rightarrow> ('w, unit) prog" where
  "putMeta ko o' m = voidE (stUpdate (koStore ko) (koSetMeta ko m o'))"

definition dropFinalizer :: "('w, 'o) kindOps \<Rightarrow> 'o \<Rightarrow> ('w, result) prog" where
  "dropFinalizer ko o' =
     (if containsFinalizer (koMeta ko o') resourceFinalizer
      then thenReturn (putMeta ko o' (removeFinalizer resourceFinalizer (koMeta ko o'))) noRequeue
      else returnE noRequeue)"

definition addFinalizerFirst :: "('w, 'o) kindOps \<Rightarrow> 'o \<Rightarrow> ('w, result) prog \<Rightarrow> ('w, result) prog" where
  "addFinalizerFirst ko o' continue =
     (if \<not> containsFinalizer (koMeta ko o') resourceFinalizer
      then thenReturn (putMeta ko o' (addFinalizer resourceFinalizer (koMeta ko o'))) noRequeue
      else continue)"

text \<open>When no router can be selected implicitly: record the router the status names, or clean the
  recorded routers and forget them, or clear the status, or report.\<close>

definition implicitFallback ::
  "('w, 'o) kindOps \<Rightarrow> 'o \<Rightarrow> goerr \<Rightarrow> ('w, unit) prog \<Rightarrow> (goerr \<Rightarrow> ('w, result) prog) \<Rightarrow> ('w, result) prog" where
  "implicitFallback ko o' err cleanup fail =
     (if targetsOf ko o' = [] \<and> koStatusRef ko o' \<noteq> []
      then thenReturn (persistDurableRouterTarget (putMeta ko o') (koMeta ko o') [koStatusRef ko o']) noRequeue
      else if targetsOf ko o' \<noteq> []
      then tryE cleanup (\<lambda>x. case x of
             Inl cleanupErr \<Rightarrow> fail (Joined [err, cleanupErr])
           | Inr _ \<Rightarrow> thenReturn (compactDurableRouterTarget (putMeta ko o') (koMeta ko o') []) noRequeue)
      else if koStatusRef ko o' \<noteq> []
      then thenReturn (stUpdateStatus (koStore ko) (koClear ko o')) noRequeue
      else fail err)"

text \<open>Before the router is contacted its name is recorded; the routers recorded before are cleaned
  and then forgotten; the status stops naming another router.\<close>

definition settleTargets ::
  "('w, 'o) kindOps \<Rightarrow> 'o \<Rightarrow> string \<Rightarrow> ('w, unit) prog \<Rightarrow> (goerr \<Rightarrow> ('w, result) prog)
     \<Rightarrow> ('w, result) prog \<Rightarrow> ('w, result) prog" where
  "settleTargets ko o' routerRef cleanupOthers fail continue =
     (if targetsOf ko o' \<noteq> routerRef
      then bindE (persistDurableRouterTarget (putMeta ko o') (koMeta ko o') [koStatusRef ko o', routerRef]) (\<lambda>updated.
        if updated then returnE noRequeue
        else tryE cleanupOthers (\<lambda>x. case x of
               Inl err \<Rightarrow> fail err
             | Inr _ \<Rightarrow> thenReturn (compactDurableRouterTarget (putMeta ko o') (koMeta ko o') routerRef) noRequeue))
      else if koStatusRef ko o' \<noteq> [] \<and> koStatusRef ko o' \<noteq> routerRef
      then thenReturn (stUpdateStatus (koStore ko) (koClear ko o')) noRequeue
      else continue)"

section \<open>MikroTikRoute\<close>

definition routeOps :: "'w env \<Rightarrow> ('w, route) kindOps" where
  "routeOps env =
     \<lparr>koStore = kRoutes env, koMeta = routeMeta, koSetMeta = (\<lambda>m r. r\<lparr>routeMeta := m\<rparr>),
      koStatusRef = (\<lambda>r. otRouterRef (routeStatusOf r)),
      koClear = (\<lambda>r. r\<lparr>routeStatusOf := (routeStatusOf r)\<lparr>otRouterRef := [], otApplied := False\<rparr>\<rparr>)\<rparr>"

definition routeFailed :: "'w env \<Rightarrow> route \<Rightarrow> goerr \<Rightarrow> ('w, result) prog" where
  "routeFailed env r err =
     bindE (nowE env) (\<lambda>t.
       let st = routeStatusOf r;
           st' = st\<lparr>otApplied := False,
                    otConditions := readyCondition t (otConditions st) ConditionFalse ''ApplyFailed'' (errorText err)\<rparr>
       in putStatus (kRoutes env) (st' = st) (r\<lparr>routeStatusOf := st'\<rparr>) retryMinute)"

definition routeApplied :: "'w env \<Rightarrow> route \<Rightarrow> string \<Rightarrow> ('w, result) prog" where
  "routeApplied env r routerRef =
     bindE (nowE env) (\<lambda>t.
       let st = routeStatusOf r;
           st' = st\<lparr>otApplied := True, otRouterRef := routerRef,
                    otConditions := readyCondition t (otConditions st) ConditionTrue ''Applied'' ''route applied''\<rparr>
       in putStatus (kRoutes env) (st' = st) (r\<lparr>routeStatusOf := st'\<rparr>) driftCheckInterval)"

definition routeComment :: "route \<Rightarrow> string" where
  "routeComment r = ManagedComment ''route'' (omName (routeMeta r)) (omNamespace (routeMeta r))"

definition cleanRoute :: "'w env \<Rightarrow> route \<Rightarrow> string list \<Rightarrow> string \<Rightarrow> ('w, unit) prog" where
  "cleanRoute env r targets exclude =
     cleanupRouterTargets env (omNamespace (routeMeta r)) targets exclude
       (\<lambda>c. DeleteRoute (rcRun c) (routeComment r))"

definition applyRoute :: "route \<Rightarrow> router \<Rightarrow> 'w routerConnection list \<Rightarrow> ('w, unit) prog" where
  "applyRoute r router connections =
     (let generated = mget (omLabels (routeMeta r)) clusterRouteSourceLabel \<noteq> [];
          origin = mget (omLabels (routeMeta r)) clusterRouteOriginLabel
      in forE (\<lambda>connection.
           if generated \<and> \<not> clusterRouteAppliesToEndpoint (osGateway (routeSpecOf r)) origin (cnEndpoint connection) router
           then DeleteRoute (rcRun (cnClient connection)) (routeComment r)
           else EnsureRouteWithDistance (rcRun (cnClient connection)) (osDestination (routeSpecOf r))
                  (osGateway (routeSpecOf r)) (osDistance (routeSpecOf r)) (routeComment r))
         connections)"

definition routeApply :: "'w env \<Rightarrow> route \<Rightarrow> nsname \<Rightarrow> string \<Rightarrow> ('w, result) prog" where
  "routeApply env r rkey routerRef =
     tryE (withRouterConnections env rkey True (applyRoute r)) (\<lambda>y. case y of
       Inl err \<Rightarrow> routeFailed env r err
     | Inr _ \<Rightarrow> routeApplied env r routerRef)"

definition reconcileRoute :: "'w env \<Rightarrow> route \<Rightarrow> ('w, result) prog" where
  "reconcileRoute env r =
     (let ns = omNamespace (routeMeta r); statusRef = otRouterRef (routeStatusOf r);
         specRef = osRouterRef (routeSpecOf r); ko = routeOps env
     in if isDeleting (routeMeta r)
        then bindE (cleanRoute env r (durableRouterTargets (routeMeta r) [statusRef, specRef]) []) (\<lambda>_.
               dropFinalizer ko r)
        else if osDestination (routeSpecOf r) = [] \<or> osGateway (routeSpecOf r) = []
        then routeFailed env r (Opaque ''destination and gateway are required'')
        else addFinalizerFirst ko r
          (tryE (resolveRouterReference env ns specRef) (\<lambda>x. case x of
             Inl err \<Rightarrow>
               (if errorsIs err ErrImplicitRouterSelection
                then implicitFallback ko r err
                       (cleanRoute env r (durableRouterTargets (routeMeta r) [statusRef]) []) (routeFailed env r)
                else routeFailed env r err)
           | Inr rkey \<Rightarrow>
               (let routerRef = routerRefStorage ns rkey in
                settleTargets ko r routerRef
                  (cleanRoute env r (durableRouterTargets (routeMeta r) [statusRef]) routerRef)
                  (routeFailed env r)
                  (routeApply env r rkey routerRef)))))"

definition RouteReconcile :: "'w env \<Rightarrow> nsname \<Rightarrow> ('w, result) prog" where
  "RouteReconcile env key = getOrIgnore (stGet (kRoutes env) key) (reconcileRoute env)"

section \<open>MikroTikFirewallRule\<close>

definition firewallOps :: "'w env \<Rightarrow> ('w, firewallRule) kindOps" where
  "firewallOps env =
     \<lparr>koStore = kFirewall env, koMeta = fwMeta, koSetMeta = (\<lambda>m r. r\<lparr>fwMeta := m\<rparr>),
      koStatusRef = (\<lambda>r. ftRouterRef (fwStatusOf r)),
      koClear = (\<lambda>r. r\<lparr>fwStatusOf := (fwStatusOf r)\<lparr>ftRouterRef := [], ftApplied := False\<rparr>\<rparr>)\<rparr>"

definition firewallFailed :: "'w env \<Rightarrow> firewallRule \<Rightarrow> goerr \<Rightarrow> ('w, result) prog" where
  "firewallFailed env r err =
     bindE (nowE env) (\<lambda>t.
       let st = fwStatusOf r;
           st' = st\<lparr>ftApplied := False,
                    ftConditions := readyCondition t (ftConditions st) ConditionFalse ''ApplyFailed'' (errorText err)\<rparr>
       in putStatus (kFirewall env) (st' = st) (r\<lparr>fwStatusOf := st'\<rparr>) retryMinute)"

definition firewallApplied :: "'w env \<Rightarrow> firewallRule \<Rightarrow> string \<Rightarrow> ('w, result) prog" where
  "firewallApplied env r routerRef =
     bindE (nowE env) (\<lambda>t.
       let st = fwStatusOf r;
           st' = st\<lparr>ftApplied := True, ftRouterRef := routerRef,
                    ftConditions := readyCondition t (ftConditions st) ConditionTrue ''Applied'' ''firewall rule applied''\<rparr>
       in putStatus (kFirewall env) (st' = st) (r\<lparr>fwStatusOf := st'\<rparr>) driftCheckInterval)"

definition firewallComment :: "firewallRule \<Rightarrow> string" where
  "firewallComment r = ManagedComment ''firewall'' (omName (fwMeta r)) (omNamespace (fwMeta r))"

definition cleanFirewall :: "'w env \<Rightarrow> firewallRule \<Rightarrow> string list \<Rightarrow> string \<Rightarrow> ('w, unit) prog" where
  "cleanFirewall env r targets exclude =
     cleanupRouterTargets env (omNamespace (fwMeta r)) targets exclude
       (\<lambda>c. DeleteFirewallRule (rcRun c) (firewallComment r))"

definition rosRuleOf :: "firewallRuleSpec \<Rightarrow> rosFirewallRule" where
  "rosRuleOf s =
     \<lparr>frChain = fsChain s, frAction = fsAction s, frProtocol = fsProtocol s,
      frSourceAddress = fsSourceAddress s, frDestinationAddress = fsDestinationAddress s,
      frSourcePort = fsSourcePort s, frDestinationPort = fsDestinationPort s,
      frInInterface = fsInInterface s, frOutInterface = fsOutInterface s,
      frConnectionState = fsConnectionState s, frConnectionNatState = fsConnectionNatState s,
      frLogPrefix = fsLogPrefix s, frPlaceBefore = fsPlaceBefore s\<rparr>"

definition firewallApply :: "'w env \<Rightarrow> firewallRule \<Rightarrow> nsname \<Rightarrow> string \<Rightarrow> ('w, result) prog" where
  "firewallApply env r rkey routerRef =
     tryE (withRouterConnections env rkey True
             (forConnections (\<lambda>c. EnsureFirewallRule (rcRun c) (rosRuleOf (fwSpecOf r)) (firewallComment r))))
       (\<lambda>y. case y of
          Inl err \<Rightarrow> firewallFailed env r err
        | Inr _ \<Rightarrow> firewallApplied env r routerRef)"

definition reconcileFirewallRule :: "'w env \<Rightarrow> firewallRule \<Rightarrow> ('w, result) prog" where
  "reconcileFirewallRule env r =
     (let ns = omNamespace (fwMeta r); statusRef = ftRouterRef (fwStatusOf r);
         specRef = fsRouterRef (fwSpecOf r); ko = firewallOps env
     in if isDeleting (fwMeta r)
        then bindE (cleanFirewall env r (durableRouterTargets (fwMeta r) [statusRef, specRef]) []) (\<lambda>_.
               dropFinalizer ko r)
        else if fsChain (fwSpecOf r) = [] \<or> fsAction (fwSpecOf r) = []
        then firewallFailed env r (Opaque ''chain and action are required'')
        else addFinalizerFirst ko r
          (tryE (resolveRouterReference env ns specRef) (\<lambda>x. case x of
             Inl err \<Rightarrow>
               (if errorsIs err ErrImplicitRouterSelection
                then implicitFallback ko r err
                       (cleanFirewall env r (durableRouterTargets (fwMeta r) [statusRef]) []) (firewallFailed env r)
                else firewallFailed env r err)
           | Inr rkey \<Rightarrow>
               (let routerRef = routerRefStorage ns rkey in
                settleTargets ko r routerRef
                  (cleanFirewall env r (durableRouterTargets (fwMeta r) [statusRef]) routerRef)
                  (firewallFailed env r)
                  (firewallApply env r rkey routerRef)))))"

definition FirewallRuleReconcile :: "'w env \<Rightarrow> nsname \<Rightarrow> ('w, result) prog" where
  "FirewallRuleReconcile env key = getOrIgnore (stGet (kFirewall env) key) (reconcileFirewallRule env)"

end
