(* ===== verification/Claims.thy ===== *)
theory Claims
  imports Config_Reconcile
begin

text \<open>
  Claims on hostnames and ports (\<^verbatim>\<open>router_controller.go\<close> lines 1914 to 2291): every DNS record and port
  forward claims a hostname or a public port on the routers it targets.  Two objects that claim
  the same are arbitrated without talking to each other: exactly one of them is told to yield.
\<close>

section \<open>Candidates\<close>

record dnsCandidate =
  dcChildName :: string
  dcHostname :: string
  dcService :: nsname
  dcAddress :: string

record forwardCandidate =
  fcName :: string
  fcService :: nsname
  fcProtocol :: string
  fcExternalPort :: int
  fcTargetAddress :: string
  fcTargetPort :: int

definition sentinelErr :: "sentinel \<Rightarrow> string \<Rightarrow> goerr" where
  "sentinelErr s text = Wrapped (sentinelText s @ '': '' @ text) [Sentinel s]"

text \<open>\<^verbatim>\<open>NamespacedName.String\<close>.\<close>

definition nsString :: "nsname \<Rightarrow> string" where
  "nsString k = nsNamespace k @ ''/'' @ nsName k"

fun validateDNSFrom ::
  "string \<Rightarrow> (string \<times> nsname \<times> string) list \<Rightarrow> dnsCandidate list \<Rightarrow> goerr option" where
  "validateDNSFrom source targets [] = None"
| "validateDNSFrom source targets (c # cs) =
     (let hostname = toLower (trimSuffix (dcHostname c) ''.'') in
      if hostname = [] \<or> dcAddress c = [] \<or> dcAddress c = ClusterIPNone
      then validateDNSFrom source targets cs
      else case map_of targets hostname of
        Some previous \<Rightarrow>
          (if previous \<noteq> (dcService c, dcAddress c)
           then Some (sentinelErr ErrGeneratedChildAmbiguity
                  (source @ '' hostname '' @ hostname @ '' targets both Service '' @ nsString (fst previous)
                   @ '' ('' @ snd previous @ '') and Service '' @ nsString (dcService c) @ '' ('' @ dcAddress c @ '')''))
           else validateDNSFrom source ((hostname, dcService c, dcAddress c) # targets) cs)
      | None \<Rightarrow> validateDNSFrom source ((hostname, dcService c, dcAddress c) # targets) cs)"

definition validateGeneratedDNSCandidates :: "string \<Rightarrow> dnsCandidate list \<Rightarrow> goerr option" where
  "validateGeneratedDNSCandidates source candidates = validateDNSFrom source [] candidates"

section \<open>Normal forms\<close>

definition normalizeGeneratedHostname :: "string \<Rightarrow> string" where
  "normalizeGeneratedHostname hostname = toLower (trimSuffix (trimSpace hostname) ''.'')"

definition normalizePublicIP :: "string \<Rightarrow> string" where
  "normalizePublicIP value =
     (case parseIP (trimSpace value) of Some ip \<Rightarrow> ipString ip | None \<Rightarrow> trimSpace value)"

definition portForwardDestinationAddress :: "portForward \<Rightarrow> string" where
  "portForwardDestinationAddress f =
     (let address = trimSpace (psDestinationAddress (pfSpecOf f)) in
      if address \<noteq> [] then address
      else trimSpace (mget (omAnnotations (pfMeta f)) PublicIPAnnotation))"

definition namespacedNameFromAPI :: "nsname option \<Rightarrow> nsname" where
  "namespacedNameFromAPI reference = (case reference of None \<Rightarrow> mkName [] [] | Some r \<Rightarrow> r)"

section \<open>Actors\<close>

record claimActor =
  caKey :: string
  caDirect :: bool

text \<open>A claiming object as the arbitration sees it.\<close>

record claimView =
  cvKind :: ownerKind
  cvMeta :: objectMeta
  cvApplied :: bool
  cvConditions :: "condition list"
  cvStatusRef :: string
  cvSpecRef :: string

definition dnsView :: "dnsRecord \<Rightarrow> claimView" where
  "dnsView r = \<lparr>cvKind = OwnDNS, cvMeta = dnsMeta r, cvApplied = dtApplied (dnsStatusOf r),
     cvConditions = dtConditions (dnsStatusOf r), cvStatusRef = dtRouterRef (dnsStatusOf r),
     cvSpecRef = dsRouterRef (dnsSpecOf r)\<rparr>"

definition forwardView :: "portForward \<Rightarrow> claimView" where
  "forwardView f = \<lparr>cvKind = OwnForward, cvMeta = pfMeta f, cvApplied = ptApplied (pfStatusOf f),
     cvConditions = ptConditions (pfStatusOf f), cvStatusRef = ptRouterRef (pfStatusOf f),
     cvSpecRef = psRouterRef (pfSpecOf f)\<rparr>"

fun generatedClaimObjectKind :: "ownerKind \<Rightarrow> string \<times> bool" where
  "generatedClaimObjectKind OwnDNS = (''MikroTikDNSRecord'', True)"
| "generatedClaimObjectKind OwnForward = (''MikroTikPortForward'', True)"
| "generatedClaimObjectKind OwnService = (''Service'', False)"
| "generatedClaimObjectKind OwnIngress = (''Ingress'', False)"
| "generatedClaimObjectKind OwnHTTPRoute = (''HTTPRoute'', False)"

definition actorKey :: "string \<Rightarrow> string \<Rightarrow> string \<Rightarrow> string \<Rightarrow> string" where
  "actorKey ns kind name uid = ns @ ''/'' @ kind @ ''/'' @ name @ ''/'' @ uid"

definition generatedClaimActorForCurrent :: "ownerObj \<Rightarrow> claimActor" where
  "generatedClaimActorForCurrent o' =
     (let m = ooMeta o' in
      case controllerOf m of
        Some c \<Rightarrow> \<lparr>caKey = actorKey (omNamespace m) (orKind c) (orName c) (orUID c), caDirect = False\<rparr>
      | None \<Rightarrow>
          (case generatedClaimObjectKind (ooKind o') of (kind, direct) \<Rightarrow>
             \<lparr>caKey = actorKey (omNamespace m) kind (omName m) (omUID m), caDirect = direct\<rparr>))"

definition generatedClaimActorForExisting :: "claimView \<Rightarrow> claimActor" where
  "generatedClaimActorForExisting v =
     (let m = cvMeta v in
      case controllerOf m of
        Some c \<Rightarrow> \<lparr>caKey = actorKey (omNamespace m) (orKind c) (orName c) (orUID c), caDirect = False\<rparr>
      | None \<Rightarrow>
          \<lparr>caKey = actorKey (omNamespace m) (fst (generatedClaimObjectKind (cvKind v))) (omName m) (omUID m),
           caDirect = True\<rparr>)"

definition isCurrentClaimObject :: "claimView \<Rightarrow> ownerObj \<Rightarrow> bool" where
  "isCurrentClaimObject v owner =
     (if cvKind v = ooKind owner \<and> omNamespace (cvMeta v) = omNamespace (ooMeta owner)
         \<and> omName (cvMeta v) = omName (ooMeta owner)
      then True else isControlledBy (cvMeta v) (ooMeta owner))"

definition generatedClaimHasYieldedTo :: "claimView \<Rightarrow> claimActor \<Rightarrow> bool" where
  "generatedClaimHasYieldedTo v winner =
     (if cvApplied v then False
      else list_ex (\<lambda>c. cdStatus c = ConditionFalse
             \<and> contains (cdMessage c) (sentinelText ErrGeneratedChildCollision)
             \<and> contains (cdMessage c) (caKey winner)) (cvConditions v))"

definition generatedOwnershipConflict :: "ownerObj \<Rightarrow> claimView \<Rightarrow> string \<Rightarrow> bool \<Rightarrow> goerr" where
  "generatedOwnershipConflict owner existing claim ownerHasClaim =
     (let current = generatedClaimActorForCurrent owner; other = generatedClaimActorForExisting existing in
      if caDirect current \<noteq> caDirect other then
        (if caDirect current
         then sentinelErr ErrGeneratedClaimWaiting (claim @ '' is waiting for generated owner '' @ caKey other
                @ '' to yield to the direct resource'')
         else sentinelErr ErrGeneratedChildCollision (claim @ '' is reserved by direct resource '' @ caKey other))
      else if caKey current < caKey other \<and> ownerHasClaim
      then sentinelErr ErrGeneratedClaimWaiting (claim @ '' is still claimed by lower-priority owner '' @ caKey other)
      else sentinelErr ErrGeneratedChildCollision (claim @ '' remains owned by incumbent owner '' @ caKey other))"

section \<open>Preflight\<close>

fun resolveRefs :: "'w env \<Rightarrow> string \<Rightarrow> string list \<Rightarrow> string list \<Rightarrow> ('w, string list) prog" where
  "resolveRefs env ns keys [] = returnE keys"
| "resolveRefs env ns keys (ref # refs) =
     tryE (resolveRouterReference env ns ref) (\<lambda>x.
       let go = (\<lambda>key. let canonical = canonicalRouterClaimKey key in
                  if canonical = [] then resolveRefs env ns keys refs
                  else if canonical \<in> set keys then resolveRefs env ns keys refs
                  else resolveRefs env ns (keys @ [canonical]) refs)
       in case x of
            Inr resolved \<Rightarrow> go resolved
          | Inl err \<Rightarrow>
              (if \<not> isNotFound err \<and> \<not> errorsIs err ErrImplicitRouterSelection then failE err
               else go (routerKeyFromRef ns ref)))"

definition generatedClaimRouterRefs :: "'w env \<Rightarrow> claimView \<Rightarrow> ('w, string list) prog" where
  "generatedClaimRouterRefs env v =
     (let ns = omNamespace (cvMeta v); refs = durableRouterTargets (cvMeta v) [cvStatusRef v, cvSpecRef v] in
      if refs = [] then
        tryE (resolveRouterReference env ns []) (\<lambda>x. case x of
          Inl err \<Rightarrow> (if errorsIs err ErrImplicitRouterSelection then returnE [] else failE err)
        | Inr resolved \<Rightarrow> returnE [canonicalRouterClaimKey resolved])
      else resolveRefs env ns [] refs)"

text \<open>The children an owner generates must be its own.\<close>

definition checkChild ::
  "('w, 'o) store \<Rightarrow> ('o \<Rightarrow> claimView) \<Rightarrow> string \<Rightarrow> ownerObj \<Rightarrow> string \<Rightarrow> ('w, unit) prog" where
  "checkChild st view label owner childName =
     (if childName = [] then returnE ()
      else tryE (stGet st (mkName (omNamespace (ooMeta owner)) childName)) (\<lambda>x. case x of
        Inl err \<Rightarrow> (if isNotFound err then returnE () else failE err)
      | Inr o' \<Rightarrow>
          (let v = view o' in
           if \<not> isControlledBy (cvMeta v) (ooMeta owner)
           then failE (generatedOwnershipConflict owner v
                  (label @ omNamespace (cvMeta v) @ ''/'' @ omName (cvMeta v)) False)
           else returnE ())))"

fun ownClaimFrom ::
  "'w env \<Rightarrow> ownerObj \<Rightarrow> string \<Rightarrow> ('o \<Rightarrow> claimView) \<Rightarrow> ('o \<Rightarrow> bool) \<Rightarrow> bool \<Rightarrow> 'o list \<Rightarrow> ('w, bool) prog" where
  "ownClaimFrom env owner key view wanted has [] = returnE has"
| "ownClaimFrom env owner key view wanted has (o' # os) =
     (if \<not> isCurrentClaimObject (view o') owner then ownClaimFrom env owner key view wanted has os
      else bindE (generatedClaimRouterRefs env (view o')) (\<lambda>refs.
        ownClaimFrom env owner key view wanted (has \<or> (key \<in> set refs \<and> wanted o')) os))"

fun conflictFrom ::
  "'w env \<Rightarrow> ownerObj \<Rightarrow> string \<Rightarrow> ('o \<Rightarrow> claimView) \<Rightarrow> ('o \<Rightarrow> string option) \<Rightarrow> bool \<Rightarrow> 'o list \<Rightarrow> ('w, unit) prog" where
  "conflictFrom env owner key view claimed has [] = returnE ()"
| "conflictFrom env owner key view claimed has (o' # os) =
     (if isCurrentClaimObject (view o') owner then conflictFrom env owner key view claimed has os
      else if generatedClaimHasYieldedTo (view o') (generatedClaimActorForCurrent owner)
      then conflictFrom env owner key view claimed has os
      else bindE (generatedClaimRouterRefs env (view o')) (\<lambda>refs.
        if key \<notin> set refs then conflictFrom env owner key view claimed has os
        else case claimed o' of
          None \<Rightarrow> conflictFrom env owner key view claimed has os
        | Some claim \<Rightarrow> failE (generatedOwnershipConflict owner (view o') claim has)))"

definition dnsWanted :: "dnsCandidate list \<Rightarrow> dnsRecord \<Rightarrow> bool" where
  "dnsWanted candidates r =
     list_ex (\<lambda>c. normalizeGeneratedHostname (dsName (dnsSpecOf r)) = normalizeGeneratedHostname (dcHostname c)) candidates"

definition dnsClaimed :: "string \<Rightarrow> dnsCandidate list \<Rightarrow> dnsRecord \<Rightarrow> string option" where
  "dnsClaimed key candidates r =
     (if dnsWanted candidates r
      then Some (''DNS hostname '' @ normalizeGeneratedHostname (dsName (dnsSpecOf r)) @ '' on Router '' @ key)
      else None)"

definition forwardWanted :: "string \<Rightarrow> forwardCandidate list \<Rightarrow> portForward \<Rightarrow> bool" where
  "forwardWanted publicIP candidates f \<longleftrightarrow>
     normalizePublicIP (portForwardDestinationAddress f) = publicIP \<and>
     list_ex (\<lambda>c. equalFold (psProtocol (pfSpecOf f)) (fcProtocol c)
                \<and> psExternalPort (pfSpecOf f) = fcExternalPort c) candidates"

definition forwardClaimed :: "string \<Rightarrow> string \<Rightarrow> forwardCandidate list \<Rightarrow> portForward \<Rightarrow> string option" where
  "forwardClaimed key publicIP candidates f =
     (if normalizePublicIP (portForwardDestinationAddress f) \<noteq> publicIP then None
      else map_option (\<lambda>c. ''port '' @ publicIP @ '':'' @ itoa (fcExternalPort c) @ ''/'' @ fcProtocol c
                           @ '' on Router '' @ key)
        (find (\<lambda>c. toLower (psProtocol (pfSpecOf f)) = fcProtocol c
                  \<and> psExternalPort (pfSpecOf f) = fcExternalPort c) candidates))"

definition preflightGeneratedChildClaims ::
  "'w env \<Rightarrow> ownerObj \<Rightarrow> string \<Rightarrow> string \<Rightarrow> dnsCandidate list \<Rightarrow> forwardCandidate list \<Rightarrow> ('w, string) prog" where
  "preflightGeneratedChildClaims env owner routerRef publicIP dns forwards =
     (let ns = omNamespace (ooMeta owner) in
      if dns = [] \<and> forwards = [] then returnE routerRef
      else bindE (resolveRouterReference env ns routerRef) (\<lambda>resolved.
        bindE (forE (\<lambda>c. checkChild (kDNS env) dnsView ''DNS record '' owner (dcChildName c)) dns) (\<lambda>_.
        bindE (forE (\<lambda>c. checkChild (kForwards env) forwardView ''port forward '' owner (fcName c)) forwards) (\<lambda>_.
          let key = canonicalRouterClaimKey resolved; ip = normalizePublicIP publicIP in
          bindE (stList (kDNS env) []) (\<lambda>records.
          bindE (ownClaimFrom env owner key dnsView (dnsWanted dns) False records) (\<lambda>hasDNS.
          bindE (conflictFrom env owner key dnsView (dnsClaimed key dns) hasDNS records) (\<lambda>_.
          bindE (stList (kForwards env) []) (\<lambda>fs.
          bindE (ownClaimFrom env owner key forwardView (forwardWanted ip forwards) False fs) (\<lambda>hasForward.
          bindE (conflictFrom env owner key forwardView (forwardClaimed key ip forwards) hasForward fs) (\<lambda>_.
            returnE (routerRefStorage ns resolved)))))))))))"

text \<open>The claims of an owner are checked under the claim fence of the router; the caller releases it.\<close>

definition acquireGeneratedChildClaims ::
  "'w env \<Rightarrow> ownerObj \<Rightarrow> string \<Rightarrow> string \<Rightarrow> dnsCandidate list \<Rightarrow> forwardCandidate list
     \<Rightarrow> ('w, string \<times> ('w, unit) prog) prog" where
  "acquireGeneratedChildClaims env owner routerRef publicIP dns forwards =
     (let ns = omNamespace (ooMeta owner) in
      if dns = [] \<and> forwards = [] then returnE (routerRef, returnE ())
      else bindE (resolveRouterReference env ns routerRef) (\<lambda>resolved.
        bindE (kClaimFence env resolved) (\<lambda>_.
          tryE (preflightGeneratedChildClaims env owner (routerRefStorage ns resolved) publicIP dns forwards) (\<lambda>x.
            case x of
              Inl err \<Rightarrow> tryE (kClaimUnfence env resolved) (\<lambda>_. failE err)
            | Inr verified \<Rightarrow> returnE (verified, kClaimUnfence env resolved)))))"

end
