(* ===== verification/Child_Reconcile.thy ===== *)
theory Child_Reconcile
  imports Claims
begin

text \<open>
  The reconcilers of MikroTikDNSRecord and MikroTikPortForward (\<^verbatim>\<open>router_controller.go\<close> lines 302 to
  509, 638 to 657 and 2845 to 3117).
\<close>

section \<open>The address of a service\<close>

fun firstInternalIP :: "node list \<Rightarrow> string option" where
  "firstInternalIP [] = None"
| "firstInternalIP (n # ns) =
     (case nodeInternalIP n of Some a \<Rightarrow> Some a | None \<Rightarrow> firstInternalIP ns)"

definition serviceAddress :: "'w env \<Rightarrow> service \<Rightarrow> ('w, string) prog" where
  "serviceAddress env s =
     (let name = omNamespace (svMeta s) @ ''/'' @ omName (svMeta s) in
      if svType s \<noteq> ServiceTypeNodePort then
        (if svClusterIP s = [] \<or> svClusterIP s = ClusterIPNone
         then failE (sentinelErr ErrServiceNotAddressable (''service '' @ name @ '' has no ClusterIP''))
         else returnE (svClusterIP s))
      else bindE (kListNodes env) (\<lambda>nodes.
        case firstInternalIP nodes of
          Some a \<Rightarrow> returnE a
        | None \<Rightarrow> failE (sentinelErr ErrServiceNotAddressable
                    (''no node InternalIP found for NodePort service '' @ name))))"

section \<open>MikroTikDNSRecord\<close>

definition dnsOps :: "'w env \<Rightarrow> ('w, dnsRecord) kindOps" where
  "dnsOps env =
     \<lparr>koStore = kDNS env, koMeta = dnsMeta, koSetMeta = (\<lambda>m r. r\<lparr>dnsMeta := m\<rparr>),
      koStatusRef = (\<lambda>r. dtRouterRef (dnsStatusOf r)),
      koClear = (\<lambda>r. r\<lparr>dnsStatusOf := (dnsStatusOf r)\<lparr>dtRouterRef := [], dtApplied := False\<rparr>\<rparr>)\<rparr>"

definition dnsOwner :: "dnsRecord \<Rightarrow> ownerObj" where
  "dnsOwner r = \<lparr>ooKind = OwnDNS, ooTypeKind = [], ooMeta = dnsMeta r\<rparr>"

definition dnsComment :: "dnsRecord \<Rightarrow> string" where
  "dnsComment r = ManagedComment ''dns'' (omName (dnsMeta r)) (omNamespace (dnsMeta r))"

definition dnsRouteRequest :: "dnsRecord \<Rightarrow> string \<Rightarrow> service list \<Rightarrow> clusterRouteRequest" where
  "dnsRouteRequest r routerRef services =
     \<lparr>crOwner = dnsOwner r, crSourceName = ''dns/'' @ omName (dnsMeta r),
      crNamespace = omNamespace (dnsMeta r), crRouterRef = routerRef, crServices = services\<rparr>"

text \<open>\<^verbatim>\<open>if apierrors.IsNotFound(err) { return nil }\<close>.\<close>

definition ignoringMissing :: "('w, unit) prog \<Rightarrow> ('w, unit) prog" where
  "ignoringMissing m =
     tryE m (\<lambda>x. case x of Inl e \<Rightarrow> (if isNotFound e then returnE () else failE e) | Inr _ \<Rightarrow> returnE ())"

definition dnsCleanup :: "'w env \<Rightarrow> dnsRecord \<Rightarrow> string \<Rightarrow> ('w, unit) prog" where
  "dnsCleanup env r routerRef =
     bindE (reconcileOwnedClusterRoutes env (dnsRouteRequest r routerRef [])) (\<lambda>_.
       ignoringMissing (withRouterConnections env (routerKeyFromRef (omNamespace (dnsMeta r)) routerRef) False
         (forConnections (\<lambda>c. DeleteDNS (rcRun c) (dnsComment r)))))"

definition dnsFailed :: "'w env \<Rightarrow> dnsRecord \<Rightarrow> goerr \<Rightarrow> ('w, result) prog" where
  "dnsFailed env r err =
     bindE (nowE env) (\<lambda>t.
       let st = dnsStatusOf r;
           st' = st\<lparr>dtApplied := False,
                    dtConditions := readyCondition t (dtConditions st) ConditionFalse ''ApplyFailed'' (errorText err)\<rparr>
       in putStatus (kDNS env) (st' = st) (r\<lparr>dnsStatusOf := st'\<rparr>) retryMinute)"

definition dnsApplied :: "'w env \<Rightarrow> dnsRecord \<Rightarrow> string \<Rightarrow> ('w, result) prog" where
  "dnsApplied env r routerRef =
     bindE (nowE env) (\<lambda>t.
       let st = dnsStatusOf r;
           st' = st\<lparr>dtApplied := True, dtRouterRef := routerRef,
                    dtConditions := readyCondition t (dtConditions st) ConditionTrue ''Applied'' ''DNS record applied''\<rparr>
       in putStatus (kDNS env) (st' = st) (r\<lparr>dnsStatusOf := st'\<rparr>) driftCheckInterval)"

text \<open>Clean every recorded router; a failed cleanup is reported by \<open>onErr\<close>.\<close>

definition cleanThen ::
  "('w, unit) prog \<Rightarrow> (goerr \<Rightarrow> ('w, result) prog) \<Rightarrow> ('w, result) prog \<Rightarrow> ('w, result) prog" where
  "cleanThen cleanup onErr continue =
     tryE cleanup (\<lambda>x. case x of Inl e \<Rightarrow> onErr e | Inr _ \<Rightarrow> continue)"

definition dnsCleanAll :: "'w env \<Rightarrow> dnsRecord \<Rightarrow> ('w, unit) prog" where
  "dnsCleanAll env r =
     forE (dnsCleanup env r)
       (durableRouterTargets (dnsMeta r) [dtRouterRef (dnsStatusOf r), dsRouterRef (dnsSpecOf r)])"

text \<open>The address of the record, and the service it comes from.\<close>

definition dnsAddress ::
  "'w env \<Rightarrow> dnsRecord \<Rightarrow> (string \<Rightarrow> service option \<Rightarrow> ('w, result) prog) \<Rightarrow> ('w, result) prog" where
  "dnsAddress env r continue =
     (case dsServiceRef (dnsSpecOf r) of
        None \<Rightarrow> continue (dsAddress (dnsSpecOf r)) None
      | Some ref \<Rightarrow>
          tryE (stGet (kServices env) ref) (\<lambda>x. case x of
            Inl err \<Rightarrow>
              (if isNotFound err then cleanThen (dnsCleanAll env r) (dnsFailed env r) (dnsFailed env r err)
               else dnsFailed env r err)
          | Inr s \<Rightarrow>
              tryE (serviceAddress env s) (\<lambda>y. case y of
                Inl err \<Rightarrow>
                  (if errorsIs err ErrServiceNotAddressable
                   then cleanThen (dnsCleanAll env r) (\<lambda>ce. dnsFailed env r (Joined [err, ce])) (dnsFailed env r err)
                   else dnsFailed env r err)
              | Inr address \<Rightarrow> continue address (Some s))))"

definition dnsApply ::
  "'w env \<Rightarrow> dnsRecord \<Rightarrow> nsname \<Rightarrow> string \<Rightarrow> string \<Rightarrow> service option \<Rightarrow> ('w, result) prog" where
  "dnsApply env r rkey routerRef address referenced =
     tryE (withRouterConnections env rkey True
             (forConnections (\<lambda>c. EnsureDNS (rcRun c) (dsName (dnsSpecOf r)) address (dsTTL (dnsSpecOf r)) (dnsComment r))))
       (\<lambda>x. case x of
          Inl err \<Rightarrow> dnsFailed env r err
        | Inr _ \<Rightarrow>
            (let services = (case referenced of
                   Some s \<Rightarrow> if isClusterIPService s \<and> \<not> translatorOwnsGeneratedChildren (dnsMeta r) then [s] else []
                 | None \<Rightarrow> [])
             in tryE (reconcileOwnedClusterRoutes env (dnsRouteRequest r routerRef services)) (\<lambda>y. case y of
                  Inl err \<Rightarrow> dnsFailed env r err
                | Inr _ \<Rightarrow> dnsApplied env r routerRef)))"

definition dnsClaimAndApply ::
  "'w env \<Rightarrow> dnsRecord \<Rightarrow> nsname \<Rightarrow> string \<Rightarrow> string \<Rightarrow> service option \<Rightarrow> ('w, result) prog" where
  "dnsClaimAndApply env r rkey routerRef address referenced =
     tryE (acquireGeneratedChildClaims env (dnsOwner r) routerRef []
             [\<lparr>dcChildName = [], dcHostname = dsName (dnsSpecOf r),
               dcService = namespacedNameFromAPI (dsServiceRef (dnsSpecOf r)), dcAddress = address\<rparr>] [])
       (\<lambda>x. case x of
          Inl claimErr \<Rightarrow>
            (if errorsIs claimErr ErrGeneratedChildCollision
             then cleanThen (dnsCleanAll env r) (\<lambda>ce. dnsFailed env r (Joined [claimErr, ce])) (dnsFailed env r claimErr)
             else failE claimErr)
        | Inr (verified, release) \<Rightarrow> deferE (dnsApply env r rkey routerRef address referenced) release)"

definition reconcileDNS :: "'w env \<Rightarrow> dnsRecord \<Rightarrow> ('w, result) prog" where
  "reconcileDNS env r =
     (let ns = omNamespace (dnsMeta r); statusRef = dtRouterRef (dnsStatusOf r);
         specRef = dsRouterRef (dnsSpecOf r); ko = dnsOps env
     in if isDeleting (dnsMeta r)
        then bindE (dnsCleanAll env r) (\<lambda>_. dropFinalizer ko r)
        else addFinalizerFirst ko r
          (tryE (resolveRouterReference env ns specRef) (\<lambda>x. case x of
             Inl err \<Rightarrow>
               (if \<not> errorsIs err ErrImplicitRouterSelection then failE err
                else implicitFallback ko r err
                       (forE (dnsCleanup env r) (durableRouterTargets (dnsMeta r) [statusRef])) (dnsFailed env r))
           | Inr rkey \<Rightarrow>
               (let routerRef = routerRefStorage ns rkey in
                dnsAddress env r (\<lambda>address referenced.
                  settleTargets ko r routerRef
                    (cleanupRouterTargets env ns (durableRouterTargets (dnsMeta r) [statusRef]) routerRef
                       (\<lambda>c. DeleteDNS (rcRun c) (dnsComment r)))
                    (dnsFailed env r)
                    (dnsClaimAndApply env r rkey routerRef address referenced))))))"

definition DNSReconcile :: "'w env \<Rightarrow> nsname \<Rightarrow> ('w, result) prog" where
  "DNSReconcile env key = getOrIgnore (stGet (kDNS env) key) (reconcileDNS env)"

section \<open>MikroTikPortForward\<close>

definition forwardOps :: "'w env \<Rightarrow> ('w, portForward) kindOps" where
  "forwardOps env =
     \<lparr>koStore = kForwards env, koMeta = pfMeta, koSetMeta = (\<lambda>m f. f\<lparr>pfMeta := m\<rparr>),
      koStatusRef = (\<lambda>f. ptRouterRef (pfStatusOf f)),
      koClear = (\<lambda>f. f\<lparr>pfStatusOf := (pfStatusOf f)\<lparr>ptRouterRef := [], ptApplied := False\<rparr>\<rparr>)\<rparr>"

definition forwardOwner :: "portForward \<Rightarrow> ownerObj" where
  "forwardOwner f = \<lparr>ooKind = OwnForward, ooTypeKind = [], ooMeta = pfMeta f\<rparr>"

definition natComment :: "portForward \<Rightarrow> string" where
  "natComment f = ManagedComment ''portforward'' (omName (pfMeta f)) (omNamespace (pfMeta f))"

definition natFirewallComment :: "portForward \<Rightarrow> string" where
  "natFirewallComment f = ManagedComment ''portforward-firewall'' (omName (pfMeta f)) (omNamespace (pfMeta f))"

definition removeForward :: "portForward \<Rightarrow> 'w rosClient \<Rightarrow> ('w, unit) prog" where
  "removeForward f c =
     bindE (DeletePortForward (rcRun c) (natComment f)) (\<lambda>_.
       DeleteFirewallRule (rcRun c) (natFirewallComment f))"

definition forwardCleanup :: "'w env \<Rightarrow> portForward \<Rightarrow> string \<Rightarrow> ('w, unit) prog" where
  "forwardCleanup env f routerRef =
     ignoringMissing (withRouterConnections env (routerKeyFromRef (omNamespace (pfMeta f)) routerRef) False
       (forConnections (removeForward f)))"

definition forwardCleanAll :: "'w env \<Rightarrow> portForward \<Rightarrow> ('w, unit) prog" where
  "forwardCleanAll env f =
     forE (forwardCleanup env f)
       (durableRouterTargets (pfMeta f) [ptRouterRef (pfStatusOf f), psRouterRef (pfSpecOf f)])"

definition forwardFailed :: "'w env \<Rightarrow> portForward \<Rightarrow> goerr \<Rightarrow> ('w, result) prog" where
  "forwardFailed env f err =
     bindE (nowE env) (\<lambda>t.
       let st = pfStatusOf f;
           st' = st\<lparr>ptApplied := False,
                    ptConditions := readyCondition t (ptConditions st) ConditionFalse ''ApplyFailed'' (errorText err)\<rparr>
       in putStatus (kForwards env) (st' = st) (f\<lparr>pfStatusOf := st'\<rparr>) retryMinute)"

definition forwardApplied :: "'w env \<Rightarrow> portForward \<Rightarrow> string \<Rightarrow> string \<Rightarrow> string \<Rightarrow> ('w, result) prog" where
  "forwardApplied env f routerRef address destination =
     bindE (nowE env) (\<lambda>t.
       let st = pfStatusOf f;
           st' = st\<lparr>ptApplied := True, ptRouterRef := routerRef, ptTargetAddress := address,
                    ptExternalAddress := destination,
                    ptConditions := readyCondition t (ptConditions st) ConditionTrue ''Applied'' ''port forward applied''\<rparr>
       in putStatus (kForwards env) (st' = st) (f\<lparr>pfStatusOf := st'\<rparr>) driftCheckInterval)"

text \<open>The target: the given address, the service's, or the pod's.\<close>

definition forwardServiceTarget ::
  "'w env \<Rightarrow> portForward \<Rightarrow> (string \<Rightarrow> ('w, result) prog) \<Rightarrow> ('w, result) prog" where
  "forwardServiceTarget env f continue =
     (let address = psTargetAddress (pfSpecOf f) in
      case psServiceRef (pfSpecOf f) of
        None \<Rightarrow> continue address
      | Some ref \<Rightarrow>
          tryE (stGet (kServices env) ref) (\<lambda>x. case x of
            Inl err \<Rightarrow>
              (if isNotFound err then cleanThen (forwardCleanAll env f) (forwardFailed env f) (forwardFailed env f err)
               else forwardFailed env f err)
          | Inr s \<Rightarrow>
              tryE (serviceAddress env s) (\<lambda>y. case y of
                Inl err \<Rightarrow>
                  (if errorsIs err ErrServiceNotAddressable
                   then cleanThen (forwardCleanAll env f) (\<lambda>ce. forwardFailed env f (Joined [err, ce])) (forwardFailed env f err)
                   else forwardFailed env f err)
              | Inr target \<Rightarrow> continue (if address = [] then target else address))))"

definition forwardPodTarget ::
  "'w env \<Rightarrow> portForward \<Rightarrow> string \<Rightarrow> (string \<Rightarrow> ('w, result) prog) \<Rightarrow> ('w, result) prog" where
  "forwardPodTarget env f address continue =
     (case psPodRef (pfSpecOf f) of
        Some ref \<Rightarrow>
          (if address = [] then
             tryE (kGetPod env ref) (\<lambda>x. case x of
               Inl err \<Rightarrow>
                 (if isNotFound err then cleanThen (forwardCleanAll env f) (forwardFailed env f) (forwardFailed env f err)
                  else forwardFailed env f err)
             | Inr pod \<Rightarrow> continue (podIP pod))
           else continue address)
      | None \<Rightarrow> continue address)"

definition notAnIP :: "string \<Rightarrow> string \<Rightarrow> goerr" where
  "notAnIP what address = Opaque (what @ '' address '' @ goQuote address @ '' is not an IP'')"

definition forwardFirewallRule :: "portForward \<Rightarrow> string \<Rightarrow> rosFirewallRule" where
  "forwardFirewallRule f address =
     \<lparr>frChain = ''forward'', frAction = ''accept'', frProtocol = psProtocol (pfSpecOf f), frSourceAddress = [],
      frDestinationAddress = address, frSourcePort = [], frDestinationPort = itoa (psTargetPort (pfSpecOf f)),
      frInInterface = [], frOutInterface = [], frConnectionState = [], frConnectionNatState = [],
      frLogPrefix = [], frPlaceBefore = True\<rparr>"

definition ensureForward :: "portForward \<Rightarrow> string \<Rightarrow> string \<Rightarrow> 'w rosClient \<Rightarrow> ('w, unit) prog" where
  "ensureForward f address destination c =
     bindE (EnsurePortForward (rcRun c)
              \<lparr>rpProtocol = psProtocol (pfSpecOf f), rpExternalPort = psExternalPort (pfSpecOf f),
               rpTarget = address, rpTargetPort = psTargetPort (pfSpecOf f), rpPublicIP = destination\<rparr>
              (natComment f)) (\<lambda>_.
       EnsureFirewallRule (rcRun c) (forwardFirewallRule f address) (natFirewallComment f))"

definition forwardApply ::
  "'w env \<Rightarrow> portForward \<Rightarrow> nsname \<Rightarrow> string \<Rightarrow> string \<Rightarrow> string \<Rightarrow> ('w, result) prog" where
  "forwardApply env f rkey routerRef address destination =
     tryE (withRouterConnections env rkey True (forConnections (ensureForward f address destination))) (\<lambda>x. case x of
       Inl err \<Rightarrow> forwardFailed env f err
     | Inr _ \<Rightarrow> forwardApplied env f routerRef address destination)"

definition forwardClaimAndApply ::
  "'w env \<Rightarrow> portForward \<Rightarrow> nsname \<Rightarrow> string \<Rightarrow> string \<Rightarrow> string \<Rightarrow> ('w, result) prog" where
  "forwardClaimAndApply env f rkey routerRef address destination =
     tryE (acquireGeneratedChildClaims env (forwardOwner f) routerRef destination []
             [\<lparr>fcName = [], fcService = namespacedNameFromAPI (psServiceRef (pfSpecOf f)),
               fcProtocol = toLower (psProtocol (pfSpecOf f)), fcExternalPort = psExternalPort (pfSpecOf f),
               fcTargetAddress = address, fcTargetPort = psTargetPort (pfSpecOf f)\<rparr>])
       (\<lambda>x. case x of
          Inl claimErr \<Rightarrow>
            (if errorsIs claimErr ErrGeneratedChildCollision
             then cleanThen (forwardCleanAll env f) (\<lambda>ce. forwardFailed env f (Joined [claimErr, ce]))
                    (forwardFailed env f claimErr)
             else failE claimErr)
        | Inr (verified, release) \<Rightarrow> deferE (forwardApply env f rkey routerRef address destination) release)"

definition forwardRoute ::
  "'w env \<Rightarrow> portForward \<Rightarrow> string \<Rightarrow> string \<Rightarrow> ('w, result) prog" where
  "forwardRoute env f address destination =
     (let ns = omNamespace (pfMeta f); ko = forwardOps env; statusRef = ptRouterRef (pfStatusOf f) in
      tryE (resolveRouterReference env ns (psRouterRef (pfSpecOf f))) (\<lambda>x. case x of
        Inl err \<Rightarrow>
          (if \<not> errorsIs err ErrImplicitRouterSelection then failE err
           else implicitFallback ko f err (forwardCleanAll env f) (forwardFailed env f))
      | Inr rkey \<Rightarrow>
          (let routerRef = routerRefStorage ns rkey in
           settleTargets ko f routerRef
             (cleanupRouterTargets env ns (durableRouterTargets (pfMeta f) [statusRef]) routerRef (removeForward f))
             (forwardFailed env f)
             (forwardClaimAndApply env f rkey routerRef address destination))))"

definition reconcilePortForward :: "'w env \<Rightarrow> portForward \<Rightarrow> ('w, result) prog" where
  "reconcilePortForward env f =
     (let ns = omNamespace (pfMeta f); statusRef = ptRouterRef (pfStatusOf f);
         specRef = psRouterRef (pfSpecOf f); ko = forwardOps env
     in if isDeleting (pfMeta f)
        then bindE (cleanupRouterTargets env ns (durableRouterTargets (pfMeta f) [statusRef, specRef]) [] (removeForward f)) (\<lambda>_.
               dropFinalizer ko f)
        else addFinalizerFirst ko f
          (forwardServiceTarget env f (\<lambda>address0.
            forwardPodTarget env f address0 (\<lambda>address.
              if parseIP address = None
              then (case psServiceRef (pfSpecOf f) of
                      Some _ \<Rightarrow> cleanThen (forwardCleanAll env f)
                                 (\<lambda>ce. forwardFailed env f (Joined [notAnIP ''target'' address, ce]))
                                 (forwardFailed env f (notAnIP ''target'' address))
                    | None \<Rightarrow> forwardFailed env f (notAnIP ''target'' address))
              else let destination = portForwardDestinationAddress f in
                if destination \<noteq> [] \<and> parseIP destination = None
                then forwardFailed env f (notAnIP ''destination'' destination)
                else forwardRoute env f address destination))))"

definition PortForwardReconcile :: "'w env \<Rightarrow> nsname \<Rightarrow> ('w, result) prog" where
  "PortForwardReconcile env key = getOrIgnore (stGet (kForwards env) key) (reconcilePortForward env)"

section \<open>Watches\<close>

definition forwardsReferring ::
  "'w env \<Rightarrow> (portForwardSpec \<Rightarrow> nsname option) \<Rightarrow> objectMeta \<Rightarrow> ('w, nsname list) prog" where
  "forwardsReferring env ref object =
     tryE (stList (kForwards env) (omNamespace object)) (\<lambda>x. case x of
       Inl _ \<Rightarrow> returnE []
     | Inr fs \<Rightarrow>
         returnE (map (\<lambda>f. metaKey (pfMeta f))
           (filter (\<lambda>f. ref (pfSpecOf f) = Some (mkName (omNamespace object) (omName object))) fs)))"

definition portForwardsForService :: "'w env \<Rightarrow> service \<Rightarrow> ('w, nsname list) prog" where
  "portForwardsForService env s = forwardsReferring env psServiceRef (svMeta s)"

definition portForwardsForPod :: "'w env \<Rightarrow> pod \<Rightarrow> ('w, nsname list) prog" where
  "portForwardsForPod env p = forwardsReferring env psPodRef (podMeta p)"

end
