(* ===== verification/RouterOS_Frames.thy ===== *)
theory RouterOS_Frames
  imports RouterOS_Client
begin

text \<open>
  Frames of the client: an operation sends nothing but the sentences of its runner, so it keeps
  whatever relation the runner keeps.  The removals keep what listing and removing keep, whatever
  an addition does.
\<close>

text \<open>The sentences a removal sends.\<close>

definition removalSentence :: "string list \<Rightarrow> bool" where
  "removalSentence args \<longleftrightarrow>
     (\<exists>m x. args = [m @ ''/print'', x] \<or> args = [m @ ''/remove'', x])"

lemma removalSentence_cmds [simp]:
  "removalSentence [''/ip/dns/static/print'', x]" "removalSentence [''/ip/dns/static/remove'', x]"
  "removalSentence [''/ip/firewall/nat/print'', x]" "removalSentence [''/ip/firewall/nat/remove'', x]"
  "removalSentence [''/ip/firewall/filter/print'', x]" "removalSentence [''/ip/firewall/filter/remove'', x]"
  "removalSentence [''/ip/route/print'', x]" "removalSentence [''/ip/route/remove'', x]"
proof -
  have "\<exists>m. ''/ip/dns/static/print'' = m @ ''/print''" "\<exists>m. ''/ip/dns/static/remove'' = m @ ''/remove''"
    "\<exists>m. ''/ip/firewall/nat/print'' = m @ ''/print''" "\<exists>m. ''/ip/firewall/nat/remove'' = m @ ''/remove''"
    "\<exists>m. ''/ip/firewall/filter/print'' = m @ ''/print''" "\<exists>m. ''/ip/firewall/filter/remove'' = m @ ''/remove''"
    "\<exists>m. ''/ip/route/print'' = m @ ''/print''" "\<exists>m. ''/ip/route/remove'' = m @ ''/remove''"
    by (rule exI[of _ "''/ip/dns/static''"] exI[of _ "''/ip/firewall/nat''"]
        exI[of _ "''/ip/firewall/filter''"] exI[of _ "''/ip/route''"], simp)+
  thus "removalSentence [''/ip/dns/static/print'', x]" "removalSentence [''/ip/dns/static/remove'', x]"
    "removalSentence [''/ip/firewall/nat/print'', x]" "removalSentence [''/ip/firewall/nat/remove'', x]"
    "removalSentence [''/ip/firewall/filter/print'', x]" "removalSentence [''/ip/firewall/filter/remove'', x]"
    "removalSentence [''/ip/route/print'', x]" "removalSentence [''/ip/route/remove'', x]"
    unfolding removalSentence_def by auto
qed

context frame
begin

lemma keeps_managedEntries:
  assumes "keeps R (run [printCmd, ''=.proplist='' @ joinWith '','' ps])"
  shows "keeps R (managedEntries run printCmd matches ps)"
  unfolding managedEntries_def
  by (rule keeps_bind[OF assms]) (simp add: keeps_fail keeps_read split: option.split)

lemma keeps_runContext: "keeps R (run args) \<Longrightarrow> keeps R (runContext run args)"
  unfolding runContext_def by (rule keeps_bind) (simp_all add: keeps_return)

lemma keeps_deleteMatching:
  assumes "\<And>x. keeps R (run [printCmd, x])" and "\<And>x. keeps R (run [removeCmd, x])"
  shows "keeps R (deleteMatching run printCmd removeCmd matches)"
  unfolding deleteMatching_def
  by (intro keeps_bind keeps_managedEntries keeps_for keeps_runContext assms)

lemma keeps_removals:
  assumes run: "\<And>args. removalSentence args \<Longrightarrow> keeps R (run args)"
  shows "keeps R (DeleteDNS run c)" "keeps R (DeleteRoute run c)" "keeps R (DeletePortForward run c)"
    "keeps R (DeleteFirewallRule run c)" "keeps R (DeleteRoutesByPrefix run c)"
    "keeps R (DeleteManagedConfiguration run)"
  unfolding DeleteDNS_def DeleteRoute_def DeletePortForward_def DeleteFirewallRule_def
    DeleteRoutesByPrefix_def DeleteManagedConfiguration_def deleteByComment_def deleteByCommentPrefix_def
  by (intro keeps_deleteMatching run removalSentence_cmds keeps_for;
      auto intro!: keeps_deleteMatching run)+

lemma keeps_firstIDsByChain: "(\<And>args. keeps R (run args)) \<Longrightarrow> keeps R (firstIDsByChain run cmd)"
  unfolding firstIDsByChain_def by (intro keeps_bind keeps_managedEntries keeps_return)

lemma keeps_operations:
  assumes run: "\<And>args. keeps R (run args)"
  shows "keeps R (EnsureDNS run n a t c)" "keeps R (ensureRoute run d g k c)"
    "keeps R (EnsurePortForward run f c)" "keeps R (EnsureFirewallRule run rule c)"
    "keeps R (EnsureRouteWithDistance run d g k c)"
  unfolding EnsureDNS_def ensureRoute_def EnsurePortForward_def EnsureFirewallRule_def
    EnsureRouteWithDistance_def replaceFirewallRule_def firewallRulePrecedesUnmanaged_def Let_def
  by (auto intro!: keeps_combinators keeps_managedEntries keeps_runContext keeps_removals
        keeps_firstIDsByChain run split: prod.split)

end

end
