(* ===== verification/Kube_Frame.thy ===== *)
theory Kube_Frame
  imports Child_Reconcile RouterOS_Frames
begin

text \<open>
  Frames of the controllers.  The locale \<open>kube_frame\<close> states that a relation between worlds is kept
  by every call to the API server that does not mark an object as applied; then every helper of the
  controllers that only talks to the API server keeps it.  \<open>cleanup_frame\<close> adds that dialling a
  router and removing entries keep it, and then every cleanup does.  The properties of the
  reconcilers are instances: for a relation that only one step can break, a broken relation proves
  that the step was reached, and with it everything the code checks before it.
\<close>

definition storeKeeps :: "('w \<Rightarrow> 'w \<Rightarrow> bool) \<Rightarrow> ('o \<Rightarrow> bool) \<Rightarrow> ('w, 'o) store \<Rightarrow> bool" where
  "storeKeeps R ok st \<longleftrightarrow>
     (\<forall>k. keeps R (stGet st k)) \<and> (\<forall>ns. keeps R (stList st ns)) \<and> (\<forall>x. keeps R (stCreate st x)) \<and>
     (\<forall>x. keeps R (stUpdate st x)) \<and> (\<forall>x. keeps R (stDelete st x)) \<and>
     (\<forall>x. ok x \<longrightarrow> keeps R (stUpdateStatus st x))"

lemma storeKeepsD:
  assumes "storeKeeps R ok st"
  shows "keeps R (stGet st k)" "keeps R (stList st ns)" "keeps R (stCreate st x)"
    "keeps R (stUpdate st x)" "keeps R (stDelete st x)" "ok x \<Longrightarrow> keeps R (stUpdateStatus st x)"
  using assms by (simp_all add: storeKeeps_def)

text \<open>The release that comes with acquired claims.\<close>

lemma acquired_release:
  assumes "acquireGeneratedChildClaims env o' ref ip ds fs w = (Inr (v, release), w')"
  shows "release = returnE () \<or> (\<exists>k. release = kClaimUnfence env k)"
  using assms unfolding acquireGeneratedChildClaims_def Let_def
  by (auto elim!: bindE_InrE tryE_E split: sum.splits if_splits)

text \<open>The configuration kinds read routers and services, they do not write them.\<close>

definition storeReads :: "('w \<Rightarrow> 'w \<Rightarrow> bool) \<Rightarrow> ('w, 'o) store \<Rightarrow> bool" where
  "storeReads R st \<longleftrightarrow> (\<forall>k. keeps R (stGet st k)) \<and> (\<forall>ns. keeps R (stList st ns))"

lemma storeReadsD:
  assumes "storeReads R st"
  shows "keeps R (stGet st k)" "keeps R (stList st ns)"
  using assms by (simp_all add: storeReads_def)

text \<open>What only reads: every program that looks at the API server and takes the fences.\<close>

locale read_frame = guarded_frame R I
  for R :: "'w \<Rightarrow> 'w \<Rightarrow> bool" and I :: "'w \<Rightarrow> bool" +
  fixes env :: "'w env"
  assumes stores_read: "storeReads R (kRouters env)" "storeReads R (kDNS env)" "storeReads R (kForwards env)"
      "storeReads R (kRoutes env)" "storeReads R (kFirewall env)" "storeReads R (kServices env)"
    and reads_keep: "keeps R (kGetPod env k)" "keeps R (kListNodes env)" "keeps R (kGetSecret env k)"
    and fences_keep: "keeps R (kFence env k)" "keeps R (kUnfence env k)"
      "keeps R (kClaimFence env k)" "keeps R (kClaimUnfence env k)"
begin

lemmas read_keeps = stores_read[THEN storeReadsD(1)] stores_read[THEN storeReadsD(2)] reads_keep fences_keep

lemmas read_rules = keeps_combinators keeps_branches read_keeps

lemma keeps_getMikroTikRouter: "keeps R (getMikroTikRouter env k)"
  unfolding getMikroTikRouter_def listMikroTikRouter_def by (intro read_rules)

lemma keeps_uniqueClusterRouter: "keeps R (uniqueClusterRouter env n)"
  unfolding uniqueClusterRouter_def by (intro read_rules)

lemma keeps_resolveRouterReference: "keeps R (resolveRouterReference env ns ref)"
  unfolding resolveRouterReference_def
  by (intro read_rules keeps_getMikroTikRouter keeps_uniqueClusterRouter)

lemma keeps_ensureRouterActive: "keeps R (ensureRouterActive env r)"
  unfolding ensureRouterActive_def ensureRouterEndpointOwnership_def by (intro read_rules)

lemma keeps_nowE: "keeps R (nowE env)"
  unfolding nowE_def by (rule keeps_read)

lemma keeps_void: "keeps R m \<Longrightarrow> keeps R (voidE m)"
  unfolding voidE_def by (intro read_rules)

lemma keeps_thenReturn: "keeps R m \<Longrightarrow> keeps R (thenReturn m x)"
  unfolding thenReturn_def by (intro read_rules)

lemma keeps_getOrIgnore: "keeps R m \<Longrightarrow> (\<And>x. keeps R (f x)) \<Longrightarrow> keeps R (getOrIgnore m f)"
  unfolding getOrIgnore_def ignoreNotFound_def by (intro read_rules)

lemma ends_getOrIgnore:
  assumes "keeps R m" and "\<And>x. returns I m x \<Longrightarrow> ends R G (f x)"
  shows "ends R G (getOrIgnore m f)"
  unfolding getOrIgnore_def
proof (rule ends_try_in[OF assms(1)])
  fix w x w1 assume I: "I w" and m: "m w = (x, w1)"
  show "ends R G (case x of Inl e \<Rightarrow> ignoreNotFound e | Inr o' \<Rightarrow> f o')"
  proof (cases x)
    case (Inl e)
    thus ?thesis by (simp add: ignoreNotFound_def ends_keeps keeps_return keeps_fail)
  next
    case (Inr y)
    with m I have "returns I m y" by (auto intro: returnsI)
    with Inr assms(2) show ?thesis by simp
  qed
qed

lemma keeps_withFence:
  "(\<And>k. keeps R (acquire k)) \<Longrightarrow> (\<And>k. keeps R (release k)) \<Longrightarrow> keeps R m \<Longrightarrow> keeps R (withFence acquire release k m)"
  unfolding withFence_def by (intro read_rules)

text \<open>Cluster routes.\<close>

lemma keeps_routeGateways: "keeps R (routeGateways env s)"
  unfolding routeGateways_def by (intro read_rules)

lemma keeps_loadNodes: "keeps R (loadNodes env s c)"
  unfolding loadNodes_def by (intro read_rules keeps_routeGateways)

lemma keeps_hopsFrom: "keeps R (hopsFrom env s r c h es)"
  by (induction es arbitrary: c h) (auto simp: Let_def intro!: read_rules keeps_loadNodes)

lemma keeps_clusterRouteHops: "keeps R (clusterRouteHops env s ns ref)"
  unfolding clusterRouteHops_def desiredClusterRouteHops_def
  by (intro read_rules keeps_routeGateways keeps_getMikroTikRouter keeps_hopsFrom)

lemma keeps_candidatesFrom: "keeps R (candidatesFrom env req acc ss)"
  by (induction ss arbitrary: acc) (auto intro!: read_rules keeps_clusterRouteHops)

text \<open>Claims.\<close>

lemma keeps_resolveRefs: "keeps R (resolveRefs env ns keys refs)"
  by (induction refs arbitrary: keys)
     (auto simp: Let_def intro!: read_rules keeps_resolveRouterReference)

lemma keeps_generatedClaimRouterRefs: "keeps R (generatedClaimRouterRefs env v)"
  unfolding generatedClaimRouterRefs_def by (intro read_rules keeps_resolveRouterReference keeps_resolveRefs)

lemma keeps_ownClaimFrom: "keeps R (ownClaimFrom env o' k view wanted has xs)"
  by (induction xs arbitrary: has) (auto intro!: read_rules keeps_generatedClaimRouterRefs)

lemma keeps_conflictFrom: "keeps R (conflictFrom env o' k view claimed has xs)"
proof (induction xs)
  case (Cons x xs)
  then show ?case unfolding conflictFrom.simps by (intro read_rules keeps_generatedClaimRouterRefs)
qed (simp add: keeps_def frame_refl)

lemma keeps_checkChild: "(\<And>k. keeps R (stGet st k)) \<Longrightarrow> keeps R (checkChild st view l o' n)"
  unfolding checkChild_def by (intro read_rules)

lemma keeps_preflight: "keeps R (preflightGeneratedChildClaims env o' ref ip ds fs)"
  unfolding preflightGeneratedChildClaims_def
  by (intro read_rules keeps_resolveRouterReference keeps_checkChild keeps_ownClaimFrom keeps_conflictFrom)

lemma keeps_acquire: "keeps R (acquireGeneratedChildClaims env o' ref ip ds fs)"
  unfolding acquireGeneratedChildClaims_def
  by (intro read_rules keeps_resolveRouterReference keeps_preflight)

lemma keeps_serviceAddress: "keeps R (serviceAddress env s)"
  unfolding serviceAddress_def by (intro read_rules)

end

locale kube_frame = guarded_frame R I
  for R :: "'w \<Rightarrow> 'w \<Rightarrow> bool" and I :: "'w \<Rightarrow> bool" +
  fixes env :: "'w env"
  assumes routers_keep: "storeReads R (kRouters env)"
    and dns_keep: "storeKeeps R (\<lambda>r. \<not> dtApplied (dnsStatusOf r)) (kDNS env)"
    and forwards_keep: "storeKeeps R (\<lambda>f. \<not> ptApplied (pfStatusOf f)) (kForwards env)"
    and routes_keep: "storeKeeps R (\<lambda>r. \<not> otApplied (routeStatusOf r)) (kRoutes env)"
    and firewall_keep: "storeKeeps R (\<lambda>r. \<not> ftApplied (fwStatusOf r)) (kFirewall env)"
    and services_keep: "storeReads R (kServices env)"
    and kube_reads_keep: "keeps R (kGetPod env k)" "keeps R (kListNodes env)" "keeps R (kGetSecret env k)"
    and kube_fences_keep: "keeps R (kFence env k)" "keeps R (kUnfence env k)"
      "keeps R (kClaimFence env k)" "keeps R (kClaimUnfence env k)"

sublocale kube_frame \<subseteq> read_frame R I env
  using routers_keep dns_keep forwards_keep routes_keep firewall_keep services_keep kube_reads_keep kube_fences_keep
  by unfold_locales (auto simp: storeKeeps_def storeReads_def)

context kube_frame
begin

lemmas store_keeps = storeReadsD[OF routers_keep] storeKeepsD[OF dns_keep] storeKeepsD[OF forwards_keep]
  storeKeepsD[OF routes_keep] storeKeepsD[OF firewall_keep] storeReadsD[OF services_keep]

lemmas api_keeps = store_keeps reads_keep fences_keep

lemmas rules = keeps_combinators keeps_branches api_keeps

lemma keeps_persist: "(\<And>m. keeps R (put m)) \<Longrightarrow> keeps R (persistDurableRouterTarget put m ts)"
  unfolding persistDurableRouterTarget_def by (intro rules)

lemma keeps_compact: "(\<And>m. keeps R (put m)) \<Longrightarrow> keeps R (compactDurableRouterTarget put m t)"
  unfolding compactDurableRouterTarget_def by (intro rules)

lemma keeps_putStatus: "keeps R (stUpdateStatus st x) \<Longrightarrow> keeps R (putStatus st b x n)"
  unfolding putStatus_def by (intro rules)

lemma keeps_failed:
  "keeps R (dnsFailed env d e)" "keeps R (forwardFailed env f e)" "keeps R (routeFailed env r e)"
  "keeps R (firewallFailed env w e)"
  unfolding dnsFailed_def forwardFailed_def routeFailed_def firewallFailed_def
  by (intro keeps_bind keeps_nowE keeps_Let keeps_putStatus api_keeps TrueI; simp)+

lemma keeps_deleteIgnoringMissing: "keeps R (deleteIgnoringMissing (kRoutes env) r)"
  unfolding deleteIgnoringMissing_def by (intro rules)

lemma keeps_applyCandidate: "keeps R (applyCandidate env req c)"
  unfolding applyCandidate_def by (intro rules keeps_void)

lemma keeps_reconcileOwnedClusterRoutes: "keeps R (reconcileOwnedClusterRoutes env req)"
  unfolding reconcileOwnedClusterRoutes_def desiredClusterRouteCandidates_def
  by (intro rules keeps_candidatesFrom keeps_applyCandidate keeps_deleteIgnoringMissing)

text \<open>The steps the configuration kinds share, for a kind whose store keeps \<open>R\<close>.\<close>

lemma keeps_putMeta: "storeKeeps R ok (koStore ko) \<Longrightarrow> keeps R (putMeta ko x m)"
  unfolding putMeta_def by (intro keeps_void storeKeepsD)

lemma keeps_dropFinalizer: "storeKeeps R ok (koStore ko) \<Longrightarrow> keeps R (dropFinalizer ko x)"
  unfolding dropFinalizer_def by (intro rules keeps_thenReturn keeps_putMeta)

lemma keeps_addFinalizerFirst:
  "storeKeeps R ok (koStore ko) \<Longrightarrow> (containsFinalizer (koMeta ko x) resourceFinalizer \<Longrightarrow> keeps R m) \<Longrightarrow>
   keeps R (addFinalizerFirst ko x m)"
  unfolding addFinalizerFirst_def by (intro rules keeps_thenReturn keeps_putMeta) auto

lemma keeps_implicitFallback:
  assumes "storeKeeps R ok (koStore ko)" and "ok (koClear ko x)" and "keeps R cleanup" and "\<And>e. keeps R (fail e)"
  shows "keeps R (implicitFallback ko x e cleanup fail)"
  unfolding implicitFallback_def
  by (intro rules keeps_thenReturn keeps_persist keeps_compact keeps_putMeta[OF assms(1)]
      storeKeepsD(6)[OF assms(1)] assms)

lemma keeps_settleTargets:
  assumes "storeKeeps R ok (koStore ko)" and "ok (koClear ko x)" and "keeps R cleanup" and "\<And>e. keeps R (fail e)"
    and "targetsOf ko x = ref \<Longrightarrow> keeps R continue"
  shows "keeps R (settleTargets ko x ref cleanup fail continue)"
  unfolding settleTargets_def
  by (intro rules keeps_thenReturn keeps_persist keeps_compact keeps_putMeta[OF assms(1)]
      storeKeepsD(6)[OF assms(1)] assms) auto

end

section \<open>Cleanups\<close>

text \<open>Connections that come from the factory.\<close>

definition dialled :: "'w env \<Rightarrow> 'w routerConnection \<Rightarrow> bool" where
  "dialled env c \<longleftrightarrow> (\<exists>u pw w w'. kFactory env (epAddress (cnEndpoint c)) (epPort (cnEndpoint c))
      (epTLS (cnEndpoint c)) u pw w = (Inr (cnClient c), w'))"

lemma connectFrom_dialled:
  assumes "connectFrom env r cs es w = (Inr cs', w')" and "\<forall>c\<in>set cs. dialled env c"
  shows "\<forall>c\<in>set cs'. dialled env c"
  using assms
proof (induction es arbitrary: cs w)
  case (Cons e es)
  from Cons.prems(1) obtain secret w1 cl w2
    where dial: "kFactory env (epAddress e) (epPort e) (epTLS e) (mget secret ''username'')
            (mget secret ''password'') w1 = (Inr cl, w2)"
    and rest: "connectFrom env r (cs @ [\<lparr>cnEndpoint = e, cnClient = cl\<rparr>]) es w2 = (Inr cs', w')"
    by (auto split: if_splits sum.splits elim!: tryE_E bindE_InrE)
  have "dialled env \<lparr>cnEndpoint = e, cnClient = cl\<rparr>"
    using dial by (auto simp: dialled_def)
  with Cons.prems(2) show ?case by (intro Cons.IH[OF rest]) simp
qed simp

lemma connectRouterClients_dialled:
  "connectRouterClients env r w = (Inr cs, w') \<Longrightarrow> c \<in> set cs \<Longrightarrow> dialled env c"
  using connectFrom_dialled[of env r "[]"] by (simp add: connectRouterClients_def)

text \<open>Opening and closing connections keeps the relation.\<close>

locale dial_frame = kube_frame R I env
  for R :: "'w \<Rightarrow> 'w \<Rightarrow> bool" and I :: "'w \<Rightarrow> bool" and env :: "'w env" +
  assumes factory_keeps: "keeps R (kFactory env a p t u pw)"
    and close_keeps: "dialled env c \<Longrightarrow> keeps R (rcClose (cnClient c))"
begin

lemma keeps_closeRouterConnections:
  "(\<And>c. c \<in> set cs \<Longrightarrow> dialled env c) \<Longrightarrow> keeps R (closeRouterConnections cs)"
  unfolding closeRouterConnections_def by (intro keeps_for keeps_try keeps_return close_keeps)

lemma keeps_connectFrom:
  assumes "\<And>c. c \<in> set cs \<Longrightarrow> dialled env c"
  shows "keeps R (connectFrom env r cs es)"
  using assms
proof (induction es arbitrary: cs)
  case (Cons e es)
  have step: "keeps R (case c of
      Inl err \<Rightarrow> bindE (closeRouterConnections cs) (\<lambda>_. failE err)
    | Inr cl \<Rightarrow> connectFrom env r (cs @ [\<lparr>cnEndpoint = e, cnClient = cl\<rparr>]) es)"
    if "kFactory env (epAddress e) (epPort e) (epTLS e) u pw w = (c, w1)" for c u pw w w1
  proof (cases c)
    case (Inr cl)
    with that have "dialled env \<lparr>cnEndpoint = e, cnClient = cl\<rparr>" by (auto simp: dialled_def)
    with Cons.prems have "keeps R (connectFrom env r (cs @ [\<lparr>cnEndpoint = e, cnClient = cl\<rparr>]) es)"
      by (intro Cons.IH) auto
    with Inr show ?thesis by simp
  qed (use Cons.prems in \<open>simp add: keeps_bind keeps_fail keeps_closeRouterConnections\<close>)
  have close: "keeps R (closeRouterConnections cs)"
    by (rule keeps_closeRouterConnections) (rule Cons.prems)
  show ?case
    unfolding connectFrom.simps
    by (intro keeps_if keeps_fail keeps_try keeps_sum keeps_bind close reads_keep
        keeps_try_result[OF factory_keeps step])
qed (simp add: keeps_def frame_refl)

lemma keeps_connectRouterClients: "keeps R (connectRouterClients env r)"
  unfolding connectRouterClients_def by (rule keeps_connectFrom) simp

lemma keeps_withConnections:
  assumes "\<And>cs. (\<And>c. c \<in> set cs \<Longrightarrow> dialled env c) \<Longrightarrow> keeps R (operation cs)"
  shows "keeps R (withConnections env r operation)"
  unfolding withConnections_def
  by (rule keeps_bind_result[OF keeps_connectRouterClients])
     (rule keeps_defer; rule assms keeps_closeRouterConnections; erule (1) connectRouterClients_dialled)

lemma keeps_withRouterConnections:
  assumes "\<And>r cs. (\<And>c. c \<in> set cs \<Longrightarrow> dialled env c) \<Longrightarrow> keeps R (operation r cs)"
  shows "keeps R (withRouterConnections env key active operation)"
  unfolding withRouterConnections_def
  by (intro rules keeps_withFence keeps_getMikroTikRouter keeps_ensureRouterActive keeps_withConnections assms)
     simp_all

lemma keeps_forConnections:
  assumes "\<And>c. c \<in> set cs \<Longrightarrow> dialled env c" and "\<And>c. dialled env c \<Longrightarrow> keeps R (f (cnClient c))"
  shows "keeps R (forConnections f r cs)"
  unfolding forConnections_def by (intro keeps_for assms)

lemma keeps_cleanupRouterTargets:
  assumes "\<And>c. dialled env c \<Longrightarrow> keeps R (cleanup (cnClient c))"
  shows "keeps R (cleanupRouterTargets env ns targets exclude cleanup)"
  unfolding cleanupRouterTargets_def cleanupTarget_def
  by (intro rules keeps_withRouterConnections keeps_forConnections assms)

end

text \<open>So do listing and removing entries.\<close>

locale cleanup_frame = dial_frame R I env
  for R :: "'w \<Rightarrow> 'w \<Rightarrow> bool" and I :: "'w \<Rightarrow> bool" and env :: "'w env" +
  assumes removal_keeps: "dialled env c \<Longrightarrow> removalSentence args \<Longrightarrow> keeps R (rcRun (cnClient c) args)"
begin

lemmas removals_keep = keeps_removals[OF removal_keeps]

lemma keeps_cleanups:
  "keeps R (cleanRoute env r ts x)" "keeps R (cleanFirewall env fw ts x)"
  "keeps R (dnsCleanup env d ref)" "keeps R (dnsCleanAll env d)"
  "keeps R (forwardCleanup env f ref)" "keeps R (forwardCleanAll env f)"
  "keeps R (cleanupRouterTargets env ns ts x (removeForward f))"
  "keeps R (cleanupRouterTargets env ns ts x (\<lambda>c. DeleteDNS (rcRun c) cm))"
proof -
  have fwd: "dialled env c \<Longrightarrow> keeps R (removeForward f (cnClient c))" for c f
    unfolding removeForward_def by (intro keeps_bind removals_keep)
  show dns: "keeps R (dnsCleanup env d ref)" for d ref
    unfolding dnsCleanup_def ignoringMissing_def
    by (intro rules keeps_reconcileOwnedClusterRoutes keeps_withRouterConnections keeps_forConnections removals_keep)
  show forward: "keeps R (forwardCleanup env f ref)" for f ref
    unfolding forwardCleanup_def ignoringMissing_def
    by (intro rules keeps_withRouterConnections keeps_forConnections fwd)
  show "keeps R (cleanRoute env r ts x)" "keeps R (cleanFirewall env fw ts x)"
    "keeps R (dnsCleanAll env d)" "keeps R (forwardCleanAll env f)"
    "keeps R (cleanupRouterTargets env ns ts x (removeForward f))"
    "keeps R (cleanupRouterTargets env ns ts x (\<lambda>c. DeleteDNS (rcRun c) cm))"
    unfolding cleanRoute_def cleanFirewall_def dnsCleanAll_def forwardCleanAll_def
    by (intro keeps_cleanupRouterTargets removals_keep keeps_for dns forward fwd; assumption)+
qed

end

end
