(* ===== verification/Reconcile_Frame.thy ===== *)
theory Reconcile_Frame
  imports Kube_Frame
begin

text \<open>
  What the reconcilers of the four configuration kinds keep: whatever relation the API calls and the
  cleanups keep, they keep too, unless they reach the step that applies the configuration; and
  everything that was checked before that step is at hand there.
\<close>

text \<open>The object is alive, has its finalizer, and its annotation names the resolved router.\<close>

definition settled :: "('w \<Rightarrow> bool) \<Rightarrow> 'w env \<Rightarrow> objectMeta \<Rightarrow> string \<Rightarrow> nsname \<Rightarrow> bool" where
  "settled I env m specRef rkey \<longleftrightarrow>
     \<not> isDeleting m \<and> containsFinalizer m resourceFinalizer \<and>
     returns I (resolveRouterReference env (omNamespace m) specRef) rkey \<and>
     mget (omAnnotations m) durableRouterTargetsAnnotation = routerRefStorage (omNamespace m) rkey"

text \<open>The address a DNS record stands for, and the service it comes from.\<close>

definition dnsAddressed :: "('w \<Rightarrow> bool) \<Rightarrow> 'w env \<Rightarrow> dnsRecord \<Rightarrow> string \<Rightarrow> service option \<Rightarrow> bool" where
  "dnsAddressed I env r address referenced \<longleftrightarrow>
     (case dsServiceRef (dnsSpecOf r) of
        None \<Rightarrow> address = dsAddress (dnsSpecOf r) \<and> referenced = None
      | Some ref \<Rightarrow> \<exists>s. referenced = Some s \<and> returns I (stGet (kServices env) ref) s \<and>
          returns I (serviceAddress env s) address)"

text \<open>The target and the public address of a port forward.\<close>

definition forwardAddressed :: "portForward \<Rightarrow> string \<Rightarrow> string \<Rightarrow> bool" where
  "forwardAddressed f address destination \<longleftrightarrow>
     parseIP address \<noteq> None \<and> (psTargetAddress (pfSpecOf f) \<noteq> [] \<longrightarrow> address = psTargetAddress (pfSpecOf f)) \<and>
     destination = portForwardDestinationAddress f \<and> (destination \<noteq> [] \<longrightarrow> parseIP destination \<noteq> None)"

lemma settledI:
  assumes "\<not> isDeleting m" and "containsFinalizer m resourceFinalizer"
    and "resolveRouterReference env (omNamespace m) specRef w = (Inr rkey, w')" and "I w"
    and "mget (omAnnotations m) durableRouterTargetsAnnotation = routerRefStorage (omNamespace m) rkey"
  shows "settled I env m specRef rkey"
  using assms unfolding settled_def by (blast intro: returnsI)

context cleanup_frame
begin

lemma ends_resolve_result:
  assumes "\<And>e. ends R G (f (Inl e))"
    and "\<And>rkey w w'. I w \<Longrightarrow> resolveRouterReference env ns ref w = (Inr rkey, w') \<Longrightarrow> ends R G (f (Inr rkey))"
  shows "ends R G (tryE (resolveRouterReference env ns ref) f)"
proof (rule ends_try_in[OF keeps_resolveRouterReference])
  fix w x w1 assume "I w" "resolveRouterReference env ns ref w = (x, w1)"
  thus "ends R G (f x)" by (cases x) (use assms in auto)
qed

lemma ends_addFinalizerFirst:
  "storeKeeps R ok (koStore ko) \<Longrightarrow> (containsFinalizer (koMeta ko x) resourceFinalizer \<Longrightarrow> ends R G m) \<Longrightarrow>
   ends R G (addFinalizerFirst ko x m)"
  unfolding addFinalizerFirst_def by (simp add: ends_keeps keeps_thenReturn keeps_putMeta)

text \<open>The steps from the resolved router on are the same for every kind.\<close>

lemma ends_settle_apply:
  assumes store: "storeKeeps R ok (koStore ko)" and clear: "ok (koClear ko x)"
    and alive: "\<not> isDeleting (koMeta ko x)" "containsFinalizer (koMeta ko x) resourceFinalizer"
    and resolve: "resolveRouterReference env (omNamespace (koMeta ko x)) specRef w = (Inr rkey, w')" "I w"
    and cleanup: "keeps R cleanup" and fail: "\<And>e. keeps R (fail e)"
    and continue: "settled I env (koMeta ko x) specRef rkey \<Longrightarrow> ends R G continue"
  shows "ends R G (settleTargets ko x (routerRefStorage (omNamespace (koMeta ko x)) rkey) cleanup fail continue)"
proof (cases "targetsOf ko x = routerRefStorage (omNamespace (koMeta ko x)) rkey")
  case False
  thus ?thesis by (intro ends_keeps keeps_settleTargets[OF store clear cleanup fail]) simp
next
  case True
  have "ends R G continue"
    using True alive resolve by (intro continue settledI) (auto simp: targetsOf_def)
  with True show ?thesis
    by (simp add: settleTargets_def ends_keeps keeps_thenReturn storeKeepsD(6)[OF store clear])
qed

lemma ends_reconcileRoute:
  assumes applies: "\<And>rkey. settled I env (routeMeta r) (osRouterRef (routeSpecOf r)) rkey \<Longrightarrow>
    ends R G (routeApply env r rkey (routerRefStorage (omNamespace (routeMeta r)) rkey))"
  shows "ends R G (reconcileRoute env r)"
proof -
  let ?ko = "routeOps env"
  have ko: "koMeta ?ko = routeMeta" by (simp add: routeOps_def)
  have store: "storeKeeps R (\<lambda>r. \<not> otApplied (routeStatusOf r)) (koStore ?ko)"
    by (simp add: routeOps_def routes_keep)
  have clear: "\<not> otApplied (routeStatusOf (koClear ?ko r))"
    by (simp add: routeOps_def)
  note settle = ends_settle_apply[OF store clear, unfolded ko]
  show ?thesis
    unfolding reconcileRoute_def Let_def
    by (intro ends_if ends_bind ends_addFinalizerFirst[OF store] ends_resolve_result)
       (simp_all add: ko ends_keeps keeps_dropFinalizer[OF store] keeps_failed
          keeps_implicitFallback[OF store clear] keeps_cleanups applies settle)
qed

lemma ends_reconcileFirewallRule:
  assumes applies: "\<And>rkey. settled I env (fwMeta r) (fsRouterRef (fwSpecOf r)) rkey \<Longrightarrow>
    fsChain (fwSpecOf r) \<noteq> [] \<Longrightarrow> ends R G (firewallApply env r rkey (routerRefStorage (omNamespace (fwMeta r)) rkey))"
  shows "ends R G (reconcileFirewallRule env r)"
proof -
  let ?ko = "firewallOps env"
  have ko: "koMeta ?ko = fwMeta" by (simp add: firewallOps_def)
  have store: "storeKeeps R (\<lambda>r. \<not> ftApplied (fwStatusOf r)) (koStore ?ko)"
    by (simp add: firewallOps_def firewall_keep)
  have clear: "\<not> ftApplied (fwStatusOf (koClear ?ko r))"
    by (simp add: firewallOps_def)
  note settle = ends_settle_apply[OF store clear, unfolded ko]
  show ?thesis
    unfolding reconcileFirewallRule_def Let_def
    by (intro ends_if ends_bind ends_addFinalizerFirst[OF store] ends_resolve_result)
       (simp_all add: ko ends_keeps keeps_dropFinalizer[OF store] keeps_failed
          keeps_implicitFallback[OF store clear] keeps_cleanups applies settle)
qed

lemma keeps_cleanThen:
  "keeps R m \<Longrightarrow> (\<And>e. keeps R (onErr e)) \<Longrightarrow> keeps R continue \<Longrightarrow> keeps R (cleanThen m onErr continue)"
  unfolding cleanThen_def by (intro rules)

lemmas failing = ends_keeps keeps_fail keeps_failed keeps_cleanThen keeps_cleanups

lemma ends_dnsAddress:
  assumes "\<And>a s. dnsAddressed I env r a s \<Longrightarrow> ends R G (continue a s)"
  shows "ends R G (dnsAddress env r continue)"
  unfolding dnsAddress_def
proof (rule ends_option)
  assume "dsServiceRef (dnsSpecOf r) = None"
  thus "ends R G (continue (dsAddress (dnsSpecOf r)) None)"
    by (intro assms) (simp add: dnsAddressed_def)
next
  fix ref assume ref: "dsServiceRef (dnsSpecOf r) = Some ref"
  have address: "ends R G (case y of
        Inl err \<Rightarrow> if errorsIs err ErrServiceNotAddressable
          then cleanThen (dnsCleanAll env r) (\<lambda>ce. dnsFailed env r (Joined [err, ce])) (dnsFailed env r err)
          else dnsFailed env r err
      | Inr address \<Rightarrow> continue address (Some s))"
    if "stGet (kServices env) ref w = (Inr s, w1)" "I w" and "serviceAddress env s v = (y, v1)" "I v" for s w w1 y v v1
    using that ref by (cases y) (auto simp: failing dnsAddressed_def intro!: assms intro: returnsI)
  show "ends R G (tryE (stGet (kServices env) ref) (\<lambda>x. case x of
        Inl err \<Rightarrow> if isNotFound err then cleanThen (dnsCleanAll env r) (dnsFailed env r) (dnsFailed env r err)
          else dnsFailed env r err
      | Inr s \<Rightarrow> tryE (serviceAddress env s) (\<lambda>y. case y of
          Inl err \<Rightarrow> if errorsIs err ErrServiceNotAddressable
            then cleanThen (dnsCleanAll env r) (\<lambda>ce. dnsFailed env r (Joined [err, ce])) (dnsFailed env r err)
            else dnsFailed env r err
        | Inr address \<Rightarrow> continue address (Some s))))"
    by (rule ends_try_in[OF api_keeps(27)], rule ends_sum)
       (simp add: failing, rule ends_try_in[OF keeps_serviceAddress], simp, rule address, assumption+)
qed

text \<open>After acquired claims, their release comes last.\<close>

text \<open>A pass that breaks the relation has read a settled object.\<close>

lemma broken_settled:
  assumes run: "getOrIgnore get body w = (res, w')" and broken: "\<not> R w w'" and get: "keeps R get"
    and body: "\<And>x. (\<And>rkey. \<not> settled I env (meta x) (ref x) rkey) \<Longrightarrow> keeps R (body x)"
  shows "\<exists>x w1 rkey. get w = (Inr x, w1) \<and> settled I env (meta x) (ref x) rkey"
proof -
  from run obtain s w1 where s: "get w = (s, w1)"
    and rest: "(case s of Inl e \<Rightarrow> ignoreNotFound e | Inr x \<Rightarrow> body x) w1 = (res, w')"
    unfolding getOrIgnore_def by (rule tryE_E)
  have w1: "R w w1" using keepsD[OF get s] .
  show ?thesis
  proof (cases s)
    case (Inl e)
    hence "w' = w1" using rest by (auto simp: ignoreNotFound_def split: if_splits)
    thus ?thesis using w1 broken by simp
  next
    case (Inr x)
    hence end_run: "body x w1 = (res, w')" using rest by simp
    have "\<not> keeps R (body x)"
    proof
      assume "keeps R (body x)"
      from frame_trans[OF w1 keepsD[OF this end_run]] show False using broken by simp
    qed
    hence "\<exists>rkey. settled I env (meta x) (ref x) rkey" using body[of x] by blast
    thus ?thesis using s Inr by blast
  qed
qed

lemma ends_acquire_then:
  assumes "\<And>e. ends R G (f (Inl e))"
    and "\<And>v release. keeps R release \<Longrightarrow> (\<And>w. G w \<Longrightarrow> G (snd (release w))) \<Longrightarrow> ends R G (f (Inr (v, release)))"
    and G: "\<And>k w. G w \<Longrightarrow> G (snd (kClaimUnfence env k w))"
  shows "ends R G (tryE (acquireGeneratedChildClaims env owner ref ip ds fs) f)"
proof (rule ends_try_result[OF keeps_acquire])
  fix w x w1 assume *: "acquireGeneratedChildClaims env owner ref ip ds fs w = (x, w1)"
  show "ends R G (f x)"
  proof (cases x)
    case (Inr y)
    with * obtain v release where "acquireGeneratedChildClaims env owner ref ip ds fs w = (Inr (v, release), w1)"
      "x = Inr (v, release)" by (cases y) auto
    moreover from this have "release = returnE () \<or> (\<exists>k. release = kClaimUnfence env k)"
      by (intro acquired_release)
    ultimately show ?thesis
      by (auto intro!: assms(2) keeps_return api_keeps G)
  qed (use assms(1) in simp)
qed

lemma ends_dnsClaimAndApply:
  assumes "ends R G (dnsApply env r rkey routerRef address referenced)"
    and G: "\<And>k w. G w \<Longrightarrow> G (snd (kClaimUnfence env k w))"
  shows "ends R G (dnsClaimAndApply env r rkey routerRef address referenced)"
  unfolding dnsClaimAndApply_def
  by (rule ends_acquire_then) (simp_all add: failing ends_defer assms)

lemma ends_reconcileDNS:
  assumes applies: "\<And>rkey address referenced. settled I env (dnsMeta r) (dsRouterRef (dnsSpecOf r)) rkey \<Longrightarrow>
      dnsAddressed I env r address referenced \<Longrightarrow> ends R G (dnsApply env r rkey (routerRefStorage (omNamespace (dnsMeta r)) rkey) address referenced)"
    and G: "\<And>k w. G w \<Longrightarrow> G (snd (kClaimUnfence env k w))"
  shows "ends R G (reconcileDNS env r)"
proof -
  let ?ko = "dnsOps env"
  have ko: "koMeta ?ko = dnsMeta" by (simp add: dnsOps_def)
  have store: "storeKeeps R (\<lambda>r. \<not> dtApplied (dnsStatusOf r)) (koStore ?ko)"
    by (simp add: dnsOps_def dns_keep)
  have clear: "\<not> dtApplied (dnsStatusOf (koClear ?ko r))"
    by (simp add: dnsOps_def)
  note settle = ends_settle_apply[OF store clear, unfolded ko]
  show ?thesis
    unfolding reconcileDNS_def Let_def
    by (intro ends_if ends_bind ends_addFinalizerFirst[OF store] ends_resolve_result)
       (simp_all add: ko failing keeps_dropFinalizer[OF store] keeps_implicitFallback[OF store clear] keeps_for
          ends_dnsAddress ends_dnsClaimAndApply applies G settle)
qed

lemma unsettled_keeps:
  "(\<And>rkey. \<not> settled I env (routeMeta r) (osRouterRef (routeSpecOf r)) rkey) \<Longrightarrow> keeps R (reconcileRoute env r)"
  "(\<And>rkey. \<not> settled I env (fwMeta fw) (fsRouterRef (fwSpecOf fw)) rkey) \<Longrightarrow> keeps R (reconcileFirewallRule env fw)"
  "(\<And>rkey. \<not> settled I env (dnsMeta d) (dsRouterRef (dnsSpecOf d)) rkey) \<Longrightarrow> keeps R (reconcileDNS env d)"
  using ends_reconcileRoute[where G = "\<lambda>_. False"] ends_reconcileFirewallRule[where G = "\<lambda>_. False"]
    ends_reconcileDNS[where G = "\<lambda>_. False"]
  unfolding ends_False by blast+

lemma ends_forwardTargets:
  "(\<And>a. psTargetAddress (pfSpecOf f) \<noteq> [] \<longrightarrow> a = psTargetAddress (pfSpecOf f) \<Longrightarrow> ends R G (continue a)) \<Longrightarrow>
   ends R G (forwardServiceTarget env f continue)"
  "(\<And>a'. a \<noteq> [] \<longrightarrow> a' = a \<Longrightarrow> ends R G (continue a')) \<Longrightarrow> ends R G (forwardPodTarget env f a continue)"
  unfolding forwardServiceTarget_def forwardPodTarget_def Let_def
  by (intro ends_combinators ends_branches api_keeps keeps_serviceAddress TrueI; simp add: failing)+

lemma ends_forwardClaimAndApply:
  assumes "ends R G (forwardApply env f rkey routerRef address destination)"
    and G: "\<And>k w. G w \<Longrightarrow> G (snd (kClaimUnfence env k w))"
  shows "ends R G (forwardClaimAndApply env f rkey routerRef address destination)"
  unfolding forwardClaimAndApply_def
  by (rule ends_acquire_then) (simp_all add: failing ends_defer assms)

lemma ends_reconcilePortForward:
  assumes applies: "\<And>rkey address destination. settled I env (pfMeta f) (psRouterRef (pfSpecOf f)) rkey \<Longrightarrow>
      forwardAddressed f address destination \<Longrightarrow> ends R G (forwardApply env f rkey (routerRefStorage (omNamespace (pfMeta f)) rkey) address destination)"
    and G: "\<And>k w. G w \<Longrightarrow> G (snd (kClaimUnfence env k w))"
  shows "ends R G (reconcilePortForward env f)"
proof -
  let ?ko = "forwardOps env"
  have ko: "koMeta ?ko = pfMeta" by (simp add: forwardOps_def)
  have store: "storeKeeps R (\<lambda>f. \<not> ptApplied (pfStatusOf f)) (koStore ?ko)"
    by (simp add: forwardOps_def forwards_keep)
  have clear: "\<not> ptApplied (pfStatusOf (koClear ?ko f))"
    by (simp add: forwardOps_def)
  note settle = ends_settle_apply[OF store clear, unfolded ko]
  have route: "ends R G (forwardRoute env f address destination)"
    if "\<not> isDeleting (pfMeta f)" "containsFinalizer (pfMeta f) resourceFinalizer"
      "forwardAddressed f address destination" for address destination
    unfolding forwardRoute_def Let_def
    by (rule ends_resolve_result)
       (simp_all add: that failing keeps_implicitFallback[OF store clear]
          ends_forwardClaimAndApply applies G settle)
  show ?thesis
    unfolding reconcilePortForward_def Let_def
    by (intro ends_if ends_bind keeps_cleanups ends_addFinalizerFirst[OF store] ends_forwardTargets ends_option)
       (auto simp: ko failing keeps_dropFinalizer[OF store] forwardAddressed_def intro!: route)
qed

lemma unsettled_forward_keeps:
  "(\<And>rkey. \<not> settled I env (pfMeta f) (psRouterRef (pfSpecOf f)) rkey) \<Longrightarrow> keeps R (reconcilePortForward env f)"
  using ends_reconcilePortForward[where G = "\<lambda>_. False"] unfolding ends_False by blast

end

end
