(* ===== verification/Device_Cluster.thy ===== *)
theory Device_Cluster
  imports Reconcile_Frame RouterOS_Objects
begin

text \<open>
  Devices behind endpoints.  The locale \<open>device_cluster\<close> says what the controllers rely on: the API
  server changes no device, a dialled connection drives the device of its endpoint and that device
  only, and the device behaves as \<open>RouterOS_Device\<close> states.  Then an operation that succeeds under
  \<^verbatim>\<open>withRouterConnections\<close> has succeeded on every endpoint of the router, and none of them was
  disturbed by the others, because the ownership check has made their keys distinct.
\<close>

section \<open>Endpoints of connections\<close>

lemma connectFrom_endpoints:
  "connectFrom env r cs es w = (Inr cs', w') \<Longrightarrow> map cnEndpoint cs' = map cnEndpoint cs @ es"
proof (induction es arbitrary: cs w)
  case (Cons e es)
  then show ?case by (fastforce split: if_splits sum.splits elim!: tryE_E bindE_InrE)
qed simp

lemma connectRouterClients_endpoints:
  "connectRouterClients env r w = (Inr cs, w') \<Longrightarrow> map cnEndpoint cs = routerEndpoints r"
  unfolding connectRouterClients_def by (drule connectFrom_endpoints) simp

lemma ownershipFrom_distinct:
  "ownershipFrom rs r seen es = None \<Longrightarrow>
   distinct (map endpointKey es) \<and> set (map endpointKey es) \<inter> set seen = {}"
proof (induction es arbitrary: seen)
  case (Cons e es)
  from Cons.prems have "ownershipFrom rs r (endpointKey e # seen) es = None" "endpointKey e \<notin> set seen"
    by (auto simp: Let_def split: if_splits)
  with Cons.IH[OF this(1)] show ?case by auto
qed simp

lemma ensureRouterActive_ok:
  assumes "ensureRouterActive env r w = (Inr (), w')"
  shows "\<not> isDeleting (routerMeta r)" and "containsFinalizer (routerMeta r) resourceFinalizer"
    and "routerHasDurableCurrentEndpoints r" and "distinct (map endpointKey (routerEndpoints r))"
proof -
  show "\<not> isDeleting (routerMeta r)" "containsFinalizer (routerMeta r) resourceFinalizer"
    "routerHasDurableCurrentEndpoints r"
    using assms by (auto simp: ensureRouterActive_def split: if_splits)
  have "ensureRouterEndpointOwnership env r w = (Inr (), w')"
    using assms by (auto simp: ensureRouterActive_def split: if_splits)
  then obtain rs where "ownershipFrom rs r [] (routerEndpoints r) = None"
    unfolding ensureRouterEndpointOwnership_def
    by (elim bindE_InrE) (auto simp: liftErr_def split: option.splits)
  thus "distinct (map endpointKey (routerEndpoints r))"
    using ownershipFrom_distinct by blast
qed

section \<open>Worlds with devices\<close>

text \<open>No device changes; only one device changes.\<close>

definition still :: "('w \<Rightarrow> string \<Rightarrow> string \<Rightarrow> strmap list) \<Rightarrow> ('w \<Rightarrow> bool) \<Rightarrow> 'w \<Rightarrow> 'w \<Rightarrow> bool" where
  "still dev dinv w w' \<longleftrightarrow> (dinv w \<longrightarrow> dinv w' \<and> dev w' = dev w)"

definition only ::
  "('w \<Rightarrow> string \<Rightarrow> string \<Rightarrow> strmap list) \<Rightarrow> ('w \<Rightarrow> bool) \<Rightarrow> string \<Rightarrow> 'w \<Rightarrow> 'w \<Rightarrow> bool" where
  "only dev dinv d w w' \<longleftrightarrow> (dinv w \<longrightarrow> dinv w' \<and> (\<forall>d'. d' \<noteq> d \<longrightarrow> dev w' d' = dev w d'))"

interpretation still: frame "still dev dinv" for dev dinv
  by unfold_locales (auto simp: still_def)

interpretation only: frame "only dev dinv d" for dev dinv d
  by unfold_locales (auto simp: only_def)

locale kube_frame_all = kube_frame R I env
  for R :: "'w \<Rightarrow> 'w \<Rightarrow> bool" and I :: "'w \<Rightarrow> bool" and env :: "'w env" +
  assumes statuses_keep: "keeps R (stUpdateStatus (kDNS env) d)" "keeps R (stUpdateStatus (kForwards env) f)"
    "keeps R (stUpdateStatus (kRoutes env) r)" "keeps R (stUpdateStatus (kFirewall env) fw)"
begin

lemma keeps_applied:
  "keeps R (dnsApplied env d ref)" "keeps R (forwardApplied env f ref a b)"
  "keeps R (routeApplied env r ref)" "keeps R (firewallApplied env fw ref)"
  unfolding dnsApplied_def forwardApplied_def routeApplied_def firewallApplied_def
  by (intro keeps_bind keeps_nowE keeps_Let keeps_putStatus statuses_keep)+

end

locale device_cluster = kube_frame_all "still dev dinv" dinv env + dial_frame "still dev dinv" dinv env
  for env :: "'w env" and dev :: "'w \<Rightarrow> string \<Rightarrow> string \<Rightarrow> strmap list" and dinv :: "'w \<Rightarrow> bool" +
  assumes client_only: "dialled env c \<Longrightarrow>
      keeps (only dev dinv (endpointKey (cnEndpoint c))) (rcRun (cnClient c) args)"
    and client_device: "dialled env c \<Longrightarrow>
      routeros_device (rcRun (cnClient c)) (\<lambda>w. dev w (endpointKey (cnEndpoint c))) dinv"
begin

lemma stillD: "keeps (still dev dinv) m \<Longrightarrow> m w = (x, w') \<Longrightarrow> dinv w \<Longrightarrow> dinv w' \<and> dev w' = dev w"
  by (drule (1) keepsD) (simp add: still_def)

text \<open>A loop over connections with distinct devices: each device ends as its own step left it.\<close>

lemma each_device:
  assumes "\<And>c. c \<in> set cs \<Longrightarrow> dialled env c" and "distinct (map (\<lambda>c. endpointKey (cnEndpoint c)) cs)"
    and keep: "\<And>c. dialled env c \<Longrightarrow> keeps (only dev dinv (endpointKey (cnEndpoint c))) (step c)"
    and post: "\<And>c w w'. dialled env c \<Longrightarrow> dinv w \<Longrightarrow> step c w = (Inr (), w') \<Longrightarrow>
      P c (dev w' (endpointKey (cnEndpoint c)))"
    and "dinv w" and "forE step cs w = (Inr (), w')"
  shows "dinv w' \<and> (\<forall>c\<in>set cs. P c (dev w' (endpointKey (cnEndpoint c)))) \<and>
    (\<forall>d. d \<notin> (\<lambda>c. endpointKey (cnEndpoint c)) ` set cs \<longrightarrow> dev w' d = dev w d)"
  using assms(1,2,5,6)
proof (induction cs arbitrary: w)
  case (Cons c cs)
  from Cons.prems(4) obtain w1 where one: "step c w = (Inr (), w1)" and rest: "forE step cs w1 = (Inr (), w')"
    unfolding forE.simps by (rule bindE_unitE)
  have c: "dialled env c" by (rule Cons.prems(1)) simp
  have w1: "dinv w1" "\<And>d. d \<noteq> endpointKey (cnEndpoint c) \<Longrightarrow> dev w1 d = dev w d"
    using keepsD[OF keep[OF c] one] Cons.prems(3) by (auto simp: only_def)
  have IH: "dinv w' \<and> (\<forall>c\<in>set cs. P c (dev w' (endpointKey (cnEndpoint c)))) \<and>
    (\<forall>d. d \<notin> (\<lambda>c. endpointKey (cnEndpoint c)) ` set cs \<longrightarrow> dev w' d = dev w1 d)"
    by (rule Cons.IH[OF _ _ w1(1) rest]) (use Cons.prems(1,2) in auto)
  moreover have "dev w' (endpointKey (cnEndpoint c)) = dev w1 (endpointKey (cnEndpoint c))"
    using IH Cons.prems(2) by auto
  ultimately show ?case
    using post[OF c Cons.prems(3) one] w1(2) by auto
qed simp

text \<open>What a successful operation on an active router means for its devices.\<close>

lemma withRouterConnections_each:
  assumes keep: "\<And>r c. dialled env c \<Longrightarrow> keeps (only dev dinv (endpointKey (cnEndpoint c))) (step r c)"
    and post: "\<And>r c w w'. dialled env c \<Longrightarrow> dinv w \<Longrightarrow> step r c w = (Inr (), w') \<Longrightarrow>
      P r (cnEndpoint c) (dev w' (endpointKey (cnEndpoint c)))"
    and w: "dinv w" and run: "withRouterConnections env key True (\<lambda>r cs. forE (step r) cs) w = (Inr (), w')"
  shows "dinv w' \<and> (\<exists>router. returns dinv (getMikroTikRouter env (normalizeRouterLookupKey key)) router \<and>
    \<not> isDeleting (routerMeta router) \<and> routerHasDurableCurrentEndpoints router \<and>
    (\<forall>e\<in>set (routerEndpoints router). P router e (dev w' (endpointKey e))))"
proof -
  let ?k = "normalizeRouterLookupKey key"
  from run obtain w1 w2 where fence: "kFence env ?k w = (Inr (), w1)"
    and body: "bindE (getMikroTikRouter env ?k) (\<lambda>router. bindE (ensureRouterActive env router) (\<lambda>_.
        withConnections env router (\<lambda>cs. forE (step router) cs))) w1 = (Inr (), w2)"
    and unfence: "w' = snd (kUnfence env ?k w2)"
    by (auto simp: withRouterConnections_def withFence_def Let_def elim!: bindE_unitE deferE_E)
  from body obtain router w3 w4 where get: "getMikroTikRouter env ?k w1 = (Inr router, w3)"
    and active: "ensureRouterActive env router w3 = (Inr (), w4)"
    and conn: "withConnections env router (\<lambda>cs. forE (step router) cs) w4 = (Inr (), w2)"
    by (elim bindE_InrE) simp
  from conn obtain cs w5 w6 where dial: "connectRouterClients env router w4 = (Inr cs, w5)"
    and loop: "forE (step router) cs w5 = (Inr (), w6)" and close: "w2 = snd (closeRouterConnections cs w6)"
    unfolding withConnections_def by (elim bindE_InrE deferE_E) simp
  have cs: "\<And>c. c \<in> set cs \<Longrightarrow> dialled env c"
    by (rule connectRouterClients_dialled[OF dial])
  have es: "map cnEndpoint cs = routerEndpoints router"
    by (rule connectRouterClients_endpoints[OF dial])
  have w1: "dinv w1" using stillD[OF fences_keep(1) fence w] by simp
  have w3: "dinv w3" using stillD[OF keeps_getMikroTikRouter get w1] by simp
  have w4: "dinv w4" using stillD[OF keeps_ensureRouterActive active w3] by simp
  have w5: "dinv w5" using stillD[OF keeps_connectRouterClients dial w4] by simp
  have "distinct (map (\<lambda>c. endpointKey (cnEndpoint c)) cs)"
    using ensureRouterActive_ok(4)[OF active] unfolding es[symmetric] map_map comp_def .
  have "dinv w6 \<and> (\<forall>c\<in>set cs. P router (cnEndpoint c) (dev w6 (endpointKey (cnEndpoint c)))) \<and>
      (\<forall>d. d \<notin> (\<lambda>c. endpointKey (cnEndpoint c)) ` set cs \<longrightarrow> dev w6 d = dev w5 d)"
    by (rule each_device[OF cs \<open>distinct _\<close> _ _ w5 loop, where P = "\<lambda>c. P router (cnEndpoint c)"])
       (assumption, erule keep, erule (2) post)
  hence w6: "dinv w6" "\<forall>c\<in>set cs. P router (cnEndpoint c) (dev w6 (endpointKey (cnEndpoint c)))"
    by simp_all
  have w2: "dinv w2 \<and> dev w2 = dev w6"
    using stillD[OF keeps_closeRouterConnections[OF cs] _ w6(1)] close by (metis prod.collapse)
  hence w': "dinv w' \<and> dev w' = dev w6"
    using stillD[OF fences_keep(2), of ?k w2] unfence by (metis prod.collapse)
  have "\<forall>e\<in>set (routerEndpoints router). P router e (dev w' (endpointKey e))"
    using w6(2) w' by (simp add: es[symmetric])
  moreover have "returns dinv (getMikroTikRouter env ?k) router"
    using get w1 by (rule returnsI)
  ultimately show ?thesis
    using w' ensureRouterActive_ok[OF active] by blast
qed

end

end
