(* ===== verification/Reconcile_Applied.thy ===== *)
theory Reconcile_Applied
  imports Device_Cluster
begin

text \<open>
  What Applied means.  The locale \<open>marked_cluster\<close> adds to the devices an observation, that some
  object is marked as applied, which only a status update that sets Applied can turn on.  A pass of
  a reconciler that turns it on leaves the configuration of the object on every endpoint of the
  router the object is settled on.
\<close>

definition unmarked :: "('w \<Rightarrow> bool) \<Rightarrow> ('w \<Rightarrow> bool) \<Rightarrow> 'w \<Rightarrow> 'w \<Rightarrow> bool" where
  "unmarked dinv marked w w' \<longleftrightarrow> (dinv w \<longrightarrow> dinv w' \<and> (marked w' \<longrightarrow> marked w))"

locale marked_cluster = device_cluster env dev dinv + mark: dial_frame "unmarked dinv marked" dinv env
  for env :: "'w env" and dev :: "'w \<Rightarrow> string \<Rightarrow> string \<Rightarrow> strmap list"
    and dinv :: "'w \<Rightarrow> bool" and marked :: "'w \<Rightarrow> bool" +
  assumes client_unmarked: "dialled env c \<Longrightarrow> keeps (unmarked dinv marked) (rcRun (cnClient c) args)"

sublocale marked_cluster \<subseteq> mark: cleanup_frame "unmarked dinv marked" dinv env
  by unfold_locales (rule client_unmarked)

text \<open>The comments of the NAT rules and of the filter rule of a port forward.\<close>

lemma forward_comments_disjoint:
  assumes "managedCommentPrefixMatches v (natComment f)"
  shows "\<not> managedCommentPrefixMatches v (natFirewallComment g)"
proof -
  define base where "base = ''managed-by=mikrotik-operator/portforward''"
  have nat: "natComment h = base @ ''/'' @ omNamespace (pfMeta h) @ ''/'' @ omName (pfMeta h)"
    and fw: "natFirewallComment h = base @ ''-firewall/'' @ omNamespace (pfMeta h) @ ''/'' @ omName (pfMeta h)" for h
    by (simp_all add: natComment_def natFirewallComment_def ManagedComment_def base_def)
  show ?thesis
    using assms by (auto simp: managedCommentPrefixMatches_def hasPrefix_def nat fw prefix_def)
qed

text \<open>What a port forward leaves on a device.\<close>

definition forwardPresent :: "portForward \<Rightarrow> string \<Rightarrow> string \<Rightarrow> (string \<Rightarrow> strmap list) \<Rightarrow> bool" where
  "forwardPresent f address destination T \<longleftrightarrow>
     portForwardPresent \<lparr>rpProtocol = psProtocol (pfSpecOf f), rpExternalPort = psExternalPort (pfSpecOf f),
       rpTarget = address, rpTargetPort = psTargetPort (pfSpecOf f), rpPublicIP = destination\<rparr> (natComment f) T \<and>
     firewallPresent (forwardFirewallRule f address) (natFirewallComment f) T"

context routeros_device
begin

lemma ensureForward_present:
  assumes w: "dinv w" and run: "rcRun c = run" and ens: "ensureForward f address destination c w = (Inr (), w')"
  shows "forwardPresent f address destination (tbl w')"
proof -
  let ?f = "\<lparr>rpProtocol = psProtocol (pfSpecOf f), rpExternalPort = psExternalPort (pfSpecOf f),
       rpTarget = address, rpTargetPort = psTargetPort (pfSpecOf f), rpPublicIP = destination\<rparr>"
  from ens obtain w1 where nat: "EnsurePortForward run ?f (natComment f) w = (Inr (), w1)"
    and fw: "EnsureFirewallRule run (forwardFirewallRule f address) (natFirewallComment f) w1 = (Inr (), w')"
    unfolding ensureForward_def run by (rule bindE_unitE)
  have w1: "dinv w1"
    by (rule keeps_untouched_inv[OF EnsurePortForward_untouched w nat])
  have "firewallPresent (forwardFirewallRule f address) (natFirewallComment f) (tbl w')"
    by (rule EnsureFirewallRule_present[OF w1 _ fw]) (simp add: forwardFirewallRule_def)
  moreover have "owned (\<lambda>v. managedCommentPrefixMatches v (natComment f)) (tbl w' natMenu)
      = owned (\<lambda>v. managedCommentPrefixMatches v (natComment f)) (tbl w1 natMenu)"
    by (rule untouched_owned(1)[OF keepsD[OF EnsureFirewallRule_untouched fw] w1])
       (rule forward_comments_disjoint)
  moreover have "portForwardPresent ?f (natComment f) (tbl w1)"
    by (rule EnsurePortForward_present[OF w nat])
  ultimately show ?thesis
    by (simp add: forwardPresent_def portForwardPresent_def)
qed

end

text \<open>What a route leaves on the device of an endpoint: a generated route is on the endpoints it
  applies to and on no other.\<close>

definition routeOnEndpoint :: "route \<Rightarrow> router \<Rightarrow> routerEndpoint \<Rightarrow> (string \<Rightarrow> strmap list) \<Rightarrow> bool" where
  "routeOnEndpoint r router e T \<longleftrightarrow>
     (if mget (omLabels (routeMeta r)) clusterRouteSourceLabel \<noteq> [] \<and>
         \<not> clusterRouteAppliesToEndpoint (osGateway (routeSpecOf r))
             (mget (omLabels (routeMeta r)) clusterRouteOriginLabel) e router
      then owned (\<lambda>v. v = routeComment r) (T routeMenu) = []
      else routePresent (osDestination (routeSpecOf r)) (osGateway (routeSpecOf r))
             (osDistance (routeSpecOf r)) (routeComment r) T)"

text \<open>On every endpoint of the router that \<open>rkey\<close> names, \<open>P\<close> holds of the device.\<close>

definition onRouter ::
  "('w \<Rightarrow> bool) \<Rightarrow> 'w env \<Rightarrow> ('w \<Rightarrow> string \<Rightarrow> string \<Rightarrow> strmap list) \<Rightarrow> nsname
     \<Rightarrow> (router \<Rightarrow> routerEndpoint \<Rightarrow> (string \<Rightarrow> strmap list) \<Rightarrow> bool) \<Rightarrow> 'w \<Rightarrow> bool" where
  "onRouter I env dev rkey P w \<longleftrightarrow>
     (\<exists>router. returns I (getMikroTikRouter env (normalizeRouterLookupKey rkey)) router \<and>
        routerEndpoints router \<noteq> [] \<and>
        (\<forall>e\<in>set (routerEndpoints router). P router e (dev w (endpointKey e))))"

lemma onRouter_dev: "dev w' = dev w \<Longrightarrow> onRouter I env dev rkey P w' = onRouter I env dev rkey P w"
  by (simp add: onRouter_def)

lemma durable_nonempty: "routerHasDurableCurrentEndpoints r \<Longrightarrow> routerEndpoints r \<noteq> []"
  by (simp add: routerHasDurableCurrentEndpoints_def Let_def)

context marked_cluster
begin

text \<open>An operation on the router, then its report: either nothing is marked or the operation is done.\<close>

lemma ends_operation:
  assumes keep: "\<And>r c. dialled env c \<Longrightarrow> keeps (only dev dinv (endpointKey (cnEndpoint c))) (step r c)"
    and unmarked: "\<And>r c. dialled env c \<Longrightarrow> keeps (unmarked dinv marked) (step r c)"
    and post: "\<And>r c w w'. dialled env c \<Longrightarrow> dinv w \<Longrightarrow> step r c w = (Inr (), w') \<Longrightarrow>
      P r (cnEndpoint c) (dev w' (endpointKey (cnEndpoint c)))"
    and failed: "\<And>e. keeps (unmarked dinv marked) (f (Inl e))"
    and applied: "keeps (still dev dinv) (f (Inr ()))"
  shows "ends (unmarked dinv marked) (\<lambda>w. dinv w \<and> onRouter dinv env dev rkey P w)
    (tryE (withRouterConnections env rkey True (\<lambda>r cs. forE (step r) cs)) f)"
proof (rule endsI, erule tryE_E)
  fix w x w' s w1
  assume op: "withRouterConnections env rkey True (\<lambda>r cs. forE (step r) cs) w = (s, w1)" and rest: "f s w1 = (x, w')"
  have "keeps (unmarked dinv marked) (withRouterConnections env rkey True (\<lambda>r cs. forE (step r) cs))"
    by (rule mark.keeps_withRouterConnections) (rule mark.keeps_for, rule unmarked, assumption)
  hence w1: "unmarked dinv marked w w1" using op by (rule keepsD)
  show "unmarked dinv marked w w' \<or> dinv w' \<and> onRouter dinv env dev rkey P w'"
  proof (cases s)
    case (Inl e)
    with keepsD[OF failed] rest w1 show ?thesis using mark.frame_trans by blast
  next
    case (Inr u)
    show ?thesis
    proof (cases "dinv w")
      case True
      have "withRouterConnections env rkey True (\<lambda>r cs. forE (step r) cs) w = (Inr (), w1)"
        using op Inr by simp
      from withRouterConnections_each[where step = step and P = P, OF _ _ True this] keep post
      have "dinv w1 \<and> onRouter dinv env dev rkey P w1"
        unfolding onRouter_def using durable_nonempty by blast
      with stillD[OF applied, of w1 x w'] rest Inr onRouter_dev[of dev w' w1 dinv env rkey P] show ?thesis by simp
    qed (simp add: unmarked_def)
  qed
qed

lemmas device_ops = only.keeps_operations[OF client_only] only.keeps_removals[OF client_only]
lemmas mark_ops = mark.keeps_operations[OF client_unmarked] mark.keeps_removals[OF client_unmarked]

lemma unfence_good: "dinv w \<and> onRouter dinv env dev rkey P w \<Longrightarrow>
  dinv (snd (kClaimUnfence env k w)) \<and> onRouter dinv env dev rkey P (snd (kClaimUnfence env k w))"
  using stillD[OF fences_keep(4)[of k], of w "fst (kClaimUnfence env k w)" "snd (kClaimUnfence env k w)"]
    onRouter_dev[of dev "snd (kClaimUnfence env k w)" w dinv env rkey P] by simp

text \<open>From the step that applies to the whole pass.\<close>

lemma applied_pass:
  assumes get: "keeps (unmarked dinv marked) get"
    and body: "\<And>x w1. get w = (Inr x, w1) \<Longrightarrow> ends (unmarked dinv marked) (\<lambda>w. dinv w \<and> Q x w) (body x)"
    and run: "getOrIgnore get body w = (res, w')" and w: "dinv w" "\<not> marked w" and marked: "marked w'"
  shows "\<exists>x w1. get w = (Inr x, w1) \<and> Q x w'"
proof -
  from run obtain s w1 where s: "get w = (s, w1)"
    and rest: "(case s of Inl e \<Rightarrow> ignoreNotFound e | Inr x \<Rightarrow> body x) w1 = (res, w')"
    unfolding getOrIgnore_def by (rule tryE_E)
  have w1: "dinv w1" "\<not> marked w1"
    using keepsD[OF get s] w by (auto simp: unmarked_def)
  show ?thesis
  proof (cases s)
    case (Inl e)
    hence "w' = w1" using rest by (auto simp: ignoreNotFound_def split: if_splits)
    thus ?thesis using w1 marked by simp
  next
    case (Inr x)
    hence x: "get w = (Inr x, w1)" and "body x w1 = (res, w')" using s rest by simp_all
    from endsD[OF body[OF x] this(2)] w1 marked have "Q x w'" by (auto simp: unmarked_def)
    with x show ?thesis by blast
  qed
qed

lemma ends_dnsApply:
  "ends (unmarked dinv marked)
     (\<lambda>w. dinv w \<and> onRouter dinv env dev rkey (\<lambda>_ _. dnsPresent (dsName (dnsSpecOf r)) a (dsTTL (dnsSpecOf r)) (dnsComment r)) w)
     (dnsApply env r rkey ref a s)"
  unfolding dnsApply_def forConnections_def
  by (rule ends_operation)
     (auto simp: device_ops mark_ops mark.keeps_failed
        intro: routeros_device.EnsureDNS_present[OF client_device]
        intro!: keeps_Let keeps_try keeps_sum keeps_reconcileOwnedClusterRoutes keeps_failed keeps_applied)

lemma ends_forwardApply:
  "ends (unmarked dinv marked)
     (\<lambda>w. dinv w \<and> onRouter dinv env dev rkey (\<lambda>_ _. forwardPresent f a b) w)
     (forwardApply env f rkey ref a b)"
  unfolding forwardApply_def forConnections_def
  by (rule ends_operation)
     (auto simp: ensureForward_def device_ops mark_ops mark.keeps_failed keeps_applied
        intro!: only.keeps_bind mark.keeps_bind
        intro: routeros_device.ensureForward_present[OF client_device, unfolded ensureForward_def])

lemma ends_firewallApply:
  assumes "fsChain (fwSpecOf r) \<noteq> []"
  shows "ends (unmarked dinv marked)
     (\<lambda>w. dinv w \<and> onRouter dinv env dev rkey (\<lambda>_ _. firewallPresent (rosRuleOf (fwSpecOf r)) (firewallComment r)) w)
     (firewallApply env r rkey ref)"
  unfolding firewallApply_def forConnections_def
  by (rule ends_operation)
     (auto simp: device_ops mark_ops mark.keeps_failed keeps_applied assms rosRuleOf_def
        intro: routeros_device.EnsureFirewallRule_present[OF client_device])

lemma ends_routeApply:
  assumes "0 \<le> osDistance (routeSpecOf r)"
  shows "ends (unmarked dinv marked)
     (\<lambda>w. dinv w \<and> onRouter dinv env dev rkey (routeOnEndpoint r) w)
     (routeApply env r rkey ref)"
  unfolding routeApply_def applyRoute_def[abs_def] Let_def
  by (rule ends_operation)
     (auto simp: device_ops mark_ops mark.keeps_failed keeps_applied routeOnEndpoint_def EnsureRouteWithDistance_def
        intro: routeros_device.ensureRoute_present[OF client_device _ assms]
          routeros_device.DeleteRoute_gone[OF client_device] split: if_splits)

lemma DNSReconcile_applied:
  assumes "DNSReconcile env key w = (res, w')" and "dinv w" and "\<not> marked w" and "marked w'"
  shows "\<exists>r w1. stGet (kDNS env) key w = (Inr r, w1) \<and> (\<exists>rkey address referenced. settled dinv env (dnsMeta r) (dsRouterRef (dnsSpecOf r)) rkey \<and>
    dnsAddressed dinv env r address referenced \<and>
    onRouter dinv env dev rkey (\<lambda>_ _. dnsPresent (dsName (dnsSpecOf r)) address (dsTTL (dnsSpecOf r)) (dnsComment r)) w')"
proof (rule applied_pass[OF mark.api_keeps(3) _ assms(1)[unfolded DNSReconcile_def] assms(2-4)])
  fix r w1
  assume read: "stGet (kDNS env) key w = (Inr r, w1)"
  show "ends (unmarked dinv marked) (\<lambda>w'. dinv w' \<and> (\<exists>rkey address referenced. settled dinv env (dnsMeta r) (dsRouterRef (dnsSpecOf r)) rkey \<and>
    dnsAddressed dinv env r address referenced \<and>
    onRouter dinv env dev rkey (\<lambda>_ _. dnsPresent (dsName (dnsSpecOf r)) address (dsTTL (dnsSpecOf r)) (dnsComment r)) w')) (reconcileDNS env r)"
    by (rule mark.ends_reconcileDNS) (rule ends_mono[OF ends_dnsApply], blast, use unfence_good in blast)
qed

lemma PortForwardReconcile_applied:
  assumes "PortForwardReconcile env key w = (res, w')" and "dinv w" and "\<not> marked w" and "marked w'"
  shows "\<exists>f w1. stGet (kForwards env) key w = (Inr f, w1) \<and> (\<exists>rkey address destination. settled dinv env (pfMeta f) (psRouterRef (pfSpecOf f)) rkey \<and>
    forwardAddressed f address destination \<and>
    onRouter dinv env dev rkey (\<lambda>_ _. forwardPresent f address destination) w')"
proof (rule applied_pass[OF mark.api_keeps(9) _ assms(1)[unfolded PortForwardReconcile_def] assms(2-4)])
  fix f w1
  assume read: "stGet (kForwards env) key w = (Inr f, w1)"
  show "ends (unmarked dinv marked) (\<lambda>w'. dinv w' \<and> (\<exists>rkey address destination. settled dinv env (pfMeta f) (psRouterRef (pfSpecOf f)) rkey \<and>
    forwardAddressed f address destination \<and>
    onRouter dinv env dev rkey (\<lambda>_ _. forwardPresent f address destination) w')) (reconcilePortForward env f)"
    by (rule mark.ends_reconcilePortForward) (rule ends_mono[OF ends_forwardApply], blast, use unfence_good in blast)
qed

lemma FirewallRuleReconcile_applied:
  assumes "FirewallRuleReconcile env key w = (res, w')" and "dinv w" and "\<not> marked w" and "marked w'"
  shows "\<exists>r w1. stGet (kFirewall env) key w = (Inr r, w1) \<and> (\<exists>rkey. settled dinv env (fwMeta r) (fsRouterRef (fwSpecOf r)) rkey \<and>
    onRouter dinv env dev rkey (\<lambda>_ _. firewallPresent (rosRuleOf (fwSpecOf r)) (firewallComment r)) w')"
proof (rule applied_pass[OF mark.api_keeps(21) _ assms(1)[unfolded FirewallRuleReconcile_def] assms(2-4)])
  fix r w1
  assume read: "stGet (kFirewall env) key w = (Inr r, w1)"
  show "ends (unmarked dinv marked) (\<lambda>w'. dinv w' \<and> (\<exists>rkey. settled dinv env (fwMeta r) (fsRouterRef (fwSpecOf r)) rkey \<and>
    onRouter dinv env dev rkey (\<lambda>_ _. firewallPresent (rosRuleOf (fwSpecOf r)) (firewallComment r)) w')) (reconcileFirewallRule env r)"
    by (rule mark.ends_reconcileFirewallRule) (rule ends_mono[OF ends_firewallApply], assumption, blast)
qed

lemma RouteReconcile_applied:
  assumes "RouteReconcile env key w = (res, w')" and "dinv w" and "\<not> marked w" and "marked w'"
    and "\<And>r w1. stGet (kRoutes env) key w = (Inr r, w1) \<Longrightarrow> 0 \<le> osDistance (routeSpecOf r)"
  shows "\<exists>r w1. stGet (kRoutes env) key w = (Inr r, w1) \<and> (\<exists>rkey. settled dinv env (routeMeta r) (osRouterRef (routeSpecOf r)) rkey \<and>
    onRouter dinv env dev rkey (routeOnEndpoint r) w')"
proof (rule applied_pass[OF mark.api_keeps(15) _ assms(1)[unfolded RouteReconcile_def] assms(2-4)])
  fix r w1
  assume read: "stGet (kRoutes env) key w = (Inr r, w1)"
  show "ends (unmarked dinv marked) (\<lambda>w'. dinv w' \<and> (\<exists>rkey. settled dinv env (routeMeta r) (osRouterRef (routeSpecOf r)) rkey \<and>
    onRouter dinv env dev rkey (routeOnEndpoint r) w')) (reconcileRoute env r)"
    by (rule mark.ends_reconcileRoute) (rule ends_mono[OF ends_routeApply[OF assms(5)[OF read]]], blast)
qed

end

end
