(* ===== verification/Kube_Sim.thy ===== *)
theory Kube_Sim
  imports Reconcile_Applied RouterOS_Sim
begin

text \<open>
  An executable cluster: objects in memory with the documented behaviour of the API server (status
  subresource, finalizers, deletion), the routers of \<open>RouterOS_Sim\<close> behind their endpoints, and a
  count of open connections.  It meets the laws of the locales of the controllers, so their
  properties are not about an empty class of clusters, and concrete passes are evaluated on it.
\<close>

record cluster =
  clRouters :: "router list"
  clDNS :: "dnsRecord list"
  clForwards :: "portForward list"
  clRoutes :: "route list"
  clFirewall :: "firewallRule list"
  clServices :: "service list"
  clPods :: "pod list"
  clNodes :: "node list"
  clSecrets :: "(nsname \<times> strmap) list"
  clDevices :: "(string \<times> simState) list"
  clOpen :: int

section \<open>Stores in memory\<close>

definition notFoundErr :: goerr where
  "notFoundErr = StatusError NotFound 404 ''not found''"

definition alreadyExistsErr :: goerr where
  "alreadyExistsErr = StatusError AlreadyExists 409 ''already exists''"

record ('w, 'o) memKind =
  mkObjects :: "'w \<Rightarrow> 'o list"
  mkPut :: "'o list \<Rightarrow> 'w \<Rightarrow> 'w"
  mkMeta :: "'o \<Rightarrow> objectMeta"
  mkSetMeta :: "objectMeta \<Rightarrow> 'o \<Rightarrow> 'o"
  mkBlank :: "'o \<Rightarrow> 'o"
  mkMerge :: "'o \<Rightarrow> 'o \<Rightarrow> 'o"

definition memKey :: "('w, 'o) memKind \<Rightarrow> 'o \<Rightarrow> nsname" where
  "memKey mk x = metaKey (mkMeta mk x)"

definition memFind :: "('w, 'o) memKind \<Rightarrow> nsname \<Rightarrow> 'w \<Rightarrow> 'o option" where
  "memFind mk k w = find (\<lambda>x. memKey mk x = k) (mkObjects mk w)"

text \<open>An object that is being deleted goes with its last finalizer.\<close>

definition memCollect :: "('w, 'o) memKind \<Rightarrow> 'o list \<Rightarrow> 'o list" where
  "memCollect mk xs = filter (\<lambda>x. \<not> (isDeleting (mkMeta mk x) \<and> omFinalizers (mkMeta mk x) = [])) xs"

definition memReplace :: "('w, 'o) memKind \<Rightarrow> 'o \<Rightarrow> 'w \<Rightarrow> 'w" where
  "memReplace mk new w =
     mkPut mk (memCollect mk (map (\<lambda>x. if memKey mk x = memKey mk new then new else x) (mkObjects mk w))) w"

definition memDelete :: "('w, 'o) memKind \<Rightarrow> 'o \<Rightarrow> ('w, unit) prog" where
  "memDelete mk x = (\<lambda>w.
     case memFind mk (memKey mk x) w of
       None \<Rightarrow> (Inl notFoundErr, w)
     | Some old \<Rightarrow>
         (Inr (), memReplace mk (mkSetMeta mk ((mkMeta mk old)\<lparr>omDeletionTimestamp := Some 0\<rparr>) old) w))"

definition memStore :: "('w, 'o) memKind \<Rightarrow> ('w, 'o) store" where
  "memStore mk =
     \<lparr>stGet = (\<lambda>k. readE (\<lambda>w. case memFind mk k w of None \<Rightarrow> Inl notFoundErr | Some x \<Rightarrow> Inr x)),
      stList = (\<lambda>ns. readE (\<lambda>w. Inr (filter (\<lambda>x. ns = [] \<or> omNamespace (mkMeta mk x) = ns) (mkObjects mk w)))),
      stCreate = (\<lambda>x w. case memFind mk (memKey mk x) w of
          Some _ \<Rightarrow> (Inl alreadyExistsErr, w)
        | None \<Rightarrow> (Inr (mkBlank mk x), mkPut mk (mkObjects mk w @ [mkBlank mk x]) w)),
      stUpdate = (\<lambda>x w. case memFind mk (memKey mk x) w of
          None \<Rightarrow> (Inl notFoundErr, w)
        | Some old \<Rightarrow> (Inr (mkMerge mk x old), memReplace mk (mkMerge mk x old) w)),
      stUpdateStatus = (\<lambda>x w. case memFind mk (memKey mk x) w of
          None \<Rightarrow> (Inl notFoundErr, w)
        | Some old \<Rightarrow> (Inr (mkMerge mk old x), memReplace mk (mkMerge mk old x) w)),
      stDelete = memDelete mk\<rparr>"

text \<open>A relation that does not depend on the objects of a kind is kept by its store.\<close>

lemma memStore_keeps:
  assumes refl: "\<And>w. R w w" and put: "\<And>xs w. R w (mkPut mk xs w)"
  shows "storeKeeps R ok (memStore mk)" and "keeps R (stUpdateStatus (memStore mk) x)"
  by (auto simp: storeKeeps_def memStore_def memDelete_def keeps_def memReplace_def refl put split: option.split)

lemma memStore_reads: "(\<And>w. R w w) \<Longrightarrow> storeReads R (memStore mk)"
  by (simp add: storeReads_def memStore_def keeps_def)

text \<open>That some object is marked is turned on only by a status that marks it.\<close>

lemma memStore_unmarked:
  fixes ap :: "'o \<Rightarrow> bool"
  assumes get: "\<And>xs w. mkObjects mk (mkPut mk xs w) = xs"
    and inv: "\<And>xs w. I w \<Longrightarrow> I (mkPut mk xs w)"
    and blank: "\<And>x. \<not> ap (mkBlank mk x)" and merge: "\<And>x y. ap (mkMerge mk x y) = ap y"
    and meta: "\<And>m x. ap (mkSetMeta mk m x) = ap x"
  shows "storeKeeps (unmarked I (\<lambda>w. list_ex ap (mkObjects mk w))) (\<lambda>x. \<not> ap x) (memStore mk)"
proof -
  have found: "memFind mk k w = Some x \<Longrightarrow> x \<in> set (mkObjects mk w)" for k w x
    by (auto simp: memFind_def elim!: find_SomeE)
  have replace: "unmarked I (\<lambda>w. list_ex ap (mkObjects mk w)) w (memReplace mk new w)"
    if "ap new \<Longrightarrow> list_ex ap (mkObjects mk w)" for new w
    using that by (auto simp: unmarked_def memReplace_def get inv memCollect_def list_ex_iff split: if_splits)
  have old: "list_ex ap (mkObjects mk w)" if "memFind mk k w = Some x" "ap x" for k x w
    using found[OF that(1)] that(2) by (auto simp: list_ex_iff)
  show ?thesis
    by (auto simp: storeKeeps_def memStore_def memDelete_def keeps_def merge meta split: option.split
        intro: old intro!: replace)
       (auto simp: unmarked_def get inv blank)
qed

section \<open>Kinds\<close>

definition routerKind :: "(cluster, router) memKind" where
  "routerKind = \<lparr>mkObjects = clRouters, mkPut = (\<lambda>xs w. w\<lparr>clRouters := xs\<rparr>), mkMeta = routerMeta,
     mkSetMeta = (\<lambda>m x. x\<lparr>routerMeta := m\<rparr>),
     mkBlank = (\<lambda>x. x\<lparr>routerStatusOf := \<lparr>rtConnected = False, rtVersion = [], rtAppliedEndpoints = [], rtConditions = []\<rparr>\<rparr>),
     mkMerge = (\<lambda>x y. x\<lparr>routerStatusOf := routerStatusOf y\<rparr>)\<rparr>"

definition dnsKind :: "(cluster, dnsRecord) memKind" where
  "dnsKind = \<lparr>mkObjects = clDNS, mkPut = (\<lambda>xs w. w\<lparr>clDNS := xs\<rparr>), mkMeta = dnsMeta,
     mkSetMeta = (\<lambda>m x. x\<lparr>dnsMeta := m\<rparr>),
     mkBlank = (\<lambda>x. x\<lparr>dnsStatusOf := \<lparr>dtApplied = False, dtRouterID = [], dtRouterRef = [], dtConditions = []\<rparr>\<rparr>),
     mkMerge = (\<lambda>x y. x\<lparr>dnsStatusOf := dnsStatusOf y\<rparr>)\<rparr>"

definition forwardKind :: "(cluster, portForward) memKind" where
  "forwardKind = \<lparr>mkObjects = clForwards, mkPut = (\<lambda>xs w. w\<lparr>clForwards := xs\<rparr>), mkMeta = pfMeta,
     mkSetMeta = (\<lambda>m x. x\<lparr>pfMeta := m\<rparr>),
     mkBlank = (\<lambda>x. x\<lparr>pfStatusOf := \<lparr>ptApplied = False, ptRouterID = [], ptRouterRef = [], ptTargetAddress = [],
                       ptExternalAddress = [], ptConditions = []\<rparr>\<rparr>),
     mkMerge = (\<lambda>x y. x\<lparr>pfStatusOf := pfStatusOf y\<rparr>)\<rparr>"

definition routeKind :: "(cluster, route) memKind" where
  "routeKind = \<lparr>mkObjects = clRoutes, mkPut = (\<lambda>xs w. w\<lparr>clRoutes := xs\<rparr>), mkMeta = routeMeta,
     mkSetMeta = (\<lambda>m x. x\<lparr>routeMeta := m\<rparr>), mkBlank = (\<lambda>x. x\<lparr>routeStatusOf := emptyRouteStatus\<rparr>),
     mkMerge = (\<lambda>x y. x\<lparr>routeStatusOf := routeStatusOf y\<rparr>)\<rparr>"

definition firewallKind :: "(cluster, firewallRule) memKind" where
  "firewallKind = \<lparr>mkObjects = clFirewall, mkPut = (\<lambda>xs w. w\<lparr>clFirewall := xs\<rparr>), mkMeta = fwMeta,
     mkSetMeta = (\<lambda>m x. x\<lparr>fwMeta := m\<rparr>),
     mkBlank = (\<lambda>x. x\<lparr>fwStatusOf := \<lparr>ftApplied = False, ftRouterRef = [], ftConditions = []\<rparr>\<rparr>),
     mkMerge = (\<lambda>x y. x\<lparr>fwStatusOf := fwStatusOf y\<rparr>)\<rparr>"

definition serviceKind :: "(cluster, service) memKind" where
  "serviceKind = \<lparr>mkObjects = clServices, mkPut = (\<lambda>xs w. w\<lparr>clServices := xs\<rparr>), mkMeta = svMeta,
     mkSetMeta = (\<lambda>m x. x\<lparr>svMeta := m\<rparr>), mkBlank = (\<lambda>x. x), mkMerge = (\<lambda>x y. x)\<rparr>"

lemmas kinds = routerKind_def dnsKind_def forwardKind_def routeKind_def firewallKind_def serviceKind_def

section \<open>Devices\<close>

definition device :: "string \<Rightarrow> cluster \<Rightarrow> simState" where
  "device d w = (case map_of (clDevices w) d of None \<Rightarrow> simEmpty | Some s \<Rightarrow> s)"

definition setDevice :: "string \<Rightarrow> simState \<Rightarrow> cluster \<Rightarrow> cluster" where
  "setDevice d s w = w\<lparr>clDevices := map (\<lambda>(d', s'). if d' = d then (d', s) else (d', s')) (clDevices w)\<rparr>"

definition deviceRun :: "string \<Rightarrow> cluster runner" where
  "deviceRun d args w =
     (case map_of (clDevices w) d of
        None \<Rightarrow> (Inl (Opaque ''connection lost''), w)
      | Some s \<Rightarrow> (case simRun args s of (r, s') \<Rightarrow> (r, setDevice d s' w)))"

definition dialKey :: "string \<Rightarrow> int \<Rightarrow> bool \<Rightarrow> string" where
  "dialKey a p t = endpointKey \<lparr>epName = [], epAddress = a, epPort = p, epTLS = t, epCredentialsSecret = [], epRouteGateway = []\<rparr>"

definition simClient :: "string \<Rightarrow> cluster rosClient" where
  "simClient d = \<lparr>rcRun = deviceRun d, rcClose = (\<lambda>w. (Inr (), w\<lparr>clOpen := clOpen w - 1\<rparr>))\<rparr>"

definition simDial :: "string \<Rightarrow> int \<Rightarrow> bool \<Rightarrow> string \<Rightarrow> string \<Rightarrow> (cluster, cluster rosClient) prog" where
  "simDial a p t u pw = (\<lambda>w.
     if map_of (clDevices w) (dialKey a p t) = None \<or> u = [] then (Inl (Opaque ''connection refused''), w)
     else (Inr (simClient (dialKey a p t)), w\<lparr>clOpen := clOpen w + 1\<rparr>))"

definition simOwner :: "string \<Rightarrow> objectMeta \<Rightarrow> objectMeta \<Rightarrow> goerr + objectMeta" where
  "simOwner kind owner m =
     (if controllerOf m \<noteq> None then Inl (Opaque ''already owned'')
      else Inr (m\<lparr>omOwnerReferences := omOwnerReferences m @
             [\<lparr>orAPIVersion = ''v1'', orKind = kind, orName = omName owner, orUID = omUID owner,
               orController = Some True\<rparr>]\<rparr>))"

definition simEnv :: "cluster env" where
  "simEnv =
     \<lparr>kRouters = memStore routerKind, kDNS = memStore dnsKind, kForwards = memStore forwardKind,
      kRoutes = memStore routeKind, kFirewall = memStore firewallKind, kServices = memStore serviceKind,
      kGetPod = (\<lambda>k. readE (\<lambda>w. case find (\<lambda>p. metaKey (podMeta p) = k) (clPods w) of
                   None \<Rightarrow> Inl notFoundErr | Some p \<Rightarrow> Inr p)),
      kListNodes = readE (\<lambda>w. Inr (clNodes w)),
      kGetSecret = (\<lambda>k. readE (\<lambda>w. case map_of (clSecrets w) k of None \<Rightarrow> Inl notFoundErr | Some s \<Rightarrow> Inr s)),
      kNow = (\<lambda>_. 1000), kSetOwner = simOwner, kFactory = simDial,
      kFence = (\<lambda>_. returnE ()), kUnfence = (\<lambda>_. returnE ()),
      kClaimFence = (\<lambda>_. returnE ()), kClaimUnfence = (\<lambda>_. returnE ())\<rparr>"

definition simDev :: "cluster \<Rightarrow> string \<Rightarrow> string \<Rightarrow> strmap list" where
  "simDev w d = simTables (device d w)"

text \<open>The routers and services of the cluster are the given ones, and its devices are in order.\<close>

definition simDinv :: "router list \<Rightarrow> service list \<Rightarrow> cluster \<Rightarrow> bool" where
  "simDinv rs ss w \<longleftrightarrow> clRouters w = rs \<and> clServices w = ss \<and> (\<forall>d. simInv (device d w))"

section \<open>Laws\<close>

lemma map_of_setDevice:
  "map_of (clDevices (setDevice d s w)) d' =
     (if d' = d then map_option (\<lambda>_. s) (map_of (clDevices w) d) else map_of (clDevices w) d')"
proof -
  have "map_of (map (\<lambda>(e, s'). if e = d then (e, s) else (e, s')) xs) d' =
     (if d' = d then map_option (\<lambda>_. s) (map_of xs d) else map_of xs d')" for xs
    by (induction xs) auto
  thus ?thesis by (simp add: setDevice_def)
qed

lemma device_set:
  "device d' (setDevice d s w) = (if d' = d \<and> map_of (clDevices w) d \<noteq> None then s else device d' w)"
  by (auto simp: device_def map_of_setDevice split: option.split)

lemma deviceRun_cases:
  assumes "deviceRun d args w = (r, w')"
  obtains (lost) e where "r = Inl e" "w' = w"
    | (run) s' where "simRun args (device d w) = (r, s')" "w' = setDevice d s' w" "map_of (clDevices w) d \<noteq> None"
  using assms by (auto simp: deviceRun_def device_def split: option.splits prod.splits)

lemma dialKey_endpoint: "dialKey (epAddress e) (epPort e) (epTLS e) = endpointKey e"
  by (simp add: dialKey_def endpointKey_def)

lemma dialled_sim: "dialled simEnv c \<Longrightarrow> cnClient c = simClient (endpointKey (cnEndpoint c))"
  by (auto simp: dialled_def simEnv_def simDial_def dialKey_endpoint split: if_splits)

lemma device_fields [simp]:
  "device d (w\<lparr>clRouters := a\<rparr>) = device d w" "device d (w\<lparr>clDNS := b\<rparr>) = device d w"
  "device d (w\<lparr>clForwards := c\<rparr>) = device d w" "device d (w\<lparr>clRoutes := e\<rparr>) = device d w"
  "device d (w\<lparr>clFirewall := f\<rparr>) = device d w" "device d (w\<lparr>clServices := g\<rparr>) = device d w"
  "device d (w\<lparr>clOpen := n\<rparr>) = device d w"
  by (simp_all add: device_def)

lemma setDevice_fields [simp]:
  "clRouters (setDevice d s w) = clRouters w" "clServices (setDevice d s w) = clServices w"
  "clDNS (setDevice d s w) = clDNS w" "clForwards (setDevice d s w) = clForwards w"
  "clRoutes (setDevice d s w) = clRoutes w" "clFirewall (setDevice d s w) = clFirewall w"
  by (simp_all add: setDevice_def)

lemma simDinv_fields [simp]:
  "simDinv rs ss (w\<lparr>clDNS := b\<rparr>) = simDinv rs ss w" "simDinv rs ss (w\<lparr>clForwards := c\<rparr>) = simDinv rs ss w"
  "simDinv rs ss (w\<lparr>clRoutes := e\<rparr>) = simDinv rs ss w" "simDinv rs ss (w\<lparr>clFirewall := f\<rparr>) = simDinv rs ss w"
  "simDinv rs ss (w\<lparr>clOpen := n\<rparr>) = simDinv rs ss w"
  by (simp_all add: simDinv_def)

lemma deviceRun_device:
  "routeros_device (deviceRun d) (\<lambda>w. simDev w d) (simDinv rs ss)"
proof
  fix w m e
  assume w: "simDinv rs ss w"
  hence i: "simInv (device d w)" by (simp add: simDinv_def)
  show "distinct (map ident (simDev w d m))" "e \<in> set (simDev w d m) \<Longrightarrow> ident e \<noteq> []"
    unfolding simDev_def by (rule sim.ids_distinct[OF i] sim.ids_nonempty[OF i], assumption?)+
next
  fix w args r w'
  assume w: "simDinv rs ss w" and "deviceRun d args w = (r, w')"
  thus "simDinv rs ss w'"
    by (cases rule: deviceRun_cases[OF \<open>deviceRun d args w = (r, w')\<close>])
       (auto simp: simDinv_def device_set setDevice_fields intro: sim.inv_run)
next
  fix w m x r w'
  assume "simDinv rs ss w" and m: "m \<in> set managedMenus" and run: "deviceRun d [m @ ''/print'', x] w = (r, w')"
  hence i: "simInv (device d w)" by (simp add: simDinv_def)
  from run show "simDev w' d = simDev w d"
    by (cases rule: deviceRun_cases) (simp_all add: simDev_def device_set sim.print_frame[OF i m])
next
  fix w m ps rp w'
  assume "simDinv rs ss w" and m: "m \<in> set managedMenus" and ps: "\<forall>p\<in>set ps. CHR '','' \<notin> set p" "ps \<noteq> []"
    and run: "deviceRun d [m @ ''/print'', ''=.proplist='' @ joinWith '','' ps] w = (Inr rp, w')"
  hence i: "simInv (device d w)" by (simp add: simDinv_def)
  from run show "\<exists>rep rows. rp = Some rep \<and> Re rep = map Some rows \<and>
      list_all2 (\<lambda>row e. \<forall>k\<in>set ps. mget row k = mget e k) rows (simDev w d m)"
    unfolding simDev_def by (cases rule: deviceRun_cases) (simp, rule sim.print_rows[OF i m ps])
next
  fix w m j r w'
  assume "simDinv rs ss w" and m: "m \<in> set managedMenus" and run: "deviceRun d [m @ ''/remove'', ''=.id='' @ j] w = (r, w')"
  hence i: "simInv (device d w)" by (simp add: simDinv_def)
  from run show "isl r \<and> simDev w' d = simDev w d \<or>
      simDev w' d = (simDev w d)(m := filter (\<lambda>e. ident e \<noteq> j) (simDev w d m))"
  proof (cases rule: deviceRun_cases)
    case (run s')
    from sim.remove_effect[OF i m run(1)] run(2,3) show ?thesis by (simp add: simDev_def device_set)
  qed simp
next
  fix w m args r w'
  assume "simDinv rs ss w" and m: "m \<in> set managedMenus" and run: "deviceRun d ((m @ ''/add'') # args) w = (r, w')"
  hence i: "simInv (device d w)" by (simp add: simDinv_def)
  from run show "isl r \<and> simDev w' d = simDev w d \<or>
      (\<exists>e. addedEntry args e \<and> simDev w' d = (simDev w d)(m := placeEntry (placeBeforeOf args) e (simDev w d m)))"
    by (cases rule: deviceRun_cases) (auto simp: simDev_def device_set dest: sim.add_effect[OF i m])
qed

lemma sim_still_put:
  "still simDev (simDinv rs ss) w (mkPut dnsKind b w)" "still simDev (simDinv rs ss) w (mkPut forwardKind c w)"
  "still simDev (simDinv rs ss) w (mkPut routeKind e w)" "still simDev (simDinv rs ss) w (mkPut firewallKind f w)"
  by (simp_all add: kinds still_def simDev_def[abs_def])

lemma simEnv_stores [simp]:
  "kRouters simEnv = memStore routerKind" "kDNS simEnv = memStore dnsKind"
  "kForwards simEnv = memStore forwardKind" "kRoutes simEnv = memStore routeKind"
  "kFirewall simEnv = memStore firewallKind" "kServices simEnv = memStore serviceKind"
  "kFactory simEnv = simDial"
  by (simp_all add: simEnv_def)

lemma sim_reads:
  assumes "\<And>w. R w w"
  shows "keeps R (kGetPod simEnv k)" "keeps R (kListNodes simEnv)" "keeps R (kGetSecret simEnv k)"
    "keeps R (kFence simEnv k)" "keeps R (kUnfence simEnv k)" "keeps R (kClaimFence simEnv k)" "keeps R (kClaimUnfence simEnv k)"
  using assms by (simp_all add: simEnv_def keeps_def)

interpretation sst: kube_frame_all "still simDev (simDinv rs ss)" "simDinv rs ss" simEnv for rs ss
proof unfold_locales
  fix w w' assume "\<not> simDinv rs ss w"
  thus "still simDev (simDinv rs ss) w w'" by (simp add: still_def)
qed (simp_all add: memStore_keeps memStore_reads sim_still_put sim_reads still.frame_refl)

interpretation sdl: dial_frame "still simDev (simDinv rs ss)" "simDinv rs ss" simEnv for rs ss
proof unfold_locales
  fix c
  assume "dialled simEnv c"
  thus "keeps (still simDev (simDinv rs ss)) (rcClose (cnClient c))"
    by (simp add: dialled_sim simClient_def keeps_def still_def simDev_def[abs_def])
qed (simp add: simDial_def keeps_def still_def simDev_def[abs_def])

lemma simClient_only: "keeps (only simDev (simDinv rs ss) d) (deviceRun d args)"
proof (rule keepsI)
  fix w r w' assume run: "deviceRun d args w = (r, w')"
  have "simDinv rs ss w \<Longrightarrow> simDinv rs ss w'"
    by (rule routeros_device.inv_run[OF deviceRun_device _ run])
  with run show "only simDev (simDinv rs ss) d w w'"
    by (cases rule: deviceRun_cases) (auto simp: only_def simDev_def device_set)
qed

interpretation sc: device_cluster simEnv simDev "simDinv rs ss" for rs ss
proof (intro device_cluster.intro device_cluster_axioms.intro)
  fix c args
  assume "dialled simEnv c"
  note client = dialled_sim[OF this]
  show "routeros_device (rcRun (cnClient c)) (\<lambda>w. simDev w (endpointKey (cnEndpoint c))) (simDinv rs ss)"
    by (simp add: client simClient_def deviceRun_device)
  show "keeps (only simDev (simDinv rs ss) (endpointKey (cnEndpoint c))) (rcRun (cnClient c) args)"
    by (simp add: client simClient_def simClient_only)
qed (fact sst.kube_frame_all_axioms sdl.dial_frame_axioms)+

section \<open>Marks\<close>

definition marks :: "('w, 'o) memKind \<Rightarrow> ('o \<Rightarrow> bool) \<Rightarrow> 'w \<Rightarrow> bool" where
  "marks mk ap w = list_ex ap (mkObjects mk w)"

interpretation um: frame "unmarked D m" for D m
  by unfold_locales (auto simp: unmarked_def)

text \<open>What has to be shown of a mark: the stores of the four kinds, the devices and the connections
  respect it.\<close>

lemma sim_marked:
  fixes rs ss marked
  defines "R \<equiv> unmarked (simDinv rs ss) marked"
  assumes "storeKeeps R (\<lambda>r. \<not> dtApplied (dnsStatusOf r)) (memStore dnsKind)"
    and "storeKeeps R (\<lambda>f. \<not> ptApplied (pfStatusOf f)) (memStore forwardKind)"
    and "storeKeeps R (\<lambda>r. \<not> otApplied (routeStatusOf r)) (memStore routeKind)"
    and "storeKeeps R (\<lambda>r. \<not> ftApplied (fwStatusOf r)) (memStore firewallKind)"
    and dev: "\<And>w d s. marked (setDevice d s w) = marked w" and opens: "\<And>w n. marked (w\<lparr>clOpen := n\<rparr>) = marked w"
  shows "marked_cluster simEnv simDev (simDinv rs ss) marked"
proof (intro marked_cluster.intro marked_cluster_axioms.intro)
  show "device_cluster simEnv simDev (simDinv rs ss)" by (fact sc.device_cluster_axioms)
  show "dial_frame (unmarked (simDinv rs ss) marked) (simDinv rs ss) simEnv"
  proof unfold_locales
    fix c
    assume "dialled simEnv c"
    thus "keeps (unmarked (simDinv rs ss) marked) (rcClose (cnClient c))"
      by (simp add: dialled_sim simClient_def keeps_def unmarked_def opens)
  next
    show "keeps (unmarked (simDinv rs ss) marked) (kFactory simEnv a p t u pw)" for a p t u pw
      by (simp add: simDial_def keeps_def unmarked_def opens)
  qed (use assms(2-5) in \<open>simp_all add: R_def sim_reads memStore_reads um.frame_refl\<close>, simp add: unmarked_def)
  fix c args
  assume "dialled simEnv c"
  note client = dialled_sim[OF this]
  show "keeps (unmarked (simDinv rs ss) marked) (rcRun (cnClient c) args)"
  proof (rule keepsI)
    fix w r w' assume "rcRun (cnClient c) args w = (r, w')"
    hence run: "deviceRun (endpointKey (cnEndpoint c)) args w = (r, w')" by (simp add: client simClient_def)
    have "simDinv rs ss w \<Longrightarrow> simDinv rs ss w'"
      by (rule routeros_device.inv_run[OF deviceRun_device _ run])
    with run show "unmarked (simDinv rs ss) marked w w'"
      by (cases rule: deviceRun_cases) (auto simp: unmarked_def dev)
  qed
qed

text \<open>Objects of other kinds do not bear the mark.\<close>

lemma others_unmarked:
  assumes "\<And>xs w. marked (mkPut mk xs w) = marked w" and "\<And>xs w. simDinv rs ss (mkPut mk xs w) = simDinv rs ss w"
  shows "storeKeeps (unmarked (simDinv rs ss) marked) ok (memStore mk)"
  by (rule memStore_keeps(1)) (simp_all add: unmarked_def assms)

abbreviation dnsMarked :: "cluster \<Rightarrow> bool" where
  "dnsMarked \<equiv> marks dnsKind (\<lambda>x. dtApplied (dnsStatusOf x))"

abbreviation forwardMarked :: "cluster \<Rightarrow> bool" where
  "forwardMarked \<equiv> marks forwardKind (\<lambda>x. ptApplied (pfStatusOf x))"

abbreviation routeMarked :: "cluster \<Rightarrow> bool" where
  "routeMarked \<equiv> marks routeKind (\<lambda>x. otApplied (routeStatusOf x))"

abbreviation firewallMarked :: "cluster \<Rightarrow> bool" where
  "firewallMarked \<equiv> marks firewallKind (\<lambda>x. ftApplied (fwStatusOf x))"

lemmas own_unmarked = memStore_unmarked[where I = "simDinv rs ss" for rs ss, folded marks_def]

interpretation md: marked_cluster simEnv simDev "simDinv rs ss" dnsMarked for rs ss
  by (rule sim_marked; (rule own_unmarked | rule others_unmarked)?; simp add: kinds marks_def emptyRouteStatus_def)

interpretation mf: marked_cluster simEnv simDev "simDinv rs ss" forwardMarked for rs ss
  by (rule sim_marked; (rule own_unmarked | rule others_unmarked)?; simp add: kinds marks_def emptyRouteStatus_def)

interpretation mr: marked_cluster simEnv simDev "simDinv rs ss" routeMarked for rs ss
  by (rule sim_marked; (rule own_unmarked | rule others_unmarked)?; simp add: kinds marks_def emptyRouteStatus_def)

interpretation mw: marked_cluster simEnv simDev "simDinv rs ss" firewallMarked for rs ss
  by (rule sim_marked; (rule own_unmarked | rule others_unmarked)?; simp add: kinds marks_def emptyRouteStatus_def)

section \<open>Additions\<close>

text \<open>No device has handed out a new identifier: nothing was added to any of them.\<close>

definition noAdds :: "cluster \<Rightarrow> cluster \<Rightarrow> bool" where
  "noAdds w w' \<longleftrightarrow> (\<forall>d. simNext (device d w') = simNext (device d w))"

lemma menuOf_add_None: "menuOf ''/add'' (m @ ''/print'') = None" "menuOf ''/add'' (m @ ''/remove'') = None"
proof -
  have "last (m @ ''/print'') \<noteq> last (m' @ ''/add'')" "last (m @ ''/remove'') \<noteq> last (m' @ ''/add'')" for m'
    by simp_all
  thus "menuOf ''/add'' (m @ ''/print'') = None" "menuOf ''/add'' (m @ ''/remove'') = None"
    unfolding menuOf_def find_None_iff by metis+
qed

lemma simRun_removal:
  assumes "removalSentence args"
  shows "simNext (snd (simRun args s)) = simNext s"
proof -
  from assms obtain cmd x where "args = [cmd, x]" "menuOf ''/add'' cmd = None"
    unfolding removalSentence_def using menuOf_add_None by blast
  thus ?thesis by (simp add: simRun_def split: option.split)
qed

interpretation noadds: frame noAdds
  by unfold_locales (simp_all add: noAdds_def)

interpretation na: cleanup_frame noAdds "\<lambda>_. True" simEnv
proof unfold_locales
  have put: "noAdds w (mkPut dnsKind b w)" "noAdds w (mkPut forwardKind c w)"
    "noAdds w (mkPut routeKind e w)" "noAdds w (mkPut firewallKind f w)" for w b c e f
    by (simp_all add: kinds noAdds_def)
  show "storeKeeps noAdds (\<lambda>r. \<not> dtApplied (dnsStatusOf r)) (kDNS simEnv)"
    "storeKeeps noAdds (\<lambda>f. \<not> ptApplied (pfStatusOf f)) (kForwards simEnv)"
    "storeKeeps noAdds (\<lambda>r. \<not> otApplied (routeStatusOf r)) (kRoutes simEnv)"
    "storeKeeps noAdds (\<lambda>r. \<not> ftApplied (fwStatusOf r)) (kFirewall simEnv)"
    by (simp_all add: memStore_keeps(1) put noadds.frame_refl)
  show "keeps noAdds (kFactory simEnv a p t u pw)" for a p t u pw
    by (simp add: simDial_def keeps_def noAdds_def)
  fix c args
  assume "dialled simEnv c"
  note client = dialled_sim[OF this]
  show "keeps noAdds (rcClose (cnClient c))"
    by (simp add: client simClient_def keeps_def noAdds_def)
  assume removal: "removalSentence args"
  show "keeps noAdds (rcRun (cnClient c) args)"
  proof (rule keepsI)
    fix w r w' assume "rcRun (cnClient c) args w = (r, w')"
    hence "deviceRun (endpointKey (cnEndpoint c)) args w = (r, w')" by (simp add: client simClient_def)
    thus "noAdds w w'"
    proof (cases rule: deviceRun_cases)
      case (run s')
      with simRun_removal[OF removal, of "device (endpointKey (cnEndpoint c)) w"] show ?thesis
        by (simp add: noAdds_def device_set)
    qed (simp add: noAdds_def)
  qed
qed (simp_all add: sim_reads memStore_reads noadds.frame_refl)

end
