(* ===== verification/Reconcile_Properties.thy ===== *)
theory Reconcile_Properties
  imports Kube_Sim
begin

text \<open>
  The properties of the reconcilers of DNS records, port forwards, routes and firewall rules, with
  their runs on the cluster of \<open>Kube_Sim\<close>.
\<close>

section \<open>A cluster\<close>

definition labMeta :: "string \<Rightarrow> objectMeta" where
  "labMeta n = emptyMeta\<lparr>omNamespace := ''lab'', omName := n, omUID := ''uid-'' @ n,
     omFinalizers := [''mikrotik.operator.io/managed-config''],
     omAnnotations := [(''mikrotik.operator.io/router-targets'', ''home'')]\<rparr>"

definition labEndpoint :: "string \<Rightarrow> routerEndpoint" where
  "labEndpoint a = \<lparr>epName = a, epAddress = a, epPort = 0, epTLS = False, epCredentialsSecret = ''creds'', epRouteGateway = []\<rparr>"

definition labRouter :: router where
  "labRouter = \<lparr>routerMeta = labMeta ''home'',
     routerSpecOf = \<lparr>rsAddress = [], rsPort = 0, rsTLS = False, rsCredentialsSecret = [], rsRouteGateway = [],
       rsRouters = [labEndpoint ''10.0.0.1'', labEndpoint ''10.0.0.2'']\<rparr>,
     routerStatusOf = \<lparr>rtConnected = True, rtVersion = [],
       rtAppliedEndpoints = [labEndpoint ''10.0.0.1'', labEndpoint ''10.0.0.2''], rtConditions = []\<rparr>\<rparr>"

definition labDNS :: dnsRecord where
  "labDNS = \<lparr>dnsMeta = labMeta ''app'',
     dnsSpecOf = \<lparr>dsRouterRef = ''home'', dsName = ''app.lab'', dsAddress = ''10.9.9.9'', dsTTL = ''5m'', dsServiceRef = None\<rparr>,
     dnsStatusOf = \<lparr>dtApplied = False, dtRouterID = [], dtRouterRef = [], dtConditions = []\<rparr>\<rparr>"

definition labForward :: portForward where
  "labForward = \<lparr>pfMeta = labMeta ''web'',
     pfSpecOf = \<lparr>psRouterRef = ''home'', psProtocol = ''tcp'', psExternalPort = 8443, psServiceRef = None, psPodRef = None,
       psTargetPort = 443, psTargetAddress = ''10.9.9.9'', psDestinationAddress = ''203.0.113.9''\<rparr>,
     pfStatusOf = \<lparr>ptApplied = False, ptRouterID = [], ptRouterRef = [], ptTargetAddress = [],
       ptExternalAddress = [], ptConditions = []\<rparr>\<rparr>"

definition labRoute :: route where
  "labRoute = \<lparr>routeMeta = labMeta ''lan'',
     routeSpecOf = \<lparr>osRouterRef = ''home'', osDestination = ''10.8.0.0/16'', osGateway = ''10.0.0.254'', osDistance = 3\<rparr>,
     routeStatusOf = emptyRouteStatus\<rparr>"

definition labRule :: firewallRule where
  "labRule = \<lparr>fwMeta = labMeta ''ssh'',
     fwSpecOf = \<lparr>fsRouterRef = ''home'', fsChain = ''input'', fsAction = ''drop'', fsProtocol = ''tcp'', fsSourceAddress = [],
       fsDestinationAddress = [], fsSourcePort = [], fsDestinationPort = ''22'', fsInInterface = ''ether1'',
       fsOutInterface = [], fsConnectionState = [], fsConnectionNatState = [], fsLogPrefix = [], fsPlaceBefore = True\<rparr>,
     fwStatusOf = \<lparr>ftApplied = False, ftRouterRef = [], ftConditions = []\<rparr>\<rparr>"

definition lab :: cluster where
  "lab = \<lparr>clRouters = [labRouter], clDNS = [labDNS], clForwards = [labForward], clRoutes = [labRoute],
     clFirewall = [labRule], clServices = [], clPods = [], clNodes = [],
     clSecrets = [(mkName ''lab'' ''creds'', [(''username'', ''admin''), (''password'', ''secret'')])],
     clDevices = [(''10.0.0.1|8728|false'', simEmpty), (''10.0.0.2|8728|false'', simEmpty)], clOpen = 0\<rparr>"

abbreviation labInv :: "cluster \<Rightarrow> bool" where
  "labInv \<equiv> simDinv [labRouter] []"

lemma simDinv_lab [simp]: "labInv lab"
  by (simp add: simDinv_def device_def lab_def)

lemma lab_dns_applied: "\<not> dnsMarked lab" "dnsMarked (snd (DNSReconcile simEnv (mkName ''lab'' ''app'') lab))"
  by code_simp+

lemma lab_forward_applied:
  "\<not> forwardMarked lab" "forwardMarked (snd (PortForwardReconcile simEnv (mkName ''lab'' ''web'') lab))"
  by code_simp+

lemma lab_route_applied: "\<not> routeMarked lab" "routeMarked (snd (RouteReconcile simEnv (mkName ''lab'' ''lan'') lab))"
  by code_simp+

lemma lab_firewall_applied:
  "\<not> firewallMarked lab" "firewallMarked (snd (FirewallRuleReconcile simEnv (mkName ''lab'' ''ssh'') lab))"
  by code_simp+

lemma lab_route_distance:
  assumes "stGet (kRoutes simEnv) (mkName ''lab'' ''lan'') lab = (Inr r, w1)"
  shows "0 \<le> osDistance (routeSpecOf r)"
proof -
  have "fst (stGet (kRoutes simEnv) (mkName ''lab'' ''lan'') lab) = Inr labRoute" by code_simp
  with assms show ?thesis by (simp add: labRoute_def)
qed

section \<open>Applied\<close>

text \<open>
  C1.  When a pass of the DNS reconciler marks a record as applied, every endpoint of the router the
  record is settled on holds exactly one entry with the record's comment, with its name, its address
  (or that of its service) and its TTL.  \<open>dinv\<close> is any property of worlds that the calls of a pass
  keep, such as which routers and services exist: the router, the service and the resolution of the
  reference are those of a world with \<open>dinv\<close>.
\<close>

theorem DNS_applied_on_devices:
  assumes "marked_cluster env dev dinv marked" and "DNSReconcile env key w = (res, w')"
    and "dinv w" and "\<not> marked w" and "marked w'"
  shows "\<exists>r w1. stGet (kDNS env) key w = (Inr r, w1) \<and> (\<exists>rkey address referenced.
    settled dinv env (dnsMeta r) (dsRouterRef (dnsSpecOf r)) rkey \<and> dnsAddressed dinv env r address referenced \<and>
    onRouter dinv env dev rkey (\<lambda>_ _. dnsPresent (dsName (dnsSpecOf r)) address (dsTTL (dnsSpecOf r)) (dnsComment r)) w')"
  by (rule marked_cluster.DNSReconcile_applied[OF assms])

theorem DNS_applied_on_devices_witness:
  "\<exists>r w1. stGet (kDNS simEnv) (mkName ''lab'' ''app'') lab = (Inr r, w1) \<and> (\<exists>rkey address referenced.
    settled labInv simEnv (dnsMeta r) (dsRouterRef (dnsSpecOf r)) rkey \<and> dnsAddressed labInv simEnv r address referenced \<and>
    onRouter labInv simEnv simDev rkey (\<lambda>_ _. dnsPresent (dsName (dnsSpecOf r)) address (dsTTL (dnsSpecOf r)) (dnsComment r)) (snd (DNSReconcile simEnv (mkName ''lab'' ''app'') lab)))"
  by (rule DNS_applied_on_devices[OF md.marked_cluster_axioms, OF prod.collapse[symmetric] simDinv_lab lab_dns_applied])



text \<open>
  C3.  When a pass of the route reconciler marks a route as applied, every endpoint of its router
  holds exactly one route with its comment, with the wanted destination, gateway and distance; a
  generated route is on the endpoints its gateway is meant for and on no other endpoint.
\<close>

theorem Route_applied_on_devices:
  assumes "marked_cluster env dev dinv marked" and "RouteReconcile env key w = (res, w')"
    and "dinv w" and "\<not> marked w" and "marked w'"
    and "\<And>r w1. stGet (kRoutes env) key w = (Inr r, w1) \<Longrightarrow> 0 \<le> osDistance (routeSpecOf r)"
  shows "\<exists>r w1. stGet (kRoutes env) key w = (Inr r, w1) \<and> (\<exists>rkey.
    settled dinv env (routeMeta r) (osRouterRef (routeSpecOf r)) rkey \<and>
    onRouter dinv env dev rkey (routeOnEndpoint r) w')"
  by (rule marked_cluster.RouteReconcile_applied[OF assms])

theorem Route_applied_on_devices_witness:
  "\<exists>r w1. stGet (kRoutes simEnv) (mkName ''lab'' ''lan'') lab = (Inr r, w1) \<and> (\<exists>rkey.
    settled labInv simEnv (routeMeta r) (osRouterRef (routeSpecOf r)) rkey \<and>
    onRouter labInv simEnv simDev rkey (routeOnEndpoint r) (snd (RouteReconcile simEnv (mkName ''lab'' ''lan'') lab)))"
  by (rule Route_applied_on_devices[OF mr.marked_cluster_axioms, OF prod.collapse[symmetric] simDinv_lab lab_route_applied])
     (rule lab_route_distance)

text \<open>
  C4.  When a pass of the firewall reconciler marks a rule as applied, every endpoint of its router
  holds exactly one rule with its comment, it matches the wanted rule and stands before the rules the
  operator does not manage if that was asked for.
\<close>

theorem FirewallRule_applied_on_devices:
  assumes "marked_cluster env dev dinv marked" and "FirewallRuleReconcile env key w = (res, w')"
    and "dinv w" and "\<not> marked w" and "marked w'"
  shows "\<exists>r w1. stGet (kFirewall env) key w = (Inr r, w1) \<and> (\<exists>rkey.
    settled dinv env (fwMeta r) (fsRouterRef (fwSpecOf r)) rkey \<and>
    onRouter dinv env dev rkey (\<lambda>_ _. firewallPresent (rosRuleOf (fwSpecOf r)) (firewallComment r)) w')"
  by (rule marked_cluster.FirewallRuleReconcile_applied[OF assms])

theorem FirewallRule_applied_on_devices_witness:
  "\<exists>r w1. stGet (kFirewall simEnv) (mkName ''lab'' ''ssh'') lab = (Inr r, w1) \<and> (\<exists>rkey.
    settled labInv simEnv (fwMeta r) (fsRouterRef (fwSpecOf r)) rkey \<and>
    onRouter labInv simEnv simDev rkey (\<lambda>_ _. firewallPresent (rosRuleOf (fwSpecOf r)) (firewallComment r)) (snd (FirewallRuleReconcile simEnv (mkName ''lab'' ''ssh'') lab)))"
  by (rule FirewallRule_applied_on_devices[OF mw.marked_cluster_axioms, OF prod.collapse[symmetric] simDinv_lab lab_firewall_applied])

section \<open>Recorded first\<close>

text \<open>
  C5.  No reconciler adds anything to a router before the object has its finalizer and its annotation
  names that router: whatever the API calls, the cleanups and the dialling keep, a pass keeps too,
  unless the object it read is settled.
\<close>

theorem recorded_before_applied:
  assumes "cleanup_frame R I env"
  shows "(DNSReconcile env key w = (res, w') \<and> \<not> R w w' \<longrightarrow> (\<exists>r w1 rkey. stGet (kDNS env) key w = (Inr r, w1) \<and>
            settled I env (dnsMeta r) (dsRouterRef (dnsSpecOf r)) rkey)) \<and>
    (PortForwardReconcile env key w = (res, w') \<and> \<not> R w w' \<longrightarrow> (\<exists>f w1 rkey. stGet (kForwards env) key w = (Inr f, w1) \<and>
            settled I env (pfMeta f) (psRouterRef (pfSpecOf f)) rkey)) \<and>
    (RouteReconcile env key w = (res, w') \<and> \<not> R w w' \<longrightarrow> (\<exists>r w1 rkey. stGet (kRoutes env) key w = (Inr r, w1) \<and>
            settled I env (routeMeta r) (osRouterRef (routeSpecOf r)) rkey)) \<and>
    (FirewallRuleReconcile env key w = (res, w') \<and> \<not> R w w' \<longrightarrow> (\<exists>r w1 rkey. stGet (kFirewall env) key w = (Inr r, w1) \<and>
            settled I env (fwMeta r) (fsRouterRef (fwSpecOf r)) rkey))"
proof -
  note frame = cleanup_frame.axioms(1)[OF assms, THEN dial_frame.axioms(1)]
  note broken = kube_frame.api_keeps[OF frame]
  show ?thesis
    unfolding DNSReconcile_def PortForwardReconcile_def RouteReconcile_def FirewallRuleReconcile_def
    by (intro conjI impI; elim conjE)
       (erule (1) cleanup_frame.broken_settled[OF assms],
        rule broken(3) broken(9) broken(15) broken(21),
        rule cleanup_frame.unsettled_keeps[OF assms] cleanup_frame.unsettled_forward_keeps[OF assms], assumption)+
qed

lemma lab_adds: "\<not> noAdds lab (snd (DNSReconcile simEnv (mkName ''lab'' ''app'') lab))"
proof
  assume "noAdds lab (snd (DNSReconcile simEnv (mkName ''lab'' ''app'') lab))"
  hence "simNext (device ''10.0.0.2|8728|false'' (snd (DNSReconcile simEnv (mkName ''lab'' ''app'') lab)))
      = simNext (device ''10.0.0.2|8728|false'' lab)" by (simp add: noAdds_def)
  moreover have "simNext (device ''10.0.0.2|8728|false'' (snd (DNSReconcile simEnv (mkName ''lab'' ''app'') lab))) = 2"
    and "simNext (device ''10.0.0.2|8728|false'' lab) = 1" by code_simp+
  ultimately show False by simp
qed

theorem recorded_before_applied_witness:
  "\<exists>r w1 rkey. stGet (kDNS simEnv) (mkName ''lab'' ''app'') lab = (Inr r, w1) \<and>
     settled (\<lambda>_. True) simEnv (dnsMeta r) (dsRouterRef (dnsSpecOf r)) rkey"
  using recorded_before_applied[OF na.cleanup_frame_axioms, of "mkName ''lab'' ''app''" lab
      "fst (DNSReconcile simEnv (mkName ''lab'' ''app'') lab)" "snd (DNSReconcile simEnv (mkName ''lab'' ''app'') lab)"]
    lab_adds by simp

end
