(* ===== verification/Fences.thy ===== *)
theory Fences
  imports Api_Types
begin

text \<open>
  The fence registry of \<^verbatim>\<open>router_fence.go\<close>: one token per key, created on demand, counted by
  reference and dropped with the last one.  The reconcilers of one process interleave; each step
  below is what one of them does between two points where another may run: the critical section
  of \<^verbatim>\<open>acquire\<close>, the receive from the token channel, the cancellation of the wait, the send back to
  the channel, and the critical section of \<^verbatim>\<open>releaseReference\<close>.
\<close>

section \<open>The registry\<close>

record registry =
  rgEntries :: "nsname \<Rightarrow> nat option"
  rgToken :: "nat \<Rightarrow> bool"
  rgRefs :: "nat \<Rightarrow> int"
  rgNext :: nat

definition newRouterFenceRegistry :: registry where
  "newRouterFenceRegistry =
     \<lparr>rgEntries = (\<lambda>_. None), rgToken = (\<lambda>_. False), rgRefs = (\<lambda>_. 0), rgNext = 0\<rparr>"

text \<open>The entry of a key, created with its token when there is none; the reference is counted.\<close>

definition enterFence :: "nsname \<Rightarrow> registry \<Rightarrow> nat \<times> registry" where
  "enterFence key rg =
     (case rgEntries rg key of
        Some e \<Rightarrow> (e, rg\<lparr>rgRefs := (rgRefs rg)(e := rgRefs rg e + 1)\<rparr>)
      | None \<Rightarrow>
          (let e = rgNext rg in
           (e, rg\<lparr>rgEntries := (rgEntries rg)(key := Some e), rgToken := (rgToken rg)(e := True),
                  rgRefs := (rgRefs rg)(e := 1), rgNext := e + 1\<rparr>)))"

definition takeToken :: "nat \<Rightarrow> registry \<Rightarrow> registry option" where
  "takeToken e rg = (if rgToken rg e then Some (rg\<lparr>rgToken := (rgToken rg)(e := False)\<rparr>) else None)"

text \<open>A send to the channel, of capacity one, waits while the token is there.\<close>

definition putToken :: "nat \<Rightarrow> registry \<Rightarrow> registry option" where
  "putToken e rg = (if rgToken rg e then None else Some (rg\<lparr>rgToken := (rgToken rg)(e := True)\<rparr>))"

definition releaseReference :: "nsname \<Rightarrow> nat \<Rightarrow> registry \<Rightarrow> registry" where
  "releaseReference key e rg =
     (let refs = rgRefs rg e - 1; rg' = rg\<lparr>rgRefs := (rgRefs rg)(e := refs)\<rparr> in
      if refs = 0 \<and> rgEntries rg key = Some e
      then rg'\<lparr>rgEntries := (rgEntries rg)(key := None)\<rparr> else rg')"

section \<open>Interleavings\<close>

datatype phase = Idle | Waiting nsname nat | Holding nsname nat | Leaving nsname nat

fun engaged :: "phase \<Rightarrow> (nsname \<times> nat) option" where
  "engaged Idle = None"
| "engaged (Waiting k e) = Some (k, e)"
| "engaged (Holding k e) = Some (k, e)"
| "engaged (Leaving k e) = Some (k, e)"

record 'p fences =
  fsReg :: registry
  fsPhase :: "'p \<Rightarrow> phase"

definition initFences :: "'p fences" where
  "initFences = \<lparr>fsReg = newRouterFenceRegistry, fsPhase = (\<lambda>_. Idle)\<rparr>"

inductive fenceStep :: "'p fences \<Rightarrow> 'p fences \<Rightarrow> bool" where
  enter: "fsPhase s p = Idle \<Longrightarrow> enterFence k (fsReg s) = (e, rg) \<Longrightarrow>
    fenceStep s \<lparr>fsReg = rg, fsPhase = (fsPhase s)(p := Waiting k e)\<rparr>"
| take: "fsPhase s p = Waiting k e \<Longrightarrow> takeToken e (fsReg s) = Some rg \<Longrightarrow>
    fenceStep s \<lparr>fsReg = rg, fsPhase = (fsPhase s)(p := Holding k e)\<rparr>"
| cancel: "fsPhase s p = Waiting k e \<Longrightarrow>
    fenceStep s \<lparr>fsReg = fsReg s, fsPhase = (fsPhase s)(p := Leaving k e)\<rparr>"
| release: "fsPhase s p = Holding k e \<Longrightarrow> putToken e (fsReg s) = Some rg \<Longrightarrow>
    fenceStep s \<lparr>fsReg = rg, fsPhase = (fsPhase s)(p := Leaving k e)\<rparr>"
| leave: "fsPhase s p = Leaving k e \<Longrightarrow>
    fenceStep s \<lparr>fsReg = releaseReference k e (fsReg s), fsPhase = (fsPhase s)(p := Idle)\<rparr>"

inductive fenceReach :: "'p fences \<Rightarrow> bool" where
  init: "fenceReach initFences"
| step: "fenceReach s \<Longrightarrow> fenceStep s t \<Longrightarrow> fenceReach t"

inductive_cases fenceStepE: "fenceStep s t"

section \<open>The invariant\<close>

text \<open>The reconcilers that count as references of an entry, and those that have its token.\<close>

definition users :: "('p \<Rightarrow> phase) \<Rightarrow> nsname \<Rightarrow> nat \<Rightarrow> 'p set" where
  "users ph k e = {p. engaged (ph p) = Some (k, e)}"

definition holders :: "('p \<Rightarrow> phase) \<Rightarrow> nsname \<Rightarrow> nat \<Rightarrow> 'p set" where
  "holders ph k e = {p. ph p = Holding k e}"

text \<open>An entry counts its users, and its token is away exactly while one of them holds it.\<close>

definition entryInv :: "registry \<Rightarrow> ('p \<Rightarrow> phase) \<Rightarrow> nsname \<Rightarrow> nat \<Rightarrow> bool" where
  "entryInv rg ph k e \<longleftrightarrow>
     e < rgNext rg \<and> finite (users ph k e) \<and> users ph k e \<noteq> {} \<and> rgRefs rg e = int (card (users ph k e)) \<and>
     (if rgToken rg e then holders ph k e = {} else (\<exists>p. holders ph k e = {p}))"

definition fenceInv :: "'p fences \<Rightarrow> bool" where
  "fenceInv s \<longleftrightarrow>
     (\<forall>p k e. engaged (fsPhase s p) = Some (k, e) \<longrightarrow> rgEntries (fsReg s) k = Some e) \<and>
     (\<forall>k e. rgEntries (fsReg s) k = Some e \<longrightarrow> entryInv (fsReg s) (fsPhase s) k e) \<and>
     (\<forall>k k' e. rgEntries (fsReg s) k = Some e \<longrightarrow> rgEntries (fsReg s) k' = Some e \<longrightarrow> k = k')"

lemma fenceInvD:
  assumes "fenceInv s"
  shows "engaged (fsPhase s p) = Some (k, e) \<Longrightarrow> rgEntries (fsReg s) k = Some e"
    and "rgEntries (fsReg s) k = Some e \<Longrightarrow> entryInv (fsReg s) (fsPhase s) k e"
    and "rgEntries (fsReg s) k = Some e \<Longrightarrow> rgEntries (fsReg s) k' = Some e \<Longrightarrow> k = k'"
  using assms unfolding fenceInv_def by blast+

text \<open>What a change of one phase does to the users and holders of an entry.\<close>

lemma users_upd:
  "users (ph(p := x)) k e = (if engaged x = Some (k, e) then insert p (users ph k e) else users ph k e - {p})"
  by (auto simp: users_def)

lemma holders_upd:
  "holders (ph(p := x)) k e = (if x = Holding k e then insert p (holders ph k e) else holders ph k e - {p})"
  by (auto simp: holders_def)

lemma users_iff: "p \<in> users ph k e \<longleftrightarrow> engaged (ph p) = Some (k, e)"
  by (simp add: users_def)

lemma holders_iff: "p \<in> holders ph k e \<longleftrightarrow> ph p = Holding k e"
  by (simp add: holders_def)

lemma holders_users: "p \<in> holders ph k e \<Longrightarrow> p \<in> users ph k e"
  by (simp add: users_def holders_def)

text \<open>A reconciler that moves on one entry leaves the others as they are.\<close>

lemma entryInv_other:
  assumes "entryInv rg ph k' e'" and "e' \<noteq> e" and "rgNext rg \<le> rgNext rg'"
    and "rgRefs rg' e' = rgRefs rg e'" and "rgToken rg' e' = rgToken rg e'"
    and "engaged (ph p) \<in> {None, Some (k, e)}" and "engaged x \<in> {None, Some (k, e)}"
  shows "entryInv rg' (ph(p := x)) k' e'"
proof -
  have u: "p \<notin> users ph k' e'" and "engaged x \<noteq> Some (k', e')"
    using assms(2,6,7) by (auto simp: users_iff)
  moreover have "p \<notin> holders ph k' e'"
    using u holders_users by fast
  moreover have "x \<noteq> Holding k' e'"
    using assms(2,7) by auto
  ultimately have "users (ph(p := x)) k' e' = users ph k' e'" "holders (ph(p := x)) k' e' = holders ph k' e'"
    by (simp_all add: users_upd holders_upd)
  thus ?thesis
    using assms(1,3,4,5) by (auto simp: entryInv_def)
qed

text \<open>So a step keeps the invariant when it does so for the entry it moves on, or drops that entry
  with the last user.\<close>

lemma fenceInv_update:
  assumes s: "fenceInv s"
    and others: "\<And>k'. k' \<noteq> k \<Longrightarrow> rgEntries rg k' = rgEntries (fsReg s) k'"
    and regs: "rgNext (fsReg s) \<le> rgNext rg" "\<And>e'. e' \<noteq> e \<Longrightarrow> rgRefs rg e' = rgRefs (fsReg s) e'"
              "\<And>e'. e' \<noteq> e \<Longrightarrow> rgToken rg e' = rgToken (fsReg s) e'"
    and phases: "engaged (fsPhase s p) \<in> {None, Some (k, e)}" "engaged x \<in> {None, Some (k, e)}"
    and own: "\<And>k'. rgEntries (fsReg s) k' = Some e \<Longrightarrow> k' = k"
    and here: "rgEntries rg k = Some e \<and> entryInv rg ((fsPhase s)(p := x)) k e
               \<or> rgEntries rg k = None \<and> users ((fsPhase s)(p := x)) k e = {}"
    and same: "\<And>p e'. engaged (fsPhase s p) = Some (k, e') \<Longrightarrow> e' = e"
  shows "fenceInv \<lparr>fsReg = rg, fsPhase = (fsPhase s)(p := x)\<rparr>"
  unfolding fenceInv_def
proof (intro conjI allI impI)
  note D = fenceInvD [OF s]
  fix q k' e' assume q: "engaged (fsPhase \<lparr>fsReg = rg, fsPhase = (fsPhase s)(p := x)\<rparr> q) = Some (k', e')"
  hence u: "q \<in> users ((fsPhase s)(p := x)) k' e'"
    by (simp add: users_iff)
  show "rgEntries (fsReg \<lparr>fsReg = rg, fsPhase = (fsPhase s)(p := x)\<rparr>) k' = Some e'"
  proof (cases "k' = k")
    case True
    hence "e' = e"
      using u same phases(2) by (auto simp: users_upd users_iff split: if_splits)
    thus ?thesis
      using here u True by auto
  next
    case False
    hence "engaged (fsPhase s q) = Some (k', e')"
      using u phases(2) by (auto simp: users_upd users_iff split: if_splits)
    thus ?thesis
      using D(1) others False by simp
  qed
next
  fix k' e' assume "rgEntries (fsReg \<lparr>fsReg = rg, fsPhase = (fsPhase s)(p := x)\<rparr>) k' = Some e'"
  hence e': "rgEntries rg k' = Some e'" by simp
  show "entryInv (fsReg \<lparr>fsReg = rg, fsPhase = (fsPhase s)(p := x)\<rparr>)
          (fsPhase \<lparr>fsReg = rg, fsPhase = (fsPhase s)(p := x)\<rparr>) k' e'"
  proof (cases "k' = k")
    case True
    thus ?thesis using here e' by auto
  next
    case False
    hence old: "rgEntries (fsReg s) k' = Some e'" using e' others by simp
    hence "e' \<noteq> e" using own False by blast
    thus ?thesis
      using entryInv_other [OF fenceInvD(2) [OF s old] _ regs(1) _ _ phases] regs(2,3) by simp
  qed
next
  fix k' k'' e'
  assume "rgEntries (fsReg \<lparr>fsReg = rg, fsPhase = (fsPhase s)(p := x)\<rparr>) k' = Some e'"
    and "rgEntries (fsReg \<lparr>fsReg = rg, fsPhase = (fsPhase s)(p := x)\<rparr>) k'' = Some e'"
  hence a: "rgEntries rg k' = Some e'" "rgEntries rg k'' = Some e'"
    by simp_all
  have e: "rgEntries rg k = Some e' \<Longrightarrow> e' = e"
    using here by auto
  have only: "rgEntries rg k = Some e' \<Longrightarrow> rgEntries rg l = Some e' \<Longrightarrow> l = k" for l
    using e own others by metis
  show "k' = k''"
  proof (cases "k' = k \<or> k'' = k")
    case True
    thus ?thesis using only a by metis
  next
    case False
    thus ?thesis
      using a others [of k'] others [of k''] fenceInvD(3) [OF s, of k' e' k''] by simp
  qed
qed

lemma fenceInv_entry:
  assumes s: "fenceInv s" and k: "rgEntries (fsReg s) k = Some e"
  shows "rgEntries (fsReg s) k' = Some e \<Longrightarrow> k' = k"
    and "engaged (fsPhase s p) = Some (k, e') \<Longrightarrow> e' = e"
proof -
  show "rgEntries (fsReg s) k' = Some e \<Longrightarrow> k' = k"
    by (rule fenceInvD(3) [OF s _ k])
  assume "engaged (fsPhase s p) = Some (k, e')"
  from fenceInvD(1) [OF s this] show "e' = e" by (simp add: k)
qed

lemma fenceInv_update_entry:
  assumes s: "fenceInv s" and k: "rgEntries (fsReg s) k = Some e"
    and others: "\<And>k'. k' \<noteq> k \<Longrightarrow> rgEntries rg k' = rgEntries (fsReg s) k'"
    and regs: "rgNext (fsReg s) \<le> rgNext rg" "\<And>e'. e' \<noteq> e \<Longrightarrow> rgRefs rg e' = rgRefs (fsReg s) e'"
              "\<And>e'. e' \<noteq> e \<Longrightarrow> rgToken rg e' = rgToken (fsReg s) e'"
    and phases: "engaged (fsPhase s p) \<in> {None, Some (k, e)}" "engaged x \<in> {None, Some (k, e)}"
    and here: "rgEntries rg k = Some e \<and> entryInv rg ((fsPhase s)(p := x)) k e
               \<or> rgEntries rg k = None \<and> users ((fsPhase s)(p := x)) k e = {}"
  shows "fenceInv \<lparr>fsReg = rg, fsPhase = (fsPhase s)(p := x)\<rparr>"
  by (rule fenceInv_update [OF s others regs phases fenceInv_entry(1) [OF s k] here fenceInv_entry(2) [OF s k]])

text \<open>Each step keeps the invariant.\<close>

lemma fenceInv_enter:
  assumes s: "fenceInv s" and p: "fsPhase s p = Idle" and enter: "enterFence k (fsReg s) = (e, rg)"
  shows "fenceInv \<lparr>fsReg = rg, fsPhase = (fsPhase s)(p := Waiting k e)\<rparr>"
proof (cases "rgEntries (fsReg s) k")
  case None
  note D = fenceInvD [OF s]
  have e: "e = rgNext (fsReg s)"
    and rg: "rg = (fsReg s)\<lparr>rgEntries := (rgEntries (fsReg s))(k := Some e), rgToken := (rgToken (fsReg s))(e := True),
                            rgRefs := (rgRefs (fsReg s))(e := 1), rgNext := e + 1\<rparr>"
    using enter None by (auto simp: enterFence_def Let_def)
  have nobody: "engaged (fsPhase s q) \<noteq> Some (k, e')" for q e'
    using D(1) None by fastforce
  have fresh: "rgEntries (fsReg s) k' = Some e \<Longrightarrow> k' = k" for k'
    using D(2) e by (fastforce simp: entryInv_def)
  have "users (fsPhase s) k e = {}" "holders (fsPhase s) k e = {}"
    using nobody holders_users by (fastforce simp: users_iff)+
  hence "entryInv rg ((fsPhase s)(p := Waiting k e)) k e"
    by (simp add: entryInv_def rg users_upd holders_upd)
  thus ?thesis
    using nobody fresh by (intro fenceInv_update [OF s]) (auto simp: rg e p)
next
  case (Some e0)
  note D = fenceInvD [OF s]
  have e: "e0 = e" and rg: "rg = (fsReg s)\<lparr>rgRefs := (rgRefs (fsReg s))(e := rgRefs (fsReg s) e + 1)\<rparr>"
    using enter Some by (auto simp: enterFence_def)
  have k: "rgEntries (fsReg s) k = Some e" using Some e by simp
  have "p \<notin> users (fsPhase s) k e" "p \<notin> holders (fsPhase s) k e"
    by (simp_all add: users_iff holders_iff p)
  hence "entryInv rg ((fsPhase s)(p := Waiting k e)) k e"
    using D(2) [OF k] by (auto simp: entryInv_def rg users_upd holders_upd)
  thus ?thesis
    using k by (intro fenceInv_update_entry [OF s k]) (simp_all add: rg p)
qed

lemma fenceInv_move:
  assumes s: "fenceInv s" and p: "engaged (fsPhase s p) = Some (k, e)" and x: "engaged x = Some (k, e)"
    and rg: "rg = (fsReg s)\<lparr>rgToken := (rgToken (fsReg s))(e := b)\<rparr>"
    and b: "if b then holders ((fsPhase s)(p := x)) k e = {} else (\<exists>q. holders ((fsPhase s)(p := x)) k e = {q})"
  shows "fenceInv \<lparr>fsReg = rg, fsPhase = (fsPhase s)(p := x)\<rparr>"
proof -
  note D = fenceInvD [OF s]
  have k: "rgEntries (fsReg s) k = Some e"
    using D(1) [OF p] .
  have "users ((fsPhase s)(p := x)) k e = users (fsPhase s) k e"
    using p x by (auto simp: users_upd users_iff)
  hence "entryInv rg ((fsPhase s)(p := x)) k e"
    using D(2) [OF k] b by (simp add: entryInv_def rg)
  thus ?thesis
    using k p x by (intro fenceInv_update_entry [OF s k]) (simp_all add: rg)
qed

lemma fenceInv_take:
  assumes s: "fenceInv s" and p: "fsPhase s p = Waiting k e" and tk: "takeToken e (fsReg s) = Some rg"
  shows "fenceInv \<lparr>fsReg = rg, fsPhase = (fsPhase s)(p := Holding k e)\<rparr>"
proof (rule fenceInv_move [OF s])
  show "engaged (fsPhase s p) = Some (k, e)" by (simp add: p)
  hence "entryInv (fsReg s) (fsPhase s) k e" using fenceInvD [OF s] by blast
  thus "if False then holders ((fsPhase s)(p := Holding k e)) k e = {}
        else \<exists>q. holders ((fsPhase s)(p := Holding k e)) k e = {q}"
    using tk by (auto simp: takeToken_def entryInv_def holders_upd split: if_splits)
qed (use tk in \<open>auto simp: takeToken_def split: if_splits\<close>)

lemma fenceInv_release:
  assumes s: "fenceInv s" and p: "fsPhase s p = Holding k e" and put: "putToken e (fsReg s) = Some rg"
  shows "fenceInv \<lparr>fsReg = rg, fsPhase = (fsPhase s)(p := Leaving k e)\<rparr>"
proof (rule fenceInv_move [OF s])
  show "engaged (fsPhase s p) = Some (k, e)" by (simp add: p)
  hence "entryInv (fsReg s) (fsPhase s) k e" using fenceInvD [OF s] by blast
  moreover have "p \<in> holders (fsPhase s) k e" by (simp add: holders_iff p)
  ultimately show "if True then holders ((fsPhase s)(p := Leaving k e)) k e = {}
        else \<exists>q. holders ((fsPhase s)(p := Leaving k e)) k e = {q}"
    using put by (auto simp: putToken_def entryInv_def holders_upd split: if_splits)
qed (use put in \<open>auto simp: putToken_def split: if_splits\<close>)

lemma fenceInv_cancel:
  assumes s: "fenceInv s" and p: "fsPhase s p = Waiting k e"
  shows "fenceInv \<lparr>fsReg = fsReg s, fsPhase = (fsPhase s)(p := Leaving k e)\<rparr>"
proof (rule fenceInv_move [OF s])
  show "engaged (fsPhase s p) = Some (k, e)" by (simp add: p)
  hence "entryInv (fsReg s) (fsPhase s) k e" using fenceInvD [OF s] by blast
  moreover have "p \<notin> holders (fsPhase s) k e" by (simp add: holders_iff p)
  ultimately show "if rgToken (fsReg s) e then holders ((fsPhase s)(p := Leaving k e)) k e = {}
        else \<exists>q. holders ((fsPhase s)(p := Leaving k e)) k e = {q}"
    by (auto simp: entryInv_def holders_upd)
qed simp_all

lemma fenceInv_leave:
  assumes s: "fenceInv s" and p: "fsPhase s p = Leaving k e"
  shows "fenceInv \<lparr>fsReg = releaseReference k e (fsReg s), fsPhase = (fsPhase s)(p := Idle)\<rparr>"
proof -
  note D = fenceInvD [OF s]
  have k: "rgEntries (fsReg s) k = Some e"
    using D(1) [of p] p by simp
  note inv = D(2) [OF k, unfolded entryInv_def]
  have u: "p \<in> users (fsPhase s) k e" and h: "p \<notin> holders (fsPhase s) k e"
    by (simp_all add: users_iff holders_iff p)
  let ?rest = "users (fsPhase s) k e - {p}"
  have card: "card (users (fsPhase s) k e) = Suc (card ?rest)"
    using inv u card_Suc_Diff1 by metis
  show ?thesis
  proof (rule fenceInv_update_entry [OF s k])
    show "rgEntries (releaseReference k e (fsReg s)) k = Some e
            \<and> entryInv (releaseReference k e (fsReg s)) ((fsPhase s)(p := Idle)) k e
          \<or> rgEntries (releaseReference k e (fsReg s)) k = None \<and> users ((fsPhase s)(p := Idle)) k e = {}"
      using inv k h card by (auto simp: releaseReference_def Let_def entryInv_def users_upd holders_upd)
  qed (use k p in \<open>simp_all add: releaseReference_def Let_def\<close>)
qed

lemma fenceInv_step: "fenceStep s t \<Longrightarrow> fenceInv s \<Longrightarrow> fenceInv t"
  by (erule fenceStepE)
     (simp_all add: fenceInv_enter fenceInv_take fenceInv_cancel fenceInv_release fenceInv_leave)

lemma fenceInv_init: "fenceInv initFences"
  by (simp add: fenceInv_def initFences_def newRouterFenceRegistry_def)

lemma fenceReach_inv: "fenceReach s \<Longrightarrow> fenceInv s"
  by (induction rule: fenceReach.induct) (auto intro: fenceInv_init fenceInv_step)

section \<open>What the fences guarantee\<close>

lemma fence_held:
  assumes "fenceReach s" and p: "fsPhase s p = Holding k e"
  shows "rgEntries (fsReg s) k = Some e" and "\<not> rgToken (fsReg s) e" and "holders (fsPhase s) k e = {p}"
proof -
  have s: "fenceInv s" using assms(1) by (rule fenceReach_inv)
  show k: "rgEntries (fsReg s) k = Some e"
    using fenceInvD(1) [OF s, of p] p by simp
  have "p \<in> holders (fsPhase s) k e" by (simp add: holders_iff p)
  with fenceInvD(2) [OF s k] show "\<not> rgToken (fsReg s) e" "holders (fsPhase s) k e = {p}"
    by (auto simp: entryInv_def split: if_splits)
qed

text \<open>C16. At most one reconciler of the process is inside the fence of a key, whatever the
  interleaving of the acquisitions, cancellations and releases.\<close>

theorem fence_mutual_exclusion:
  assumes "fenceReach s" and "fsPhase s p = Holding k e" and "fsPhase s q = Holding k e'"
  shows "p = q"
proof -
  have "e' = e"
    using fence_held(1) [OF assms(1,2)] fence_held(1) [OF assms(1,3)] by simp
  thus ?thesis
    using fence_held(3) [OF assms(1,2)] assms(3) holders_iff [of q "fsPhase s" k e] by simp
qed

text \<open>C17. The fences do not deadlock: giving the token back never waits, and a reconciler that waits
  for a key nobody is inside of can enter at once.\<close>

theorem fence_progress:
  assumes "fenceReach s"
  shows "(fsPhase s p = Holding k e \<longrightarrow> (\<exists>rg. putToken e (fsReg s) = Some rg)) \<and>
         (fsPhase s p = Waiting k e \<and> (\<forall>q e'. fsPhase s q \<noteq> Holding k e') \<longrightarrow>
            (\<exists>t. fenceStep s t \<and> fsPhase t p = Holding k e))"
proof (intro conjI impI)
  show "fsPhase s p = Holding k e \<Longrightarrow> \<exists>rg. putToken e (fsReg s) = Some rg"
    using fence_held(2) [OF assms] by (simp add: putToken_def)
next
  have s: "fenceInv s" using assms by (rule fenceReach_inv)
  assume "fsPhase s p = Waiting k e \<and> (\<forall>q e'. fsPhase s q \<noteq> Holding k e')"
  hence p: "fsPhase s p = Waiting k e" and free: "\<forall>q e'. fsPhase s q \<noteq> Holding k e'"
    by simp_all
  have "holders (fsPhase s) k e = {}"
    using free by (simp add: holders_def)
  moreover have "rgEntries (fsReg s) k = Some e"
    using fenceInvD(1) [OF s, of p] p by simp
  ultimately have "rgToken (fsReg s) e"
    using fenceInvD(2) [OF s, of k e] by (auto simp: entryInv_def split: if_splits)
  hence "takeToken e (fsReg s) = Some ((fsReg s)\<lparr>rgToken := (rgToken (fsReg s))(e := False)\<rparr>)"
    by (simp add: takeToken_def)
  from fenceStep.take [OF p this] show "\<exists>t. fenceStep s t \<and> fsPhase t p = Holding k e"
    by force
qed

text \<open>C18. The registry keeps an entry for exactly the keys somebody uses: a cancelled wait leaks
  none, and the registry is empty once all reconcilers are out.\<close>

theorem fence_entries_exact:
  assumes "fenceReach s"
  shows "rgEntries (fsReg s) k \<noteq> None \<longleftrightarrow> (\<exists>p e. engaged (fsPhase s p) = Some (k, e))"
proof
  have s: "fenceInv s" using assms by (rule fenceReach_inv)
  { assume "rgEntries (fsReg s) k \<noteq> None"
    then obtain e where k: "rgEntries (fsReg s) k = Some e" by blast
    have "users (fsPhase s) k e \<noteq> {}"
      using fenceInvD(2) [OF s k] by (simp add: entryInv_def)
    thus "\<exists>p e. engaged (fsPhase s p) = Some (k, e)" by (auto simp: users_iff) }
  { assume "\<exists>p e. engaged (fsPhase s p) = Some (k, e)"
    thus "rgEntries (fsReg s) k \<noteq> None"
      using fenceInvD(1) [OF s] by blast }
qed

section \<open>A run\<close>

text \<open>Reconciler 0 enters the fence of a key and takes its token; reconciler 1 waits for it; then 0
  leaves.\<close>

definition runKey :: nsname where
  "runKey = mkName ''default'' ''home''"

definition runRegistry :: "bool \<Rightarrow> int \<Rightarrow> registry" where
  "runRegistry token refs =
     \<lparr>rgEntries = (\<lambda>_. None)(runKey := Some 0), rgToken = (\<lambda>_. False)(0 := token),
      rgRefs = (\<lambda>_. 0)(0 := refs), rgNext = 1\<rparr>"

definition runFences :: "bool \<Rightarrow> int \<Rightarrow> phase \<Rightarrow> phase \<Rightarrow> nat fences" where
  "runFences token refs a b =
     \<lparr>fsReg = runRegistry token refs, fsPhase = (\<lambda>_. Idle)(0 := a, 1 := b)\<rparr>"

lemma reach_to: "fenceReach s \<Longrightarrow> fenceStep s t' \<Longrightarrow> t = t' \<Longrightarrow> fenceReach t"
  by (simp add: fenceReach.step)

lemmas run_defs = initFences_def newRouterFenceRegistry_def enterFence_def takeToken_def putToken_def
  runFences_def runRegistry_def fun_eq_iff

lemma run_held: "fenceReach (runFences False 2 (Holding runKey 0) (Waiting runKey 0))"
proof -
  have "fenceReach (runFences True 1 (Waiting runKey 0) Idle)"
    by (rule reach_to [OF fenceReach.init fenceStep.enter [of _ 0 runKey 0 "runRegistry True 1"]])
       (simp_all add: run_defs)
  hence "fenceReach (runFences False 1 (Holding runKey 0) Idle)"
    by (rule reach_to [OF _ fenceStep.take [of _ 0 runKey 0 "runRegistry False 1"]])
       (simp_all add: run_defs)
  thus ?thesis
    by (rule reach_to [OF _ fenceStep.enter [of _ 1 runKey 0 "runRegistry False 2"]])
       (simp_all add: run_defs)
qed

lemma run_released: "fenceReach (runFences True 2 (Leaving runKey 0) (Waiting runKey 0))"
  by (rule reach_to [OF run_held fenceStep.release [of _ 0 runKey 0 "runRegistry True 2"]])
     (simp_all add: run_defs)

theorem fence_mutual_exclusion_witness:
  "(0::nat) = 0 \<and> fsPhase (runFences False 2 (Holding runKey 0) (Waiting runKey 0)) 0 = Holding runKey 0"
  using fence_mutual_exclusion [OF run_held, of 0 runKey 0 0 0] by (simp add: runFences_def)

theorem fence_progress_witness:
  "\<exists>t. fenceStep (runFences True 2 (Leaving runKey 0) (Waiting runKey 0)) t \<and> fsPhase t 1 = Holding runKey 0"
  using fence_progress [OF run_released, of 1 runKey 0] by (simp add: runFences_def)

theorem fence_entries_exact_witness:
  "rgEntries (fsReg (runFences True 2 (Leaving runKey 0) (Waiting runKey 0))) runKey \<noteq> None \<and>
   (\<exists>p e. engaged (fsPhase (runFences True 2 (Leaving runKey 0) (Waiting runKey 0)) p) = Some (runKey, e))"
  using fence_entries_exact [OF run_released, of runKey] by (simp add: runFences_def runRegistry_def)

end
