(* ===== verification/Forward_Children.thy ===== *)
theory Forward_Children
  imports Child_Reconcile "HOL-Library.AList"
begin

text \<open>
  Port forwards generated from the ports of services (\<^verbatim>\<open>router_controller.go\<close> lines 665 to 687,
  1211 to 1251 and 2293 to 2484): the candidates of a source, the check that no public address and
  port has two targets, and the reconciliation of the MikroTikPortForward children.
\<close>

section \<open>Requests\<close>

record forwardRequest =
  pqOwner :: ownerObj
  pqSourceName :: string
  pqNamespace :: string
  pqPublicIP :: string
  pqRouterRef :: string
  pqServices :: "service list"
  pqServicePorts :: "(nsname \<times> servicePort list) list"
  pqRequireSelectedPorts :: bool
  pqPrepared :: bool
  pqCandidates :: "forwardCandidate list"

text \<open>The request with the fields every caller sets; the others are Go's zero values.\<close>

definition sourceRequest :: "ownerObj \<Rightarrow> string \<Rightarrow> string \<Rightarrow> forwardRequest" where
  "sourceRequest owner sourceName namespace =
     \<lparr>pqOwner = owner, pqSourceName = sourceName, pqNamespace = namespace, pqPublicIP = [], pqRouterRef = [],
      pqServices = [], pqServicePorts = [], pqRequireSelectedPorts = False, pqPrepared = False, pqCandidates = []\<rparr>"

definition appendUniqueService :: "service list \<Rightarrow> service \<Rightarrow> service list" where
  "appendUniqueService services s =
     (if list_ex (\<lambda>e. omNamespace (svMeta e) = omNamespace (svMeta s) \<and> omName (svMeta e) = omName (svMeta s)) services
      then services else services @ [s])"

definition appendUniqueServicePort :: "servicePort list \<Rightarrow> servicePort \<Rightarrow> servicePort list" where
  "appendUniqueServicePort ports p =
     (if list_ex (\<lambda>e. spName e = spName p \<and> spPort e = spPort p \<and> spProtocol e = spProtocol p) ports
      then ports else ports @ [p])"

definition findServicePort :: "service \<Rightarrow> int \<Rightarrow> servicePort option" where
  "findServicePort s port = find (\<lambda>c. spPort c = port) (svPorts s)"

definition hasClusterIP :: "service \<Rightarrow> bool" where
  "hasClusterIP s \<longleftrightarrow> svClusterIP s \<noteq> [] \<and> svClusterIP s \<noteq> ClusterIPNone"

section \<open>Candidates\<close>

text \<open>What the loops of \<^verbatim>\<open>preparePortForwardReconcileRequest\<close> carry: the target of each public
  match, the keys of the candidates so far, and the candidates.\<close>

record prepState =
  prMatches :: "(string \<times> nsname \<times> string \<times> int) list"
  prSeen :: "string list"
  prCandidates :: "forwardCandidate list"

definition portProtocol :: "servicePort \<Rightarrow> string" where
  "portProtocol p = (let protocol = toLower (spProtocol p) in if protocol = [] then ''tcp'' else protocol)"

definition portTarget :: "service \<Rightarrow> servicePort \<Rightarrow> int" where
  "portTarget s p = (if svType s = ServiceTypeNodePort then spNodePort p else spPort p)"

definition matchKey :: "string \<Rightarrow> string \<Rightarrow> int \<Rightarrow> string" where
  "matchKey ip protocol port = joinWith ''|'' [ip, protocol, itoa port]"

definition forwardName :: "forwardRequest \<Rightarrow> service \<Rightarrow> string \<Rightarrow> int \<Rightarrow> string" where
  "forwardName req s protocol port =
     ''pf-'' @ shortHash (pqNamespace req @ ''/'' @ pqSourceName req @ ''/'' @ omNamespace (svMeta s) @ ''/''
                         @ omName (svMeta s) @ ''/'' @ itoa port @ ''/'' @ protocol)"

definition candidateKey :: "forwardCandidate \<Rightarrow> string" where
  "candidateKey c = joinWith ''|'' [fcName c, nsString (fcService c), fcProtocol c, itoa (fcExternalPort c),
     fcTargetAddress c, itoa (fcTargetPort c)]"

definition portCandidate :: "forwardRequest \<Rightarrow> service \<Rightarrow> string \<Rightarrow> servicePort \<Rightarrow> forwardCandidate" where
  "portCandidate req s address p =
     \<lparr>fcName = forwardName req s (portProtocol p) (spPort p), fcService = metaKey (svMeta s),
      fcProtocol = portProtocol p, fcExternalPort = spPort p, fcTargetAddress = address, fcTargetPort = portTarget s p\<rparr>"

definition noNodePortErr :: "service \<Rightarrow> servicePort \<Rightarrow> goerr" where
  "noNodePortErr s p = Opaque (''service '' @ omNamespace (svMeta s) @ ''/'' @ omName (svMeta s)
     @ '' has no NodePort for port '' @ itoa (spPort p))"

definition ambiguousErr :: "forwardRequest \<Rightarrow> string \<Rightarrow> servicePort \<Rightarrow> nsname \<Rightarrow> nsname \<Rightarrow> goerr" where
  "ambiguousErr req ip p previous key = sentinelErr ErrGeneratedChildAmbiguity
     (pqSourceName req @ '' public match '' @ ip @ '':'' @ itoa (spPort p) @ ''/'' @ portProtocol p
      @ '' targets both Service '' @ nsString previous @ '' and Service '' @ nsString key)"

text \<open>One port of a service.\<close>

definition addPort ::
  "forwardRequest \<Rightarrow> string \<Rightarrow> service \<Rightarrow> string \<Rightarrow> servicePort \<Rightarrow> prepState \<Rightarrow> goerr + prepState" where
  "addPort req ip s address p st =
     (if portProtocol p \<noteq> ''tcp'' \<and> portProtocol p \<noteq> ''udp'' then Inr st
      else if portTarget s p = 0 then Inl (noNodePortErr s p)
      else let k = matchKey ip (portProtocol p) (spPort p);
               target = (metaKey (svMeta s), address, portTarget s p);
               c = portCandidate req s address p;
               add = (let st = st\<lparr>prMatches := AList.update k target (prMatches st)\<rparr> in
                      if candidateKey c \<in> set (prSeen st) then st
                      else st\<lparr>prSeen := candidateKey c # prSeen st, prCandidates := prCandidates st @ [c]\<rparr>)
           in case map_of (prMatches st) k of
                Some previous \<Rightarrow>
                  (if previous \<noteq> target then Inl (ambiguousErr req ip p (fst previous) (metaKey (svMeta s))) else Inr add)
              | None \<Rightarrow> Inr add)"

fun addPorts ::
  "forwardRequest \<Rightarrow> string \<Rightarrow> service \<Rightarrow> string \<Rightarrow> servicePort list \<Rightarrow> prepState \<Rightarrow> goerr + prepState" where
  "addPorts req ip s address [] st = Inr st"
| "addPorts req ip s address (p # ps) st =
     (case addPort req ip s address p st of Inl e \<Rightarrow> Inl e | Inr st' \<Rightarrow> addPorts req ip s address ps st')"

text \<open>The ports of a service that are forwarded: the selected ones, or all of them.\<close>

definition forwardedPorts :: "forwardRequest \<Rightarrow> service \<Rightarrow> servicePort list option" where
  "forwardedPorts req s =
     (case map_of (pqServicePorts req) (metaKey (svMeta s)) of
        Some selected \<Rightarrow> Some selected
      | None \<Rightarrow> if pqRequireSelectedPorts req then None else Some (svPorts s))"

definition forwardAddress :: "'w env \<Rightarrow> service \<Rightarrow> ('w, string) prog" where
  "forwardAddress env s = (if svType s = ServiceTypeNodePort then serviceAddress env s else returnE [])"

definition liftSum :: "goerr + 'a \<Rightarrow> ('w, 'a) prog" where
  "liftSum r = (case r of Inl e \<Rightarrow> failE e | Inr x \<Rightarrow> returnE x)"

fun addServices ::
  "'w env \<Rightarrow> forwardRequest \<Rightarrow> string \<Rightarrow> service list \<Rightarrow> prepState \<Rightarrow> ('w, prepState) prog" where
  "addServices env req ip [] st = returnE st"
| "addServices env req ip (s # ss) st =
     (if \<not> hasClusterIP s then addServices env req ip ss st
      else case forwardedPorts req s of
        None \<Rightarrow> addServices env req ip ss st
      | Some ports \<Rightarrow>
          bindE (forwardAddress env s) (\<lambda>address.
          bindE (liftSum (addPorts req ip s address ports st)) (\<lambda>st'.
            addServices env req ip ss st')))"

definition notAnAddressErr :: "string \<Rightarrow> goerr" where
  "notAnAddressErr value =
     Opaque (PublicIPAnnotation @ '' annotation value '' @ goQuote value @ '' is not an IP address'')"

definition preparePortForwardReconcileRequest ::
  "'w env \<Rightarrow> forwardRequest \<Rightarrow> ('w, forwardRequest) prog" where
  "preparePortForwardReconcileRequest env req0 =
     (if pqPrepared req0 then returnE req0
      else let req = req0\<lparr>pqPrepared := True\<rparr> in
        if pqPublicIP req = [] then returnE req
        else case parseIP (pqPublicIP req) of
          None \<Rightarrow> failE (notAnAddressErr (pqPublicIP req))
        | Some ip \<Rightarrow>
            bindE (if pqRouterRef req = []
                   then bindE (resolveRouterReference env (pqNamespace req) []) (\<lambda>resolved.
                          returnE (req\<lparr>pqRouterRef := routerRefStorage (pqNamespace req) resolved\<rparr>))
                   else returnE req) (\<lambda>req.
              bindE (addServices env req (ipString ip) (pqServices req)
                       \<lparr>prMatches = [], prSeen = [], prCandidates = pqCandidates req\<rparr>) (\<lambda>st.
                returnE (req\<lparr>pqCandidates := prCandidates st\<rparr>))))"

section \<open>Children\<close>

definition forwardSourceLabel :: string where
  "forwardSourceLabel = ''mikrotik.operator.io/port-forward-source''"

definition emptyForwardStatus :: portForwardStatus where
  "emptyForwardStatus = \<lparr>ptApplied = False, ptRouterID = [], ptRouterRef = [], ptTargetAddress = [],
     ptExternalAddress = [], ptConditions = []\<rparr>"

definition childSpec :: "forwardRequest \<Rightarrow> forwardCandidate \<Rightarrow> portForwardSpec" where
  "childSpec req c =
     \<lparr>psRouterRef = pqRouterRef req, psProtocol = fcProtocol c, psExternalPort = fcExternalPort c,
      psServiceRef = Some (fcService c), psPodRef = None, psTargetPort = fcTargetPort c,
      psTargetAddress = fcTargetAddress c, psDestinationAddress = pqPublicIP req\<rparr>"

definition newForwardChild :: "'w env \<Rightarrow> forwardRequest \<Rightarrow> forwardCandidate \<Rightarrow> goerr + portForward" where
  "newForwardChild env req c =
     (let m = (newMeta (pqNamespace req) (fcName c))
                \<lparr>omLabels := [(forwardSourceLabel,
                   shortHash (omNamespace (ooMeta (pqOwner req)) @ ''/'' @ pqSourceName req))],
                 omAnnotations := [(PublicIPAnnotation, pqPublicIP req)]\<rparr>
      in case kSetOwner env (kindName (ooKind (pqOwner req))) (ooMeta (pqOwner req)) m of
           Inl e \<Rightarrow> Inl e
         | Inr m' \<Rightarrow> Inr \<lparr>pfMeta = m', pfSpecOf = childSpec req c, pfStatusOf = emptyForwardStatus\<rparr>)"

text \<open>The child is as wanted; the pod reference is left alone.\<close>

definition forwardCurrent :: "forwardRequest \<Rightarrow> forwardCandidate \<Rightarrow> portForward \<Rightarrow> bool" where
  "forwardCurrent req c f \<longleftrightarrow>
     pfSpecOf f = (childSpec req c)\<lparr>psPodRef := psPodRef (pfSpecOf f)\<rparr> \<and>
     mget (omAnnotations (pfMeta f)) PublicIPAnnotation = pqPublicIP req"

definition updatedForwardChild :: "forwardRequest \<Rightarrow> forwardCandidate \<Rightarrow> portForward \<Rightarrow> portForward" where
  "updatedForwardChild req c f =
     f\<lparr>pfSpecOf := (childSpec req c)\<lparr>psPodRef := psPodRef (pfSpecOf f)\<rparr>,
       pfMeta := (pfMeta f)\<lparr>omAnnotations := mput PublicIPAnnotation (pqPublicIP req) (omAnnotations (pfMeta f))\<rparr>\<rparr>"

definition notOwnedErr :: "string \<Rightarrow> objectMeta \<Rightarrow> ownerObj \<Rightarrow> goerr" where
  "notOwnedErr what m owner =
     Opaque (what @ '' '' @ omNamespace m @ ''/'' @ omName m @ '' already exists and is not owned by ''
             @ ooTypeKind owner @ '' '' @ omNamespace (ooMeta owner) @ ''/'' @ omName (ooMeta owner))"

definition applyForward :: "'w env \<Rightarrow> forwardRequest \<Rightarrow> forwardCandidate \<Rightarrow> ('w, unit) prog" where
  "applyForward env req c =
     tryE (stGet (kForwards env) (mkName (pqNamespace req) (fcName c))) (\<lambda>x. case x of
       Inl err \<Rightarrow>
         (if isNotFound err then
            bindE (liftSum (newForwardChild env req c)) (\<lambda>f.
              tryE (stCreate (kForwards env) f) (\<lambda>y. case y of
                Inl e \<Rightarrow> (if isAlreadyExists e then returnE () else failE e)
              | Inr _ \<Rightarrow> returnE ()))
          else failE err)
     | Inr f \<Rightarrow>
         (if \<not> isControlledBy (pfMeta f) (ooMeta (pqOwner req))
          then failE (notOwnedErr ''port forward'' (pfMeta f) (pqOwner req))
          else if forwardCurrent req c f then returnE ()
          else voidE (stUpdate (kForwards env) (updatedForwardChild req c f))))"

definition reconcileServicePortForwards :: "'w env \<Rightarrow> forwardRequest \<Rightarrow> ('w, unit) prog" where
  "reconcileServicePortForwards env req0 =
     bindE (preparePortForwardReconcileRequest env req0) (\<lambda>req.
     bindE (stList (kForwards env) (pqNamespace req)) (\<lambda>existing.
     bindE (forE (applyForward env req) (pqCandidates req)) (\<lambda>_.
       forE (\<lambda>f. if omName (pfMeta f) \<notin> fcName ` set (pqCandidates req)
                    \<and> isControlledBy (pfMeta f) (ooMeta (pqOwner req))
                 then deleteIgnoringMissing (kForwards env) f else returnE ()) existing)))"

section \<open>Giving up all children\<close>

definition deleteControlled ::
  "('w, 'o) store \<Rightarrow> ('o \<Rightarrow> objectMeta) \<Rightarrow> ownerObj \<Rightarrow> ('w, unit) prog" where
  "deleteControlled st meta owner =
     bindE (stList st (omNamespace (ooMeta owner))) (\<lambda>os.
       forE (\<lambda>o'. if \<not> isControlledBy (meta o') (ooMeta owner) then returnE ()
                  else deleteIgnoringMissing st o') os)"

definition cleanupOwnedChildren :: "'w env \<Rightarrow> ownerObj \<Rightarrow> string \<Rightarrow> ('w, unit) prog" where
  "cleanupOwnedChildren env owner sourceName =
     bindE (deleteControlled (kDNS env) dnsMeta owner) (\<lambda>_.
     bindE (deleteControlled (kRoutes env) routeMeta owner) (\<lambda>_.
       reconcileServicePortForwards env (sourceRequest owner sourceName (omNamespace (ooMeta owner)))))"

text \<open>The error to return: the cause, with the error of the cleanup if it failed.\<close>

definition cleanupAmbiguousGeneratedChildren ::
  "'w env \<Rightarrow> ownerObj \<Rightarrow> string \<Rightarrow> goerr \<Rightarrow> ('w, 'a) prog" where
  "cleanupAmbiguousGeneratedChildren env owner sourceName cause =
     tryE (cleanupOwnedChildren env owner sourceName) (\<lambda>x. case x of
       Inl e \<Rightarrow> failE (Joined [cause, e]) | Inr _ \<Rightarrow> failE (Joined [cause]))"

end
