(* ===== verification/Service_Translate.thy ===== *)
theory Service_Translate
  imports Forward_Children
begin

text \<open>
  The reconciler of Services (\<^verbatim>\<open>router_controller.go\<close> lines 689 to 967 and 2486 to 2530): from the
  annotations of a Service to its DNS record, port forwards and routes.
\<close>

definition serviceOwner :: "service \<Rightarrow> ownerObj" where
  "serviceOwner s = \<lparr>ooKind = OwnService, ooTypeKind = [], ooMeta = svMeta s\<rparr>"

definition serviceSource :: "service \<Rightarrow> string" where
  "serviceSource s = ''service/'' @ omName (svMeta s)"

definition serviceRecordName :: "service \<Rightarrow> string" where
  "serviceRecordName s = take 63 (omName (svMeta s) @ ''-dns'')"

section \<open>Routes of a service\<close>

definition ownedClusterRouteRequest :: "service \<Rightarrow> string \<Rightarrow> service list \<Rightarrow> clusterRouteRequest" where
  "ownedClusterRouteRequest s routerRef services =
     \<lparr>crOwner = serviceOwner s, crSourceName = serviceSource s, crNamespace = omNamespace (svMeta s),
      crRouterRef = routerRef, crServices = services\<rparr>"

definition reconcileServiceClusterRoutes :: "'w env \<Rightarrow> service \<Rightarrow> string \<Rightarrow> ('w, unit) prog" where
  "reconcileServiceClusterRoutes env s routerRef =
     reconcileOwnedClusterRoutes env
       (ownedClusterRouteRequest s routerRef (if serviceWantsClusterRoute s then [s] else []))"

definition deleteOwnedServiceClusterRoutes :: "'w env \<Rightarrow> service \<Rightarrow> ('w, unit) prog" where
  "deleteOwnedServiceClusterRoutes env s =
     reconcileOwnedClusterRoutes env (ownedClusterRouteRequest s [] [])"

definition cleanupDeletedServiceRoutes :: "'w env \<Rightarrow> nsname \<Rightarrow> ('w, unit) prog" where
  "cleanupDeletedServiceRoutes env key =
     deleteLabeledClusterRoutes env (nsNamespace key) (''service/'' @ nsName key)"

section \<open>The routers a service had routes on\<close>

definition serviceRouteRouterRefs :: "service \<Rightarrow> dnsRecord option \<Rightarrow> string list" where
  "serviceRouteRouterRefs s record =
     firstOccs {} (filter (\<lambda>r. r \<noteq> [])
       (splitOn CHR '','' (mget (omAnnotations (svMeta s)) serviceRouteRouterAnnotation)
        @ (case record of None \<Rightarrow> [] | Some r \<Rightarrow> [dtRouterRef (dnsStatusOf r), dsRouterRef (dnsSpecOf r)])))"

definition putServiceAnnotations :: "'w env \<Rightarrow> service \<Rightarrow> strmap \<Rightarrow> ('w, unit) prog" where
  "putServiceAnnotations env s annotations =
     voidE (stUpdate (kServices env) (s\<lparr>svMeta := (svMeta s)\<lparr>omAnnotations := annotations\<rparr>\<rparr>))"

definition persistServiceRouteRouterTarget :: "'w env \<Rightarrow> service \<Rightarrow> string \<Rightarrow> ('w, bool) prog" where
  "persistServiceRouteRouterTarget env s routerRef =
     (let refs = serviceRouteRouterRefs s None in
      if routerRef \<in> set refs then returnE False
      else bindE (putServiceAnnotations env s
                    (mput serviceRouteRouterAnnotation (joinWith '','' (sort (refs @ [routerRef])))
                      (omAnnotations (svMeta s))))
             (\<lambda>_. returnE True))"

definition compactServiceRouteRouterTarget :: "'w env \<Rightarrow> service \<Rightarrow> string \<Rightarrow> ('w, bool) prog" where
  "compactServiceRouteRouterTarget env s routerRef =
     (let annotations = omAnnotations (svMeta s) in
      if routerRef = [] then
        (if map_of annotations serviceRouteRouterAnnotation = None then returnE False
         else bindE (putServiceAnnotations env s (mdel serviceRouteRouterAnnotation annotations)) (\<lambda>_. returnE True))
      else if mget annotations serviceRouteRouterAnnotation = routerRef then returnE False
      else bindE (putServiceAnnotations env s (mput serviceRouteRouterAnnotation routerRef annotations)) (\<lambda>_. returnE True))"

text \<open>The service without the finalizer and the annotation of its routes.\<close>

definition withoutRouteFinalizer :: "service \<Rightarrow> service" where
  "withoutRouteFinalizer s =
     s\<lparr>svMeta := (removeFinalizer serviceRouteFinalizer (svMeta s))
         \<lparr>omAnnotations := mdel serviceRouteRouterAnnotation (omAnnotations (svMeta s))\<rparr>\<rparr>"

definition releaseService :: "'w env \<Rightarrow> service \<Rightarrow> ('w, result) prog" where
  "releaseService env s =
     (if containsFinalizer (svMeta s) serviceRouteFinalizer
      then thenReturn (voidE (stUpdate (kServices env) (withoutRouteFinalizer s))) noRequeue
      else thenReturn (voidE (compactServiceRouteRouterTarget env s [])) noRequeue)"

section \<open>Deletion and cleanup\<close>

definition outcome :: "('w, unit) prog \<Rightarrow> ('w, goerr option) prog" where
  "outcome m = tryE m (\<lambda>x. returnE (case x of Inl e \<Rightarrow> Some e | Inr _ \<Rightarrow> None))"

definition failIf :: "goerr option \<Rightarrow> ('w, result) prog" where
  "failIf e = (case e of None \<Rightarrow> returnE noRequeue | Some err \<Rightarrow> failE err)"

definition reconcileServiceDeletion :: "'w env \<Rightarrow> service \<Rightarrow> ('w, result) prog" where
  "reconcileServiceDeletion env s =
     bindE (outcome (deleteOwnedServiceClusterRoutes env s)) (\<lambda>routeErr.
       if \<not> containsFinalizer (svMeta s) serviceRouteFinalizer then failIf routeErr
       else tryE (stUpdate (kServices env) (withoutRouteFinalizer s)) (\<lambda>x. case x of
              Inl err \<Rightarrow> failIf (errorsJoin [routeErr, Some err])
            | Inr _ \<Rightarrow> failIf routeErr))"

definition deleteServiceRecord :: "'w env \<Rightarrow> service \<Rightarrow> ('w, unit) prog" where
  "deleteServiceRecord env s =
     tryE (stGet (kDNS env) (mkName (omNamespace (svMeta s)) (serviceRecordName s))) (\<lambda>x. case x of
       Inl err \<Rightarrow> (if isNotFound err then returnE () else failE err)
     | Inr record \<Rightarrow>
         (if isControlledBy (dnsMeta record) (svMeta s) then deleteIgnoringMissing (kDNS env) record
          else returnE ()))"

text \<open>The error that is returned: the cause and whatever went wrong while cleaning up.\<close>

definition cleanupGeneratedChildren :: "'w env \<Rightarrow> service \<Rightarrow> goerr \<Rightarrow> ('w, 'a) prog" where
  "cleanupGeneratedChildren env s cause =
     bindE (outcome (deleteServiceRecord env s)) (\<lambda>e1.
     bindE (outcome (reconcileServicePortForwards env
                       (sourceRequest (serviceOwner s) (serviceSource s) (omNamespace (svMeta s))))) (\<lambda>e2.
     bindE (outcome (deleteOwnedServiceClusterRoutes env s)) (\<lambda>e3.
       failE (case errorsJoin [Some cause, e1, e2, e3] of None \<Rightarrow> cause | Some e \<Rightarrow> e))))"

section \<open>Reconcile\<close>

definition resolveRouterRef :: "'w env \<Rightarrow> service \<Rightarrow> ('w, nsname) prog" where
  "resolveRouterRef env s =
     tryE (resolveRouterReference env (omNamespace (svMeta s)) (mget (omAnnotations (svMeta s)) RouterRefAnnotation))
       (\<lambda>x. case x of
          Inr key \<Rightarrow> returnE key
        | Inl err \<Rightarrow>
            (if errorsIs err ErrImplicitRouterSelection
             then failE (Wrapped (''service '' @ omNamespace (svMeta s) @ ''/'' @ omName (svMeta s) @ '' has ''
                    @ DNSNameAnnotation @ '': '' @ errorText err @ ''; set '' @ RouterRefAnnotation) [err])
             else failE err))"

definition serviceRequest :: "service \<Rightarrow> forwardRequest" where
  "serviceRequest s =
     (sourceRequest (serviceOwner s) (serviceSource s) (omNamespace (svMeta s)))
       \<lparr>pqPublicIP := mget (omAnnotations (svMeta s)) PublicIPAnnotation,
        pqRouterRef := mget (omAnnotations (svMeta s)) RouterRefAnnotation,
        pqServices := [s]\<rparr>"

text \<open>An error that leaves the children without a source takes them away.\<close>

definition orCleanup :: "'w env \<Rightarrow> service \<Rightarrow> sentinel list \<Rightarrow> ('w, 'a) prog \<Rightarrow> ('a \<Rightarrow> ('w, result) prog) \<Rightarrow> ('w, result) prog" where
  "orCleanup env s sentinels m f =
     tryE m (\<lambda>x. case x of
       Inl err \<Rightarrow> (if list_ex (errorsIs err) sentinels then cleanupGeneratedChildren env s err else failE err)
     | Inr y \<Rightarrow> f y)"

text \<open>Without a DNS name: port forwards and routes only, and the record goes.\<close>

definition dropServiceRecord :: "'w env \<Rightarrow> service \<Rightarrow> ('w, result) prog" where
  "dropServiceRecord env s =
     tryE (stGet (kDNS env) (mkName (omNamespace (svMeta s)) (serviceRecordName s))) (\<lambda>x. case x of
       Inl err \<Rightarrow> (if isNotFound err then releaseService env s else failE err)
     | Inr record \<Rightarrow>
         (if isControlledBy (dnsMeta record) (svMeta s)
          then bindE (stDelete (kDNS env) record) (\<lambda>_. releaseService env s)
          else releaseService env s))"

definition reconcileUnnamed :: "'w env \<Rightarrow> service \<Rightarrow> forwardRequest \<Rightarrow> ('w, result) prog" where
  "reconcileUnnamed env s req =
     orCleanup env s [ErrGeneratedChildCollision, ErrImplicitRouterSelection]
       (acquireGeneratedChildClaims env (serviceOwner s) (pqRouterRef req) (pqPublicIP req) [] (pqCandidates req))
       (\<lambda>(resolved, release).
          deferE
            (bindE (reconcileServicePortForwards env (req\<lparr>pqRouterRef := resolved\<rparr>)) (\<lambda>_.
             bindE (reconcileServiceClusterRoutes env s resolved) (\<lambda>_.
               dropServiceRecord env s)))
            release)"

definition publishedAddress :: "'w env \<Rightarrow> service \<Rightarrow> ('w, string) prog" where
  "publishedAddress env s =
     (if svType s = ServiceTypeNodePort
      then bindE (kListNodes env) (\<lambda>nodes.
             returnE (case firstInternalIP nodes of Some a \<Rightarrow> a | None \<Rightarrow> []))
      else returnE (svClusterIP s))"

definition emptyDNSStatus :: dnsStatus where
  "emptyDNSStatus = \<lparr>dtApplied = False, dtRouterID = [], dtRouterRef = [], dtConditions = []\<rparr>"

definition recordSpec :: "string \<Rightarrow> string \<Rightarrow> string \<Rightarrow> dnsSpec" where
  "recordSpec routerRef name address =
     \<lparr>dsRouterRef = routerRef, dsName = name, dsAddress = address, dsTTL = [], dsServiceRef = None\<rparr>"

definition applyServiceRecord :: "'w env \<Rightarrow> service \<Rightarrow> string \<Rightarrow> string \<Rightarrow> string \<Rightarrow> ('w, result) prog" where
  "applyServiceRecord env s routerRef dnsName address =
     (let ns = omNamespace (svMeta s); name = serviceRecordName s in
      tryE (stGet (kDNS env) (mkName ns name)) (\<lambda>x. case x of
        Inl err \<Rightarrow>
          (if isNotFound err then
             (case kSetOwner env (kindName OwnService) (svMeta s) (newMeta ns name) of
                Inl e \<Rightarrow> failE e
              | Inr m \<Rightarrow> thenReturn (voidE (stCreate (kDNS env)
                  \<lparr>dnsMeta = m, dnsSpecOf = recordSpec routerRef dnsName address, dnsStatusOf = emptyDNSStatus\<rparr>)) noRequeue)
           else failE err)
      | Inr record \<Rightarrow>
          (if \<not> isControlledBy (dnsMeta record) (svMeta s)
           then failE (Opaque (''DNS record '' @ omNamespace (dnsMeta record) @ ''/'' @ omName (dnsMeta record)
                  @ '' already exists and is not owned by Service '' @ ns @ ''/'' @ omName (svMeta s)))
           else if dsRouterRef (dnsSpecOf record) \<noteq> routerRef \<or> dsName (dnsSpecOf record) \<noteq> dnsName
                   \<or> dsAddress (dnsSpecOf record) \<noteq> address
           then thenReturn (voidE (stUpdate (kDNS env)
                  (record\<lparr>dnsSpecOf := (dnsSpecOf record)\<lparr>dsRouterRef := routerRef, dsName := dnsName, dsAddress := address\<rparr>\<rparr>))) noRequeue
           else returnE driftCheckInterval)))"

definition reconcileNamed :: "'w env \<Rightarrow> nsname \<Rightarrow> service \<Rightarrow> string \<Rightarrow> forwardRequest \<Rightarrow> ('w, result) prog" where
  "reconcileNamed env key s dnsName req =
     bindE (resolveRouterRef env s) (\<lambda>rkey.
     bindE (publishedAddress env s) (\<lambda>address.
       if address = [] \<or> address = ClusterIPNone then returnE retryMinute
       else orCleanup env s [ErrGeneratedChildCollision, ErrImplicitRouterSelection]
         (acquireGeneratedChildClaims env (serviceOwner s) (routerRefStorage (omNamespace (svMeta s)) rkey)
            (pqPublicIP req)
            [\<lparr>dcChildName = serviceRecordName s, dcHostname = dnsName, dcService = key, dcAddress = address\<rparr>]
            (pqCandidates req))
         (\<lambda>(resolved, release).
            deferE
              (bindE (reconcileServicePortForwards env (req\<lparr>pqRouterRef := resolved\<rparr>)) (\<lambda>_.
               bindE (reconcileServiceClusterRoutes env s resolved) (\<lambda>_.
                 applyServiceRecord env s resolved dnsName address)))
              release)))"

definition reconcileService :: "'w env \<Rightarrow> nsname \<Rightarrow> service \<Rightarrow> ('w, result) prog" where
  "reconcileService env key s =
     (if isDeleting (svMeta s) then reconcileServiceDeletion env s
      else let dnsName = mget (omAnnotations (svMeta s)) DNSNameAnnotation in
        orCleanup env s [ErrGeneratedChildAmbiguity, ErrImplicitRouterSelection]
          (preparePortForwardReconcileRequest env (serviceRequest s))
          (\<lambda>req. if dnsName = [] then reconcileUnnamed env s req else reconcileNamed env key s dnsName req))"

definition ServiceReconcile :: "'w env \<Rightarrow> nsname \<Rightarrow> ('w, result) prog" where
  "ServiceReconcile env key =
     tryE (stGet (kServices env) key) (\<lambda>x. case x of
       Inl err \<Rightarrow>
         (if isNotFound err then thenReturn (cleanupDeletedServiceRoutes env key) noRequeue else failE err)
     | Inr s \<Rightarrow> reconcileService env key s)"

end
