(* ===== verification/Ingress_Translate.thy ===== *)
theory Ingress_Translate
  imports Service_Translate
begin

text \<open>
  The reconciler of Ingresses (\<^verbatim>\<open>router_controller.go\<close> lines 984 to 1285), the objects of the
  networking and gateway APIs that it and the reconciler of HTTPRoutes read, and the DNS records both
  generate.
\<close>

section \<open>Networking and gateway objects\<close>

record serviceBackend =
  sbName :: string
  sbPortName :: string
  sbPortNumber :: int

record ingressRule =
  irHost :: string
  irPaths :: "serviceBackend option list option"

record ingress =
  igMeta :: objectMeta
  igClassName :: "string option"
  igRules :: "ingressRule list"

record httpBackend =
  hbGroup :: "string option"
  hbKind :: "string option"
  hbName :: string
  hbNamespace :: "string option"
  hbPort :: "int option"

record parentRef =
  paGroup :: "string option"
  paKind :: "string option"
  paName :: string
  paNamespace :: "string option"
  paSectionName :: "string option"
  paPort :: "int option"

record httpRoute =
  hrMeta :: objectMeta
  hrParents :: "parentRef list"
  hrHostnames :: "string list"
  hrRules :: "httpBackend list list"

record labelSelector =
  lsMatchLabels :: strmap
  lsMatchExpressions :: "(string \<times> string \<times> string list) list"

record routeNamespaces =
  rnFrom :: "string option"
  rnSelector :: "labelSelector option"

record allowedRoutes =
  alKinds :: "(string option \<times> string) list option"
  alNamespaces :: "routeNamespaces option"

record listener =
  liName :: string
  liHostname :: "string option"
  liPort :: int
  liProtocol :: string
  liAllowed :: "allowedRoutes option"

record gateway =
  gwMeta :: objectMeta
  gwClassName :: string
  gwListeners :: "listener list"

record referenceGrant =
  rgMeta :: objectMeta
  rgFrom :: "(string \<times> string \<times> string) list"
  rgTo :: "(string \<times> string \<times> string option) list"

text \<open>The reads of these objects.  The controller of a class is all the operator reads of it; a
  label selector is the Kubernetes library's, an error or the labels it matches.\<close>

record 'w netEnv =
  nGetIngress :: "nsname \<Rightarrow> ('w, ingress) prog"
  nListIngresses :: "string \<Rightarrow> ('w, ingress list) prog"
  nGetIngressClass :: "string \<Rightarrow> ('w, string) prog"
  nGetHTTPRoute :: "nsname \<Rightarrow> ('w, httpRoute) prog"
  nListHTTPRoutes :: "string \<Rightarrow> ('w, httpRoute list) prog"
  nGetGateway :: "nsname \<Rightarrow> ('w, gateway) prog"
  nListGateways :: "('w, gateway list) prog"
  nGetGatewayClass :: "string \<Rightarrow> ('w, string) prog"
  nListReferenceGrants :: "string \<Rightarrow> ('w, referenceGrant list) prog"
  nGetNamespaceLabels :: "string \<Rightarrow> ('w, strmap) prog"
  nSelector :: "labelSelector \<Rightarrow> goerr + (strmap \<Rightarrow> bool)"

section \<open>Generated DNS records\<close>

text \<open>A record a source wants: its name, labels and contents.  A new record and an updated one name
  their service from different variables of the code, so both are given.\<close>

record dnsChild =
  chName :: string
  chLabels :: strmap
  chHost :: string
  chAddress :: string
  chNewRef :: nsname
  chRef :: nsname

definition childCurrent :: "string \<Rightarrow> dnsChild \<Rightarrow> dnsRecord \<Rightarrow> bool" where
  "childCurrent routerRef c r \<longleftrightarrow>
     dsRouterRef (dnsSpecOf r) = routerRef \<and> dsName (dnsSpecOf r) = chHost c \<and>
     dsAddress (dnsSpecOf r) = chAddress c \<and> dsServiceRef (dnsSpecOf r) = Some (chRef c)"

definition applyDNSChild ::
  "'w env \<Rightarrow> ownerObj \<Rightarrow> (objectMeta \<Rightarrow> goerr) \<Rightarrow> string \<Rightarrow> dnsChild \<Rightarrow> ('w, unit) prog" where
  "applyDNSChild env owner notOwned routerRef c =
     (let ns = omNamespace (ooMeta owner) in
      tryE (stGet (kDNS env) (mkName ns (chName c))) (\<lambda>x. case x of
        Inl err \<Rightarrow>
          (if isNotFound err then
             bindE (liftSum (kSetOwner env (kindName (ooKind owner)) (ooMeta owner)
                       ((newMeta ns (chName c))\<lparr>omLabels := chLabels c\<rparr>))) (\<lambda>m.
               voidE (stCreate (kDNS env)
                 \<lparr>dnsMeta = m,
                  dnsSpecOf = (recordSpec routerRef (chHost c) (chAddress c))\<lparr>dsServiceRef := Some (chNewRef c)\<rparr>,
                  dnsStatusOf = emptyDNSStatus\<rparr>))
           else failE err)
      | Inr r \<Rightarrow>
          (if \<not> isControlledBy (dnsMeta r) (ooMeta owner) then failE (notOwned (dnsMeta r))
           else if childCurrent routerRef c r then returnE ()
           else voidE (stUpdate (kDNS env)
                  (r\<lparr>dnsSpecOf := (dnsSpecOf r)\<lparr>dsRouterRef := routerRef, dsName := chHost c,
                       dsAddress := chAddress c, dsServiceRef := Some (chRef c)\<rparr>\<rparr>)))))"

text \<open>The records of a source become the wanted ones: create or update these, delete the others that
  existed before.\<close>

definition reconcileDNSChildren ::
  "'w env \<Rightarrow> ownerObj \<Rightarrow> (objectMeta \<Rightarrow> goerr) \<Rightarrow> string \<Rightarrow> dnsChild list \<Rightarrow> ('w, unit) prog" where
  "reconcileDNSChildren env owner notOwned routerRef children =
     bindE (stList (kDNS env) (omNamespace (ooMeta owner))) (\<lambda>existing.
     bindE (forE (applyDNSChild env owner notOwned routerRef) children) (\<lambda>_.
       forE (\<lambda>r. if omName (dnsMeta r) \<notin> chName ` set children \<and> isControlledBy (dnsMeta r) (ooMeta owner)
                  then voidE (stDelete (kDNS env) r) else returnE ()) existing))"

section \<open>Backends of an Ingress\<close>

text \<open>The backends that name a service, each with the host of its rule, in order.\<close>

definition ingressBackends :: "ingress \<Rightarrow> (string \<times> serviceBackend) list" where
  "ingressBackends ig =
     concat (map (\<lambda>rule. case irPaths rule of
         None \<Rightarrow> []
       | Some paths \<Rightarrow> concat (map (\<lambda>p. case p of
             None \<Rightarrow> [] | Some b \<Rightarrow> if sbName b = [] then [] else [(irHost rule, b)]) paths)) (igRules ig))"

definition backendKey :: "ingress \<Rightarrow> serviceBackend \<Rightarrow> nsname" where
  "backendKey ig b = mkName (omNamespace (igMeta ig)) (sbName b)"

definition findIngressServicePort :: "service \<Rightarrow> serviceBackend \<Rightarrow> servicePort option" where
  "findIngressServicePort s b =
     find (\<lambda>c. (sbPortName b \<noteq> [] \<and> spName c = sbPortName b) \<or> (sbPortNumber b \<noteq> 0 \<and> spPort c = sbPortNumber b)) (svPorts s)"

text \<open>Each service is read once; one that does not exist is an error to report at the end.\<close>

fun observeServices ::
  "'w env \<Rightarrow> nsname list \<Rightarrow> (nsname \<times> service) list \<Rightarrow> goerr list \<Rightarrow> ('w, (nsname \<times> service) list \<times> goerr list) prog" where
  "observeServices env [] found errs = returnE (found, errs)"
| "observeServices env (k # ks) found errs =
     (if map_of found k \<noteq> None then observeServices env ks found errs
      else tryE (stGet (kServices env) k) (\<lambda>x. case x of
        Inl err \<Rightarrow> (if isNotFound err then observeServices env ks found (errs @ [err]) else failE err)
      | Inr s \<Rightarrow> observeServices env ks (found @ [(k, s)]) errs))"

definition observeIngressServices ::
  "'w env \<Rightarrow> ingress \<Rightarrow> ('w, (nsname \<times> service) list \<times> goerr list) prog" where
  "observeIngressServices env ig =
     observeServices env (map (\<lambda>(_, b). backendKey ig b) (ingressBackends ig)) [] []"

text \<open>What the first loop over the backends collects.\<close>

record selection =
  slServices :: "service list"
  slPorts :: "(nsname \<times> servicePort list) list"
  slDNS :: "dnsCandidate list"
  slErrors :: "goerr list"

definition selectPort :: "service \<Rightarrow> nsname \<Rightarrow> servicePort \<Rightarrow> dnsCandidate list \<Rightarrow> selection \<Rightarrow> selection" where
  "selectPort s key port dns sel =
     sel\<lparr>slServices := appendUniqueService (slServices sel) s,
         slDNS := slDNS sel @ dns,
         slPorts := AList.update key
            (appendUniqueServicePort (case map_of (slPorts sel) key of None \<Rightarrow> [] | Some ps \<Rightarrow> ps) port) (slPorts sel)\<rparr>"

definition ingressRecordName :: "ingress \<Rightarrow> string \<Rightarrow> string \<Rightarrow> string" where
  "ingressRecordName ig host serviceName =
     ''ing-'' @ shortHash (omName (igMeta ig) @ ''/'' @ host @ ''/'' @ serviceName)"

definition ingressPortErr :: "ingress \<Rightarrow> service \<Rightarrow> goerr" where
  "ingressPortErr ig s =
     Opaque (''ingress '' @ omNamespace (igMeta ig) @ ''/'' @ omName (igMeta ig)
             @ '' references unavailable port on Service '' @ omNamespace (svMeta s) @ ''/'' @ omName (svMeta s))"

definition selectIngressBackend ::
  "ingress \<Rightarrow> (nsname \<times> service) list \<Rightarrow> string \<times> serviceBackend \<Rightarrow> selection \<Rightarrow> selection" where
  "selectIngressBackend ig observed hb sel =
     (let (host, b) = hb in
      case map_of observed (backendKey ig b) of
        None \<Rightarrow> sel
      | Some s \<Rightarrow>
          (case findIngressServicePort s b of
             None \<Rightarrow> sel\<lparr>slErrors := slErrors sel @ [ingressPortErr ig s]\<rparr>
           | Some port \<Rightarrow> selectPort s (metaKey (svMeta s)) port
               (if host = [] then []
                else [\<lparr>dcChildName = ingressRecordName ig host (omName (svMeta s)), dcHostname = host,
                       dcService = metaKey (svMeta s), dcAddress = svClusterIP s\<rparr>]) sel))"

definition selectIngressBackends :: "ingress \<Rightarrow> (nsname \<times> service) list \<Rightarrow> goerr list \<Rightarrow> selection" where
  "selectIngressBackends ig observed errs =
     fold (selectIngressBackend ig observed) (ingressBackends ig)
       \<lparr>slServices = [], slPorts = [], slDNS = [], slErrors = errs\<rparr>"

definition ingressChildren :: "ingress \<Rightarrow> (nsname \<times> service) list \<Rightarrow> dnsChild list" where
  "ingressChildren ig observed =
     concat (map (\<lambda>(host, b).
       case map_of observed (backendKey ig b) of
         None \<Rightarrow> []
       | Some s \<Rightarrow>
           (if host = [] \<or> findIngressServicePort s b = None \<or> \<not> hasClusterIP s then []
            else [\<lparr>chName = ingressRecordName ig host (sbName b),
                   chLabels = [(''mikrotik.operator.io/ingress'', omName (igMeta ig))],
                   chHost = host, chAddress = svClusterIP s,
                   chNewRef = mkName (omNamespace (igMeta ig)) (omName (svMeta s)), chRef = metaKey (svMeta s)\<rparr>]))
       (ingressBackends ig))"

section \<open>The shared course of the two translators\<close>

text \<open>An error that leaves the children without a source takes them away.\<close>

definition orCleanupChildren ::
  "'w env \<Rightarrow> ownerObj \<Rightarrow> string \<Rightarrow> sentinel list \<Rightarrow> ('w, 'a) prog \<Rightarrow> ('a \<Rightarrow> ('w, result) prog) \<Rightarrow> ('w, result) prog" where
  "orCleanupChildren env owner sourceName sentinels m f =
     tryE m (\<lambda>x. case x of
       Inl err \<Rightarrow>
         (if list_ex (errorsIs err) sentinels then cleanupAmbiguousGeneratedChildren env owner sourceName err
          else failE err)
     | Inr y \<Rightarrow> f y)"

definition reportErrors :: "goerr list \<Rightarrow> ('w, result) prog" where
  "reportErrors errs = (if errs = [] then returnE driftCheckInterval else failE (Joined errs))"

text \<open>From the selected backends on: prepare, validate, claim, and under the claim the records, the
  port forwards and the routes.\<close>

definition reconcileSelection ::
  "'w env \<Rightarrow> ownerObj \<Rightarrow> string \<Rightarrow> string \<Rightarrow> (objectMeta \<Rightarrow> goerr) \<Rightarrow> selection \<Rightarrow> dnsChild list \<Rightarrow> ('w, result) prog" where
  "reconcileSelection env owner label sourceName notOwned sel children =
     (let ns = omNamespace (ooMeta owner);
          annotation = mget (omAnnotations (ooMeta owner));
          req0 = (sourceRequest owner sourceName ns)
            \<lparr>pqPublicIP := annotation PublicIPAnnotation, pqRouterRef := annotation RouterRefAnnotation,
             pqServices := slServices sel, pqServicePorts := slPorts sel, pqRequireSelectedPorts := True\<rparr>
      in orCleanupChildren env owner sourceName [ErrGeneratedChildAmbiguity, ErrImplicitRouterSelection]
           (preparePortForwardReconcileRequest env req0) (\<lambda>req.
         case validateGeneratedDNSCandidates (label @ '' '' @ ns @ ''/'' @ omName (ooMeta owner)) (slDNS sel) of
           Some err \<Rightarrow> cleanupAmbiguousGeneratedChildren env owner sourceName err
         | None \<Rightarrow>
             orCleanupChildren env owner sourceName [ErrGeneratedChildCollision, ErrImplicitRouterSelection]
               (acquireGeneratedChildClaims env owner (pqRouterRef req) (pqPublicIP req) (slDNS sel) (pqCandidates req))
               (\<lambda>(resolved, release).
                  deferE
                    (bindE (reconcileDNSChildren env owner notOwned resolved children) (\<lambda>_.
                     bindE (reconcileServicePortForwards env (req\<lparr>pqRouterRef := resolved\<rparr>)) (\<lambda>_.
                     bindE (reconcileOwnedClusterRoutes env
                              \<lparr>crOwner = owner, crSourceName = sourceName, crNamespace = ns,
                               crRouterRef = resolved, crServices = slServices sel\<rparr>) (\<lambda>_.
                       reportErrors (slErrors sel)))))
                    release)))"

section \<open>Reconcile\<close>

definition ingressOwner :: "ingress \<Rightarrow> ownerObj" where
  "ingressOwner ig = \<lparr>ooKind = OwnIngress, ooTypeKind = [], ooMeta = igMeta ig\<rparr>"

definition ingressSource :: "ingress \<Rightarrow> string" where
  "ingressSource ig = ''ingress/'' @ omName (igMeta ig)"

definition ingressNotOwned :: "ingress \<Rightarrow> objectMeta \<Rightarrow> goerr" where
  "ingressNotOwned ig m =
     Opaque (''DNS record '' @ omNamespace m @ ''/'' @ omName m @ '' already exists and is not owned by Ingress ''
             @ omNamespace (igMeta ig) @ ''/'' @ omName (igMeta ig))"

definition reconcileIngress :: "'w env \<Rightarrow> 'w netEnv \<Rightarrow> ingress \<Rightarrow> ('w, result) prog" where
  "reconcileIngress env net ig =
     (let giveUp = cleanupOwnedChildren env (ingressOwner ig) (ingressSource ig) in
      if igClassName ig \<noteq> Some IngressClassName then thenReturn giveUp noRequeue
      else tryE (nGetIngressClass net IngressClassName) (\<lambda>x. case x of
        Inl err \<Rightarrow>
          (if \<not> isNotFound err then failE err
           else tryE giveUp (\<lambda>y. case y of Inl ce \<Rightarrow> failE (Joined [err, ce]) | Inr _ \<Rightarrow> failE err))
      | Inr controller \<Rightarrow>
          (if controller \<noteq> IngressController then thenReturn giveUp noRequeue
           else bindE (observeIngressServices env ig) (\<lambda>(observed, errs).
             reconcileSelection env (ingressOwner ig) ''Ingress'' (ingressSource ig) (ingressNotOwned ig)
               (selectIngressBackends ig observed errs) (ingressChildren ig observed)))))"

definition IngressReconcile :: "'w env \<Rightarrow> 'w netEnv \<Rightarrow> nsname \<Rightarrow> ('w, result) prog" where
  "IngressReconcile env net key = getOrIgnore (nGetIngress net key) (reconcileIngress env net)"

definition ingressesInNamespace :: "'w netEnv \<Rightarrow> objectMeta \<Rightarrow> ('w, nsname list) prog" where
  "ingressesInNamespace net object =
     tryE (nListIngresses net (omNamespace object)) (\<lambda>x. case x of
       Inl _ \<Rightarrow> returnE [] | Inr igs \<Rightarrow> returnE (map (\<lambda>ig. metaKey (igMeta ig)) igs))"

end
