(* ===== verification/Gateway_Hostnames.thy ===== *)
theory Gateway_Hostnames
  imports Ingress_Translate
begin

text \<open>
  Which hostnames an HTTPRoute may use and which services it may name
  (\<^verbatim>\<open>router_controller.go\<close> lines 1482 to 1775): the intersection of listener and route hostnames,
  the admission of a route by the listeners of its parents, and reference grants.
\<close>

section \<open>Hostnames\<close>

definition wildcardHostnameMatches :: "string \<Rightarrow> string \<Rightarrow> bool" where
  "wildcardHostnameMatches pattern hostname =
     (let suffix = trimPrefix pattern ''*'' in
      length hostname > length suffix \<and> hasSuffix hostname suffix)"

definition canonicalHostname :: "string \<Rightarrow> string" where
  "canonicalHostname h = toLower (trimSuffix h ''.'')"

definition effectiveHostnameIntersection :: "string \<Rightarrow> string \<Rightarrow> string option" where
  "effectiveHostnameIntersection a0 b0 =
     (let a = canonicalHostname a0; b = canonicalHostname b0;
          aWildcard = hasPrefix a ''*.''; bWildcard = hasPrefix b ''*.''
      in if a = b then Some a
         else if aWildcard \<and> bWildcard then
           (let aSuffix = trimPrefix a ''*''; bSuffix = trimPrefix b ''*'' in
            if hasSuffix aSuffix bSuffix then Some a
            else if hasSuffix bSuffix aSuffix then Some b
            else None)
         else if aWildcard \<and> wildcardHostnameMatches a b then Some b
         else if bWildcard \<and> wildcardHostnameMatches b a then Some a
         else None)"

definition acceptedRouteHostnames :: "string option \<Rightarrow> string list \<Rightarrow> string list" where
  "acceptedRouteHostnames listener hostnames =
     (case listener of
        None \<Rightarrow> hostnames
      | Some l \<Rightarrow>
          (if l = [] then hostnames
           else if hostnames = [] then [l]
           else concat (map (\<lambda>h. case effectiveHostnameIntersection l h of None \<Rightarrow> [] | Some e \<Rightarrow> [e]) hostnames)))"

section \<open>Listeners\<close>

abbreviation gatewayGroup :: string where "gatewayGroup \<equiv> ''gateway.networking.k8s.io''"

definition orElse :: "'a option \<Rightarrow> 'a \<Rightarrow> 'a" where
  "orElse x d = (case x of None \<Rightarrow> d | Some y \<Rightarrow> y)"

definition kindAllowed :: "string option \<times> string \<Rightarrow> bool" where
  "kindAllowed k \<longleftrightarrow> (fst k = None \<or> fst k = Some gatewayGroup) \<and> (snd k = [] \<or> snd k = ''HTTPRoute'')"

text \<open>Whether the namespace of a route is admitted: the same namespace, all, or the selected ones.\<close>

definition namespaceAdmitted ::
  "'w netEnv \<Rightarrow> gateway \<Rightarrow> httpRoute \<Rightarrow> routeNamespaces option \<Rightarrow> ('w, bool) prog" where
  "namespaceAdmitted net g r namespaces =
     (let same = (omNamespace (gwMeta g) = omNamespace (hrMeta r)) in
      case namespaces of
        None \<Rightarrow> returnE same
      | Some ns \<Rightarrow>
          (if rnFrom ns = None \<or> rnFrom ns = Some ''Same'' then returnE same
           else if rnFrom ns = Some ''All'' then returnE True
           else if rnFrom ns = Some ''Selector'' then
             (case rnSelector ns of
                None \<Rightarrow> returnE False
              | Some sel \<Rightarrow>
                  (case nSelector net sel of
                     Inl _ \<Rightarrow> returnE False
                   | Inr matches \<Rightarrow>
                       tryE (nGetNamespaceLabels net (omNamespace (hrMeta r))) (\<lambda>x. case x of
                         Inl err \<Rightarrow> (if isNotFound err then returnE False else failE err)
                       | Inr labels \<Rightarrow> returnE (matches labels))))
           else returnE False))"

definition listenerSelected :: "parentRef \<Rightarrow> httpRoute \<Rightarrow> listener \<Rightarrow> bool" where
  "listenerSelected parent r l \<longleftrightarrow>
     (paSectionName parent = None \<or> paSectionName parent = Some (liName l)) \<and>
     (paPort parent = None \<or> paPort parent = Some (liPort l)) \<and>
     (liProtocol l = ''HTTP'' \<or> liProtocol l = ''HTTPS'') \<and>
     \<not> (liHostname l \<noteq> None \<and> liHostname l \<noteq> Some [] \<and>
        acceptedRouteHostnames (liHostname l) (hrHostnames r) = [])"

definition listenerAdmits :: "'w netEnv \<Rightarrow> gateway \<Rightarrow> parentRef \<Rightarrow> httpRoute \<Rightarrow> listener \<Rightarrow> ('w, bool) prog" where
  "listenerAdmits net g parent r l =
     (if \<not> listenerSelected parent r l then returnE False
      else case liAllowed l of
        None \<Rightarrow> returnE (omNamespace (gwMeta g) = omNamespace (hrMeta r))
      | Some allowed \<Rightarrow>
          (case alKinds allowed of
             Some kinds \<Rightarrow>
               (if \<not> list_ex kindAllowed kinds then returnE False else namespaceAdmitted net g r (alNamespaces allowed))
           | None \<Rightarrow> namespaceAdmitted net g r (alNamespaces allowed)))"

text \<open>The hostnames a gateway accepts for a route, \<open>None\<close> when no listener admits it.  The code
  collects them in a map; their order is not observable.\<close>

fun listenerHostnames ::
  "'w netEnv \<Rightarrow> gateway \<Rightarrow> parentRef \<Rightarrow> httpRoute \<Rightarrow> string list option \<Rightarrow> listener list \<Rightarrow> ('w, string list option) prog" where
  "listenerHostnames net g parent r acc [] = returnE acc"
| "listenerHostnames net g parent r acc (l # ls) =
     bindE (listenerAdmits net g parent r l) (\<lambda>admitted.
       listenerHostnames net g parent r
         (if admitted then Some (orElse acc [] @ acceptedRouteHostnames (liHostname l) (hrHostnames r)) else acc) ls)"

definition acceptedListenerHostnames ::
  "'w netEnv \<Rightarrow> gateway \<Rightarrow> parentRef \<Rightarrow> httpRoute \<Rightarrow> ('w, string list option) prog" where
  "acceptedListenerHostnames net g parent r = listenerHostnames net g parent r None (gwListeners g)"

section \<open>Parents\<close>

definition gatewayParent :: "parentRef \<Rightarrow> bool" where
  "gatewayParent p \<longleftrightarrow>
     (paGroup p = None \<or> paGroup p = Some gatewayGroup) \<and> (paKind p = None \<or> paKind p = Some ''Gateway'')"

definition parentKey :: "httpRoute \<Rightarrow> parentRef \<Rightarrow> nsname" where
  "parentKey r p = mkName (orElse (paNamespace p) (omNamespace (hrMeta r))) (paName p)"

text \<open>A missing object is no error: the parent does not count.\<close>

definition orMissing :: "('w, 'a) prog \<Rightarrow> ('w, 'b) prog \<Rightarrow> ('a \<Rightarrow> ('w, 'b) prog) \<Rightarrow> ('w, 'b) prog" where
  "orMissing get skip f =
     tryE get (\<lambda>x. case x of Inl err \<Rightarrow> (if isNotFound err then skip else failE err) | Inr y \<Rightarrow> f y)"

definition parentHostnames ::
  "'w netEnv \<Rightarrow> string \<Rightarrow> string \<Rightarrow> httpRoute \<Rightarrow> parentRef \<Rightarrow> ('w, string list option) prog" where
  "parentHostnames net className controllerName r p =
     (if \<not> gatewayParent p then returnE None
      else orMissing (nGetGateway net (parentKey r p)) (returnE None) (\<lambda>g.
        if gwClassName g \<noteq> className then returnE None
        else orMissing (nGetGatewayClass net className) (returnE None) (\<lambda>controller.
          if controller \<noteq> controllerName then returnE None
          else acceptedListenerHostnames net g p r)))"

fun parentsHostnames ::
  "'w netEnv \<Rightarrow> string \<Rightarrow> string \<Rightarrow> httpRoute \<Rightarrow> string list option \<Rightarrow> parentRef list \<Rightarrow> ('w, string list option) prog" where
  "parentsHostnames net className controllerName r acc [] = returnE acc"
| "parentsHostnames net className controllerName r acc (p # ps) =
     bindE (parentHostnames net className controllerName r p) (\<lambda>h.
       parentsHostnames net className controllerName r
         (case h of None \<Rightarrow> acc | Some hs \<Rightarrow> Some (orElse acc [] @ hs)) ps)"

text \<open>The class and the controller that the reconciler was configured with.\<close>

record gatewayConfig =
  gcClass :: string
  gcController :: string

definition acceptedHostnamesForMikroTikGateway ::
  "'w netEnv \<Rightarrow> gatewayConfig \<Rightarrow> httpRoute \<Rightarrow> ('w, string list option) prog" where
  "acceptedHostnamesForMikroTikGateway net cfg r =
     (let className = (if gcClass cfg = [] then GatewayClassName else gcClass cfg);
          controllerName = (if gcController cfg = [] then GatewayController else gcController cfg)
      in bindE (parentsHostnames net className controllerName r None (hrParents r)) (\<lambda>h.
           returnE (map_option (\<lambda>hs. sort (remdups hs)) h)))"

section \<open>Backends\<close>

definition isServiceBackend :: "httpBackend \<Rightarrow> bool" where
  "isServiceBackend b =
     (if hbGroup b \<noteq> None \<and> hbGroup b \<noteq> Some [] then False
      else if hbKind b \<noteq> None \<and> hbKind b \<noteq> Some ''Service'' then False
      else hbName b \<noteq> [])"

definition httpBackendKey :: "httpRoute \<Rightarrow> httpBackend \<Rightarrow> nsname" where
  "httpBackendKey r b = mkName (orElse (hbNamespace b) (omNamespace (hrMeta r))) (hbName b)"

definition serviceBackends :: "httpRoute \<Rightarrow> httpBackend list" where
  "serviceBackends r = filter isServiceBackend (concat (hrRules r))"

definition grantPermits :: "httpRoute \<Rightarrow> string \<Rightarrow> referenceGrant \<Rightarrow> bool" where
  "grantPermits r serviceName g \<longleftrightarrow>
     list_ex (\<lambda>(group, kind, ns). group = gatewayGroup \<and> kind = ''HTTPRoute'' \<and> ns = omNamespace (hrMeta r)) (rgFrom g) \<and>
     list_ex (\<lambda>(group, kind, name). group = [] \<and> kind = ''Service'' \<and> (name = None \<or> name = Some serviceName)) (rgTo g)"

definition referenceGrantPermitsService ::
  "'w netEnv \<Rightarrow> httpRoute \<Rightarrow> string \<Rightarrow> string \<Rightarrow> ('w, bool) prog" where
  "referenceGrantPermitsService net r serviceNamespace serviceName =
     bindE (nListReferenceGrants net serviceNamespace) (\<lambda>grants.
       returnE (list_ex (grantPermits r serviceName) grants))"

fun allowedFrom ::
  "'w netEnv \<Rightarrow> httpRoute \<Rightarrow> (nsname \<times> bool) list \<Rightarrow> httpBackend list \<Rightarrow> ('w, (nsname \<times> bool) list) prog" where
  "allowedFrom net r acc [] = returnE acc"
| "allowedFrom net r acc (b # bs) =
     (let key = httpBackendKey r b in
      if nsNamespace key = omNamespace (hrMeta r) then allowedFrom net r acc bs
      else if map_of acc key \<noteq> None then allowedFrom net r acc bs
      else bindE (referenceGrantPermitsService net r (nsNamespace key) (nsName key)) (\<lambda>permitted.
        allowedFrom net r (acc @ [(key, permitted)]) bs))"

definition allowedCrossNamespaceBackends ::
  "'w netEnv \<Rightarrow> httpRoute \<Rightarrow> ('w, (nsname \<times> bool) list) prog" where
  "allowedCrossNamespaceBackends net r = allowedFrom net r [] (serviceBackends r)"

definition mayReach :: "httpRoute \<Rightarrow> (nsname \<times> bool) list \<Rightarrow> httpBackend \<Rightarrow> bool" where
  "mayReach r allowed b \<longleftrightarrow>
     nsNamespace (httpBackendKey r b) = omNamespace (hrMeta r) \<or> map_of allowed (httpBackendKey r b) = Some True"

text \<open>The backends that count: services of the route's namespace and granted ones of others.\<close>

definition reachableBackends :: "httpRoute \<Rightarrow> (nsname \<times> bool) list \<Rightarrow> httpBackend list" where
  "reachableBackends r allowed = filter (mayReach r allowed) (serviceBackends r)"

definition observeRouteServices ::
  "'w env \<Rightarrow> httpRoute \<Rightarrow> (nsname \<times> bool) list \<Rightarrow> ('w, (nsname \<times> service) list \<times> goerr list) prog" where
  "observeRouteServices env r allowed =
     observeServices env (map (httpBackendKey r) (reachableBackends r allowed)) [] []"

end
