(* ===== verification/HTTPRoute_Translate.thy ===== *)
theory HTTPRoute_Translate
  imports Gateway_Hostnames
begin

text \<open>
  The reconciler of HTTPRoutes (\<^verbatim>\<open>router_controller.go\<close> lines 1280 to 1480) and the watches that
  queue routes (lines 1777 to 1903).
\<close>

section \<open>Backends and hostnames\<close>

definition routeOwner :: "httpRoute \<Rightarrow> ownerObj" where
  "routeOwner r = \<lparr>ooKind = OwnHTTPRoute, ooTypeKind = [], ooMeta = hrMeta r\<rparr>"

definition routeSource :: "httpRoute \<Rightarrow> string" where
  "routeSource r = ''httproute/'' @ omName (hrMeta r)"

definition routeRecordName :: "httpRoute \<Rightarrow> string \<Rightarrow> string \<Rightarrow> string \<Rightarrow> string" where
  "routeRecordName r hostname serviceNamespace serviceName =
     ''httproute-'' @ shortHash (omNamespace (hrMeta r) @ ''/'' @ omName (hrMeta r) @ ''/'' @ hostname @ ''/''
                                @ serviceNamespace @ ''/'' @ serviceName)"

definition routeName :: "httpRoute \<Rightarrow> string" where
  "routeName r = omNamespace (hrMeta r) @ ''/'' @ omName (hrMeta r)"

definition noPortErr :: "httpRoute \<Rightarrow> service \<Rightarrow> goerr" where
  "noPortErr r s = Opaque (''HTTPRoute '' @ routeName r @ '' backend for Service ''
     @ omNamespace (svMeta s) @ ''/'' @ omName (svMeta s) @ '' has no port'')"

definition unavailablePortErr :: "httpRoute \<Rightarrow> service \<Rightarrow> goerr" where
  "unavailablePortErr r s = Opaque (''HTTPRoute '' @ routeName r @ '' references unavailable port on Service ''
     @ omNamespace (svMeta s) @ ''/'' @ omName (svMeta s))"

definition selectRouteBackend ::
  "httpRoute \<Rightarrow> string list \<Rightarrow> (nsname \<times> service) list \<Rightarrow> httpBackend \<Rightarrow> selection \<Rightarrow> selection" where
  "selectRouteBackend r hostnames observed b sel =
     (let key = httpBackendKey r b in
      case map_of observed key of
        None \<Rightarrow> sel
      | Some s \<Rightarrow>
          (case hbPort b of
             None \<Rightarrow> sel\<lparr>slErrors := slErrors sel @ [noPortErr r s]\<rparr>
           | Some p \<Rightarrow>
               (case findServicePort s p of
                  None \<Rightarrow> sel\<lparr>slErrors := slErrors sel @ [unavailablePortErr r s]\<rparr>
                | Some port \<Rightarrow> selectPort s key port
                    (map (\<lambda>h. \<lparr>dcChildName = routeRecordName r h (nsNamespace key) (omName (svMeta s)), dcHostname = h,
                               dcService = key, dcAddress = svClusterIP s\<rparr>) hostnames) sel)))"

definition selectRouteBackends ::
  "httpRoute \<Rightarrow> string list \<Rightarrow> (nsname \<times> bool) list \<Rightarrow> (nsname \<times> service) list \<Rightarrow> goerr list \<Rightarrow> selection" where
  "selectRouteBackends r hostnames allowed observed errs =
     fold (selectRouteBackend r hostnames observed) (reachableBackends r allowed)
       \<lparr>slServices = [], slPorts = [], slDNS = [], slErrors = errs\<rparr>"

definition routeChild ::
  "httpRoute \<Rightarrow> (nsname \<times> service) list \<Rightarrow> string \<Rightarrow> httpBackend \<Rightarrow> dnsChild list" where
  "routeChild r observed h b =
     (let key = httpBackendKey r b in
      case map_of observed key of
        None \<Rightarrow> []
      | Some s \<Rightarrow>
          (case hbPort b of
             None \<Rightarrow> []
           | Some p \<Rightarrow>
               (if findServicePort s p = None \<or> \<not> hasClusterIP s then []
                else [\<lparr>chName = routeRecordName r h (nsNamespace key) (nsName key),
                       chLabels = [(''mikrotik.operator.io/httproute'', omName (hrMeta r))],
                       chHost = h, chAddress = svClusterIP s, chNewRef = key, chRef = key\<rparr>])))"

definition routeChildren ::
  "httpRoute \<Rightarrow> string list \<Rightarrow> (nsname \<times> bool) list \<Rightarrow> (nsname \<times> service) list \<Rightarrow> dnsChild list" where
  "routeChildren r hostnames allowed observed =
     concat (map (\<lambda>h. if h = [] then []
       else concat (map (routeChild r observed h) (reachableBackends r allowed))) hostnames)"

section \<open>Reconcile\<close>

definition routeNotOwned :: "httpRoute \<Rightarrow> objectMeta \<Rightarrow> goerr" where
  "routeNotOwned r m =
     Opaque (''DNS record '' @ omNamespace m @ ''/'' @ omName m @ '' is not owned by HTTPRoute '' @ routeName r)"

definition reconcileHTTPRoute ::
  "'w env \<Rightarrow> 'w netEnv \<Rightarrow> gatewayConfig \<Rightarrow> httpRoute \<Rightarrow> ('w, result) prog" where
  "reconcileHTTPRoute env net cfg r =
     bindE (acceptedHostnamesForMikroTikGateway net cfg r) (\<lambda>accepted.
       case accepted of
         None \<Rightarrow> thenReturn (cleanupOwnedChildren env (routeOwner r) (routeSource r)) driftCheckInterval
       | Some hostnames \<Rightarrow>
           bindE (allowedCrossNamespaceBackends net r) (\<lambda>allowed.
           bindE (observeRouteServices env r allowed) (\<lambda>(observed, errs).
             reconcileSelection env (routeOwner r) ''HTTPRoute'' (routeSource r) (routeNotOwned r)
               (selectRouteBackends r hostnames allowed observed errs)
               (routeChildren r hostnames allowed observed))))"

definition HTTPRouteReconcile ::
  "'w env \<Rightarrow> 'w netEnv \<Rightarrow> gatewayConfig \<Rightarrow> nsname \<Rightarrow> ('w, result) prog" where
  "HTTPRouteReconcile env net cfg key = getOrIgnore (nGetHTTPRoute net key) (reconcileHTTPRoute env net cfg)"

section \<open>Watches\<close>

definition routeKeys :: "httpRoute list \<Rightarrow> nsname list" where
  "routeKeys rs = map (\<lambda>r. metaKey (hrMeta r)) rs"

definition namesParent :: "nsname set \<Rightarrow> httpRoute \<Rightarrow> bool" where
  "namesParent keys r = list_ex (\<lambda>p. gatewayParent p \<and> parentKey r p \<in> keys) (hrParents r)"

definition orNone :: "('w, 'a) prog \<Rightarrow> ('a \<Rightarrow> ('w, nsname list) prog) \<Rightarrow> ('w, nsname list) prog" where
  "orNone m f = tryE m (\<lambda>x. case x of Inl _ \<Rightarrow> returnE [] | Inr y \<Rightarrow> f y)"

text \<open>The namespaces of a grant are visited in the order of a Go map, here in that of the grant; a
  namespace that cannot be listed is passed over.\<close>

fun routesOfNamespaces :: "'w netEnv \<Rightarrow> string list \<Rightarrow> ('w, nsname list) prog" where
  "routesOfNamespaces net [] = returnE []"
| "routesOfNamespaces net (ns # nss) =
     bindE (orNone (nListHTTPRoutes net ns) (\<lambda>rs. returnE (routeKeys rs))) (\<lambda>keys.
     bindE (routesOfNamespaces net nss) (\<lambda>others. returnE (keys @ others)))"

definition httpRoutesForReferenceGrant :: "'w netEnv \<Rightarrow> referenceGrant \<Rightarrow> ('w, nsname list) prog" where
  "httpRoutesForReferenceGrant net g =
     routesOfNamespaces net (remdups (map (\<lambda>(_, _, ns). ns)
       (filter (\<lambda>(group, kind, _). group = gatewayGroup \<and> kind = ''HTTPRoute'') (rgFrom g))))"

definition httpRoutesForGateway :: "'w netEnv \<Rightarrow> gateway \<Rightarrow> ('w, nsname list) prog" where
  "httpRoutesForGateway net g =
     orNone (nListHTTPRoutes net []) (\<lambda>rs. returnE (routeKeys (filter (namesParent {metaKey (gwMeta g)}) rs)))"

definition httpRoutesForGatewayClass :: "'w netEnv \<Rightarrow> string \<Rightarrow> ('w, nsname list) prog" where
  "httpRoutesForGatewayClass net className =
     orNone (nListGateways net) (\<lambda>gs.
       let keys = map (\<lambda>g. metaKey (gwMeta g)) (filter (\<lambda>g. gwClassName g = className) gs) in
       if keys = [] then returnE []
       else orNone (nListHTTPRoutes net []) (\<lambda>rs. returnE (routeKeys (filter (namesParent (set keys)) rs))))"

definition httpRoutesForNamespace :: "'w netEnv \<Rightarrow> string \<Rightarrow> ('w, nsname list) prog" where
  "httpRoutesForNamespace net namespace =
     orNone (nListHTTPRoutes net namespace) (\<lambda>rs. returnE (routeKeys rs))"

end
