(* ===== verification/Translate_Properties.thy ===== *)
theory Translate_Properties
  imports HTTPRoute_Translate Reconcile_Properties
begin

text \<open>
  Properties of the translators: hostnames, grants, public ports and names.
\<close>

section \<open>Hostnames\<close>

text \<open>The hostnames a pattern stands for.\<close>

definition covers :: "string \<Rightarrow> string \<Rightarrow> bool" where
  "covers p h \<longleftrightarrow> (if hasPrefix p ''*.'' then wildcardHostnameMatches p h else h = p)"

lemma wildcard_suffix:
  assumes "hasPrefix p ''*.''"
  shows "wildcardHostnameMatches p h \<longleftrightarrow> strict_suffix (tl p) h"
proof -
  from assms obtain q where p: "p = CHR ''*'' # CHR ''.'' # q" by (auto simp: hasPrefix_def prefix_def)
  have "trimPrefix p ''*'' = tl p" using p by (simp add: trimPrefix_def hasPrefix_def)
  thus ?thesis
    by (auto simp: wildcardHostnameMatches_def hasSuffix_def strict_suffix_def suffix_def)
qed

lemma covers_wildcard: "hasPrefix p ''*.'' \<Longrightarrow> covers p h \<longleftrightarrow> strict_suffix (tl p) h"
  by (simp add: covers_def wildcard_suffix)

lemma covers_plain: "\<not> hasPrefix p ''*.'' \<Longrightarrow> covers p h \<longleftrightarrow> h = p"
  by (simp add: covers_def)

lemma wildcards_nested:
  assumes "hasPrefix a ''*.''" and "hasPrefix b ''*.''" and "suffix (tl b) (tl a)"
  shows "covers a h \<and> covers b h \<longleftrightarrow> covers a h"
  using assms by (auto simp: covers_wildcard dest: suffix_order.le_less_trans)

lemma wildcards_apart:
  assumes "hasPrefix a ''*.''" and "hasPrefix b ''*.''" and "\<not> suffix (tl b) (tl a)" and "\<not> suffix (tl a) (tl b)"
  shows "\<not> (covers a h \<and> covers b h)"
  using assms suffix_same_cases by (auto simp: covers_wildcard strict_suffix_def)

lemma wildcard_plain:
  assumes "hasPrefix a ''*.''" and "\<not> hasPrefix b ''*.''"
  shows "covers a h \<and> covers b h \<longleftrightarrow> wildcardHostnameMatches a b \<and> h = b"
  using assms by (auto simp: covers_def)

lemma trim_star: "hasPrefix p ''*.'' \<Longrightarrow> trimPrefix p ''*'' = tl p"
  by (auto simp: hasPrefix_def prefix_def trimPrefix_def)

text \<open>
  C26.  The effective hostname of a listener and a route is their intersection: it covers exactly the
  hostnames both cover, and there is none exactly when they share no hostname; it is one of the two,
  in lower case and without the trailing dot.
\<close>

theorem hostname_intersection_exact:
  "(case effectiveHostnameIntersection a b of None \<Rightarrow> False | Some e \<Rightarrow> covers e h) \<longleftrightarrow>
     covers (canonicalHostname a) h \<and> covers (canonicalHostname b) h"
proof -
  let ?a = "canonicalHostname a" and ?b = "canonicalHostname b"
  consider "?a = ?b" | (wild) "hasPrefix ?a ''*.''" "hasPrefix ?b ''*.''" | (left) "hasPrefix ?a ''*.''" "\<not> hasPrefix ?b ''*.''"
    | (right) "\<not> hasPrefix ?a ''*.''" "hasPrefix ?b ''*.''"
    | (plain) "?a \<noteq> ?b" "\<not> hasPrefix ?a ''*.''" "\<not> hasPrefix ?b ''*.''" by blast
  thus ?thesis
  proof cases
    case wild
    thus ?thesis
      using wildcards_nested[of ?a ?b h] wildcards_nested[of ?b ?a h] wildcards_apart[of ?a ?b h]
      by (auto simp: effectiveHostnameIntersection_def Let_def trim_star hasSuffix_def)
  next
    case left
    thus ?thesis
      using wildcard_plain[of ?a ?b h] covers_plain[of ?b h]
      by (auto simp: effectiveHostnameIntersection_def Let_def)
  next
    case right
    thus ?thesis
      using wildcard_plain[of ?b ?a h] covers_plain[of ?a h]
      by (auto simp: effectiveHostnameIntersection_def Let_def)
  qed (auto simp: effectiveHostnameIntersection_def Let_def covers_plain)
qed

section \<open>Grants\<close>

definition granted :: "'w netEnv \<Rightarrow> httpRoute \<Rightarrow> nsname \<Rightarrow> bool" where
  "granted net r key \<longleftrightarrow>
     nsNamespace key = omNamespace (hrMeta r) \<or>
     (\<exists>grants g w w'. nListReferenceGrants net (nsNamespace key) w = (Inr grants, w') \<and>
        g \<in> set grants \<and> grantPermits r (nsName key) g)"

lemma allowedFrom_granted:
  "allowedFrom net r acc bs w = (Inr allowed, w') \<Longrightarrow>
   (\<And>k. (k, True) \<in> set acc \<Longrightarrow> granted net r k) \<Longrightarrow> (k, True) \<in> set allowed \<Longrightarrow> granted net r k"
proof (induction bs arbitrary: acc w)
  case (Cons b bs)
  let ?key = "httpBackendKey r b"
  consider (skip) "nsNamespace ?key = omNamespace (hrMeta r) \<or> map_of acc ?key \<noteq> None"
    | (ask) "nsNamespace ?key \<noteq> omNamespace (hrMeta r)" "map_of acc ?key = None" by blast
  thus ?case
  proof cases
    case skip
    with Cons.prems(1) have "allowedFrom net r acc bs w = (Inr allowed, w')" by (auto simp: Let_def split: if_splits)
    thus ?thesis using Cons.IH Cons.prems(2,3) by blast
  next
    case ask
    with Cons.prems(1) obtain p w1 where
      p: "referenceGrantPermitsService net r (nsNamespace ?key) (nsName ?key) w = (Inr p, w1)"
      and rest: "allowedFrom net r (acc @ [(?key, p)]) bs w1 = (Inr allowed, w')"
      by (auto simp: Let_def elim!: bindE_InrE)
    have "granted net r ?key" if p
      using p that unfolding referenceGrantPermitsService_def granted_def
      by (elim bindE_InrE) (auto simp: list_ex_iff)
    hence "granted net r k" if "(k, True) \<in> set (acc @ [(?key, p)])" for k
      using that Cons.prems(2) by auto
    thus ?thesis using Cons.IH[OF rest] Cons.prems(3) by blast
  qed
qed simp

lemma reachable_granted:
  assumes "allowedCrossNamespaceBackends net r w = (Inr allowed, w')" and "b \<in> set (reachableBackends r allowed)"
  shows "granted net r (httpBackendKey r b)"
proof (cases "nsNamespace (httpBackendKey r b) = omNamespace (hrMeta r)")
  case False
  with assms(2) have "(httpBackendKey r b, True) \<in> set allowed"
    by (auto simp: reachableBackends_def mayReach_def dest: map_of_SomeD)
  from allowedFrom_granted[OF assms(1)[unfolded allowedCrossNamespaceBackends_def] _ this] show ?thesis by simp
qed (simp add: granted_def)

lemma selectRouteBackend_keys:
  "c \<in> set (slDNS (selectRouteBackend r hs observed b sel)) \<Longrightarrow> c \<in> set (slDNS sel) \<or> dcService c = httpBackendKey r b"
  "k \<in> fst ` set (slPorts (selectRouteBackend r hs observed b sel)) \<Longrightarrow> k \<in> fst ` set (slPorts sel) \<or> k = httpBackendKey r b"
  by (auto simp: selectRouteBackend_def selectPort_def Let_def dom_update split: option.splits)

lemma selectRouteBackends_keys:
  assumes "\<And>b. b \<in> set bs \<Longrightarrow> P (httpBackendKey r b)"
    and "\<And>c. c \<in> set (slDNS sel) \<Longrightarrow> P (dcService c)" and "\<And>k. k \<in> fst ` set (slPorts sel) \<Longrightarrow> P k"
  shows "(\<forall>c\<in>set (slDNS (fold (selectRouteBackend r hs observed) bs sel)). P (dcService c)) \<and>
    (\<forall>k\<in>fst ` set (slPorts (fold (selectRouteBackend r hs observed) bs sel)). P k)"
  using assms
proof (induction bs arbitrary: sel)
  case (Cons b bs)
  show ?case
    unfolding fold_Cons comp_def
  proof (rule Cons.IH)
    show "P (dcService c)" if "c \<in> set (slDNS (selectRouteBackend r hs observed b sel))" for c
      using selectRouteBackend_keys(1)[OF that] Cons.prems by auto
    show "P k" if "k \<in> fst ` set (slPorts (selectRouteBackend r hs observed b sel))" for k
      using selectRouteBackend_keys(2)[OF that] Cons.prems by auto
  qed (use Cons.prems(1) in auto)
qed auto

lemma routeChildren_key:
  "c \<in> set (routeChildren r hs allowed observed) \<Longrightarrow>
   \<exists>b\<in>set (reachableBackends r allowed). chRef c = httpBackendKey r b \<and> chNewRef c = httpBackendKey r b"
  by (auto simp: routeChildren_def routeChild_def Let_def split: if_splits option.splits)

text \<open>
  C27.  An HTTPRoute reaches a service of another namespace only with a reference grant of that
  namespace: the services a pass reads, the services of its DNS candidates, those whose ports it
  forwards and those its DNS records name are in the route's namespace or granted to it.
\<close>

theorem cross_namespace_needs_grant:
  assumes "allowedCrossNamespaceBackends net r w = (Inr allowed, w')"
  shows "list_all (granted net r) (map (httpBackendKey r) (reachableBackends r allowed)) \<and>
    list_all (\<lambda>c. granted net r (dcService c)) (slDNS (selectRouteBackends r hs allowed observed errs)) \<and>
    list_all (\<lambda>p. granted net r (fst p)) (slPorts (selectRouteBackends r hs allowed observed errs)) \<and>
    list_all (\<lambda>c. granted net r (chRef c) \<and> granted net r (chNewRef c)) (routeChildren r hs allowed observed)"
proof -
  note reach = reachable_granted[OF assms]
  have "(\<forall>c\<in>set (slDNS (selectRouteBackends r hs allowed observed errs)). granted net r (dcService c)) \<and>
    (\<forall>k\<in>fst ` set (slPorts (selectRouteBackends r hs allowed observed errs)). granted net r k)"
    unfolding selectRouteBackends_def
    by (rule selectRouteBackends_keys) (use reach in auto)
  moreover have "list_all (granted net r) (map (httpBackendKey r) (reachableBackends r allowed))"
    using reach by (auto simp: list_all_iff)
  moreover have "list_all (\<lambda>c. granted net r (chRef c) \<and> granted net r (chNewRef c)) (routeChildren r hs allowed observed)"
    using routeChildren_key reach by (fastforce simp: list_all_iff)
  ultimately show ?thesis by (auto simp: list_all_iff)
qed

text \<open>Networking objects that do not change, for concrete runs.\<close>

definition fixedNet :: "ingress list \<Rightarrow> httpRoute list \<Rightarrow> gateway list \<Rightarrow> referenceGrant list \<Rightarrow> 'w netEnv" where
  "fixedNet igs rs gs grants =
      \<lparr>nGetIngress = (\<lambda>k. readE (\<lambda>_. case find (\<lambda>x. metaKey (igMeta x) = k) igs of None \<Rightarrow> Inl notFoundErr | Some x \<Rightarrow> Inr x)),
       nListIngresses = (\<lambda>ns. returnE (filter (\<lambda>x. ns = [] \<or> omNamespace (igMeta x) = ns) igs)),
       nGetIngressClass = (\<lambda>_. returnE IngressController),
       nGetHTTPRoute = (\<lambda>k. readE (\<lambda>_. case find (\<lambda>x. metaKey (hrMeta x) = k) rs of None \<Rightarrow> Inl notFoundErr | Some x \<Rightarrow> Inr x)),
       nListHTTPRoutes = (\<lambda>ns. returnE (filter (\<lambda>x. ns = [] \<or> omNamespace (hrMeta x) = ns) rs)),
       nGetGateway = (\<lambda>k. readE (\<lambda>_. case find (\<lambda>x. metaKey (gwMeta x) = k) gs of None \<Rightarrow> Inl notFoundErr | Some x \<Rightarrow> Inr x)),
       nListGateways = returnE gs,
       nGetGatewayClass = (\<lambda>_. returnE GatewayController),
       nListReferenceGrants = (\<lambda>ns. returnE (filter (\<lambda>x. omNamespace (rgMeta x) = ns) grants)),
       nGetNamespaceLabels = (\<lambda>_. returnE []),
       nSelector = (\<lambda>sel. Inr (\<lambda>labels. list_all (\<lambda>(k, v). map_of labels k = Some v) (lsMatchLabels sel)))\<rparr>"

definition labBackend :: "string \<Rightarrow> string \<Rightarrow> httpBackend" where
  "labBackend ns n = \<lparr>hbGroup = None, hbKind = None, hbName = n, hbNamespace = Some ns, hbPort = Some 80\<rparr>"

definition labHttp :: httpRoute where
  "labHttp = \<lparr>hrMeta = newMeta ''lab'' ''web'', hrParents = [], hrHostnames = [''app.lab''],
     hrRules = [[labBackend ''shop'' ''api'', labBackend ''bank'' ''vault'', labBackend ''lab'' ''front'']]\<rparr>"

definition labGrant :: referenceGrant where
  "labGrant = \<lparr>rgMeta = newMeta ''shop'' ''allow'', rgFrom = [(gatewayGroup, ''HTTPRoute'', ''lab'')],
     rgTo = [([], ''Service'', Some ''api'')]\<rparr>"

definition labService :: "string \<Rightarrow> string \<Rightarrow> string \<Rightarrow> service" where
  "labService ns n ip = \<lparr>svMeta = newMeta ns n, svType = [], svClusterIP = ip,
     svPorts = [\<lparr>spName = ''http'', spProtocol = ''TCP'', spPort = 80, spNodePort = 0\<rparr>]\<rparr>"

lemma lab_allowed:
  "allowedCrossNamespaceBackends (fixedNet [] [labHttp] [] [labGrant]) labHttp ()
     = (Inr [(mkName ''shop'' ''api'', True), (mkName ''bank'' ''vault'', False)], ())"
  by code_simp

theorem cross_namespace_needs_grant_witness:
  "granted (fixedNet [] [labHttp] [] [labGrant] :: unit netEnv) labHttp (mkName ''shop'' ''api'') \<and>
   map (httpBackendKey labHttp) (reachableBackends labHttp [(mkName ''shop'' ''api'', True), (mkName ''bank'' ''vault'', False)])
     = [mkName ''shop'' ''api'', mkName ''lab'' ''front'']"
proof -
  have "map (httpBackendKey labHttp) (reachableBackends labHttp [(mkName ''shop'' ''api'', True), (mkName ''bank'' ''vault'', False)])
     = [mkName ''shop'' ''api'', mkName ''lab'' ''front'']" by code_simp
  with cross_namespace_needs_grant[OF lab_allowed] show ?thesis by simp
qed

section \<open>Public ports\<close>

text \<open>What holds of the matches and candidates at every step of the preparation.\<close>

definition prepared :: "forwardRequest \<Rightarrow> string \<Rightarrow> prepState \<Rightarrow> bool" where
  "prepared req ip st \<longleftrightarrow>
     candidateKey ` set (prCandidates st) = set (prSeen st) \<and> distinct (prCandidates st) \<and>
     (\<forall>c\<in>set (prCandidates st).
        map_of (prMatches st) (matchKey ip (fcProtocol c) (fcExternalPort c))
          = Some (fcService c, fcTargetAddress c, fcTargetPort c) \<and>
        fcProtocol c \<in> {''tcp'', ''udp''} \<and> fcTargetPort c \<noteq> 0 \<and>
        fcName c = ''pf-'' @ shortHash (pqNamespace req @ ''/'' @ pqSourceName req @ ''/'' @ nsNamespace (fcService c) @ ''/''
                         @ nsName (fcService c) @ ''/'' @ itoa (fcExternalPort c) @ ''/'' @ fcProtocol c))"

lemma prepared_unique:
  assumes st: "prepared req ip st" and c: "c \<in> set (prCandidates st)" and d: "d \<in> set (prCandidates st)"
    and same: "fcProtocol c = fcProtocol d" "fcExternalPort c = fcExternalPort d"
  shows "c = d"
proof -
  let ?name = "\<lambda>c. ''pf-'' @ shortHash (pqNamespace req @ ''/'' @ pqSourceName req @ ''/'' @ nsNamespace (fcService c) @ ''/''
                         @ nsName (fcService c) @ ''/'' @ itoa (fcExternalPort c) @ ''/'' @ fcProtocol c)"
  from st have all: "\<forall>c\<in>set (prCandidates st).
      map_of (prMatches st) (matchKey ip (fcProtocol c) (fcExternalPort c)) = Some (fcService c, fcTargetAddress c, fcTargetPort c)
      \<and> fcName c = ?name c" unfolding prepared_def by blast
  from all c have "map_of (prMatches st) (matchKey ip (fcProtocol c) (fcExternalPort c))
      = Some (fcService c, fcTargetAddress c, fcTargetPort c)" by blast
  moreover from all d have "map_of (prMatches st) (matchKey ip (fcProtocol d) (fcExternalPort d))
      = Some (fcService d, fcTargetAddress d, fcTargetPort d)" by blast
  ultimately have t: "fcService c = fcService d" "fcTargetAddress c = fcTargetAddress d" "fcTargetPort c = fcTargetPort d"
    using same by simp_all
  from all c d have "fcName c = ?name c" "fcName d = ?name d" by blast+
  with t same have "fcName c = fcName d" by simp
  with t same show ?thesis by simp
qed

lemma addPort_prepared:
  assumes "prepared req ip st" and "addPort req ip s address p st = Inr st'"
  shows "prepared req ip st'"
proof (cases "portProtocol p \<noteq> ''tcp'' \<and> portProtocol p \<noteq> ''udp''")
  case True
  thus ?thesis using assms by (simp add: addPort_def)
next
  case False
  let ?k = "matchKey ip (portProtocol p) (spPort p)" and ?c = "portCandidate req s address p"
  let ?t = "(metaKey (svMeta s), address, portTarget s p)"
  let ?m = "AList.update ?k ?t (prMatches st)"
  have target: "portTarget s p \<noteq> 0" and old: "map_of (prMatches st) ?k \<in> {None, Some ?t}"
    and st': "st' = (if candidateKey ?c \<in> set (prSeen st) then st\<lparr>prMatches := ?m\<rparr>
        else st\<lparr>prMatches := ?m, prSeen := candidateKey ?c # prSeen st, prCandidates := prCandidates st @ [?c]\<rparr>)"
    using assms(2) False by (auto simp: addPort_def Let_def split: if_splits option.splits)
  have m: "map_of ?m k' = (if k' = ?k then Some ?t else map_of (prMatches st) k')" for k'
    by (simp add: update_conv')
  have keep: "map_of ?m k' = Some x" if "map_of (prMatches st) k' = Some x" for k' x
    using that old by (auto simp: m)
  have c: "map_of ?m (matchKey ip (fcProtocol ?c) (fcExternalPort ?c)) = Some (fcService ?c, fcTargetAddress ?c, fcTargetPort ?c)"
    by (simp add: m portCandidate_def)
  have new: "fcProtocol ?c \<in> {''tcp'', ''udp''} \<and> fcTargetPort ?c \<noteq> 0 \<and>
        fcName ?c = ''pf-'' @ shortHash (pqNamespace req @ ''/'' @ pqSourceName req @ ''/'' @ nsNamespace (fcService ?c) @ ''/''
                         @ nsName (fcService ?c) @ ''/'' @ itoa (fcExternalPort ?c) @ ''/'' @ fcProtocol ?c)"
    using False target by (auto simp: portCandidate_def forwardName_def metaKey_def)
  show ?thesis
    using assms(1) c new keep unfolding st' prepared_def by auto
qed

lemma addPorts_prepared:
  "prepared req ip st \<Longrightarrow> addPorts req ip s address ps st = Inr st' \<Longrightarrow> prepared req ip st'"
  by (induction ps arbitrary: st) (auto split: sum.splits dest: addPort_prepared)

lemma addServices_prepared:
  "prepared req ip st \<Longrightarrow> addServices env req ip ss st w = (Inr st', w') \<Longrightarrow> prepared req ip st'"
proof (induction ss arbitrary: st w)
  case (Cons s ss)
  show ?case
  proof (cases "\<not> hasClusterIP s \<or> forwardedPorts req s = None")
    case True
    with Cons show ?thesis by (auto split: option.splits if_splits)
  next
    case False
    then obtain ports where "forwardedPorts req s = Some ports" "hasClusterIP s" by auto
    with Cons.prems(2) obtain address st1 w1 w2 where
      "liftSum (addPorts req ip s address ports st) w1 = (Inr st1, w2)"
      and rest: "addServices env req ip ss st1 w2 = (Inr st', w')"
      by (auto elim!: bindE_InrE)
    hence "prepared req ip st1"
      by (intro addPorts_prepared[OF Cons.prems(1)]) (auto simp: liftSum_def split: sum.splits)
    thus ?thesis using Cons.IH rest by blast
  qed
qed simp

text \<open>
  C28.  In a prepared request no public address and port has two targets: candidates with the same
  protocol and external port are the same candidate; every candidate is TCP or UDP with a target port.
  A request without public address has no candidate at all.
\<close>

theorem public_match_single_target:
  assumes "preparePortForwardReconcileRequest env req w = (Inr req', w')"
    and "\<not> pqPrepared req" and "pqCandidates req = []"
  shows "distinct (map (\<lambda>c. (fcProtocol c, fcExternalPort c)) (pqCandidates req')) \<and>
    list_all (\<lambda>c. fcProtocol c \<in> {''tcp'', ''udp''} \<and> fcTargetPort c \<noteq> 0) (pqCandidates req') \<and>
    (pqPublicIP req = [] \<longrightarrow> pqCandidates req' = [])"
proof (cases "pqPublicIP req = []")
  case True
  thus ?thesis using assms by (auto simp: preparePortForwardReconcileRequest_def)
next
  case False
  let ?req = "req\<lparr>pqPrepared := True\<rparr>"
  let ?resolve = "if pqRouterRef ?req = []
        then bindE (resolveRouterReference env (pqNamespace ?req) []) (\<lambda>resolved.
               returnE (?req\<lparr>pqRouterRef := routerRefStorage (pqNamespace ?req) resolved\<rparr>))
        else returnE ?req"
  from assms(1,2) False obtain ip where
    "bindE ?resolve (\<lambda>req. bindE (addServices env req (ipString ip) (pqServices req)
         \<lparr>prMatches = [], prSeen = [], prCandidates = pqCandidates req\<rparr>)
         (\<lambda>st. returnE (req\<lparr>pqCandidates := prCandidates st\<rparr>))) w = (Inr req', w')"
    unfolding preparePortForwardReconcileRequest_def Let_def by (auto simp del: forwardRequest.simps split: option.splits)
  then obtain req1 w1 where resolve: "?resolve w = (Inr req1, w1)"
    and rest: "bindE (addServices env req1 (ipString ip) (pqServices req1)
         \<lparr>prMatches = [], prSeen = [], prCandidates = pqCandidates req1\<rparr>)
         (\<lambda>st. returnE (req1\<lparr>pqCandidates := prCandidates st\<rparr>)) w1 = (Inr req', w')"
    by (rule bindE_InrE)
  from rest obtain st where add: "addServices env req1 (ipString ip) (pqServices req1)
         \<lparr>prMatches = [], prSeen = [], prCandidates = pqCandidates req1\<rparr> w1 = (Inr st, w')"
    and req': "req' = req1\<lparr>pqCandidates := prCandidates st\<rparr>"
    by (elim bindE_InrE) auto
  have none: "pqCandidates req1 = []"
    using resolve assms(3) by (auto split: if_splits elim!: bindE_InrE)
  have st: "prepared req1 (ipString ip) st"
    by (rule addServices_prepared[OF _ add]) (simp add: prepared_def none)
  have "c = d" if c: "c \<in> set (prCandidates st)" and d: "d \<in> set (prCandidates st)"
    and same: "fcProtocol c = fcProtocol d" "fcExternalPort c = fcExternalPort d" for c d
    by (rule prepared_unique[OF st c d same])
  hence "inj_on (\<lambda>c. (fcProtocol c, fcExternalPort c)) (set (prCandidates st))" by (auto intro!: inj_onI)
  with st False show ?thesis by (auto simp: prepared_def req' distinct_map list_all_iff)
qed

definition labRequest :: forwardRequest where
  "labRequest = (sourceRequest \<lparr>ooKind = OwnIngress, ooTypeKind = [], ooMeta = newMeta ''lab'' ''web''\<rparr> ''ingress/web'' ''lab'')
     \<lparr>pqPublicIP := ''203.0.113.9'', pqRouterRef := ''home'', pqServices := [labService ''lab'' ''front'' ''10.96.0.5'']\<rparr>"

lemma lab_prepared:
  "\<exists>req'. preparePortForwardReconcileRequest simEnv labRequest lab = (Inr req', lab) \<and>
     map fcExternalPort (pqCandidates req') = [80]"
proof -
  have "parseIP ''203.0.113.9'' \<noteq> None" by code_simp
  then obtain ip where ip: "parseIP ''203.0.113.9'' = Some ip" by blast
  have tcp: "toLower ''TCP'' = ''tcp''" by code_simp
  show ?thesis
    by (simp add: preparePortForwardReconcileRequest_def labRequest_def sourceRequest_def ip labService_def hasClusterIP_def
        forwardedPorts_def forwardAddress_def liftSum_def addPort_def portProtocol_def portTarget_def portCandidate_def tcp Let_def)
qed

theorem public_match_single_target_witness:
  "\<exists>req'. preparePortForwardReconcileRequest simEnv labRequest lab = (Inr req', lab) \<and>
     map fcExternalPort (pqCandidates req') = [80] \<and>
     distinct (map (\<lambda>c. (fcProtocol c, fcExternalPort c)) (pqCandidates req'))"
proof -
  from lab_prepared obtain req' where run: "preparePortForwardReconcileRequest simEnv labRequest lab = (Inr req', lab)"
    and port: "map fcExternalPort (pqCandidates req') = [80]" by (elim exE conjE)
  have "\<not> pqPrepared labRequest" "pqCandidates labRequest = []"
    by (simp_all add: labRequest_def sourceRequest_def)
  from public_match_single_target[OF run this]
  have "distinct (map (\<lambda>c. (fcProtocol c, fcExternalPort c)) (pqCandidates req'))" by (rule conjunct1)
  with run port show ?thesis by (intro exI[of _ req'] conjI)
qed

section \<open>Names\<close>

text \<open>An RFC 1123 label, what the API server accepts as a part of a name.\<close>

definition alnumLower :: "char \<Rightarrow> bool" where
  "alnumLower c \<longleftrightarrow> c \<in> set ''abcdefghijklmnopqrstuvwxyz0123456789''"

definition dnsLabel :: "string \<Rightarrow> bool" where
  "dnsLabel s \<longleftrightarrow> s \<noteq> [] \<and> length s \<le> 63 \<and> list_all (\<lambda>c. alnumLower c \<or> c = CHR ''-'') s \<and>
     alnumLower (hd s) \<and> alnumLower (last s)"

lemma hexNibble_alnum: "0 \<le> n \<Longrightarrow> n < 16 \<Longrightarrow> alnumLower (hexNibble n)"
proof -
  assume "0 \<le> n" "n < 16"
  hence "n \<in> set [0,1,2,3,4,5,6,7,8,9,10,11,12,13,14,15]" by (simp, presburger)
  moreover have "list_all (\<lambda>n. alnumLower (hexNibble n)) [0,1,2,3,4,5,6,7,8,9,10,11,12,13,14,15]" by code_simp
  ultimately show ?thesis unfolding list_all_iff by blast
qed

lemma shortHash_chars: "length (shortHash v) = 16 \<and> list_all alnumLower (shortHash v)"
proof -
  have "list_all alnumLower (hexEncode ws)" for ws
    by (auto simp: hexEncode_def hexWord_def list_all_iff intro!: hexNibble_alnum)
  moreover have "length (hexEncode (sha1 v)) = 40" by (simp add: length_hexEncode)
  ultimately show ?thesis by (auto simp: shortHash_def list_all_iff dest: in_set_takeD)
qed

lemma hashed_label:
  assumes "list_all (\<lambda>c. alnumLower c \<or> c = CHR ''-'') p" and "p \<noteq> []" and "alnumLower (hd p)" and "length p \<le> 40"
  shows "dnsLabel (p @ shortHash v)"
proof -
  have h: "length (shortHash v) = 16" "list_all alnumLower (shortHash v)" using shortHash_chars by simp_all
  hence "shortHash v \<noteq> []" "alnumLower (last (shortHash v))"
    by (auto simp: list_all_iff) (metis last_in_set list.size(3) zero_neq_numeral)
  with assms h show ?thesis by (auto simp: dnsLabel_def list_all_iff)
qed

text \<open>
  C29.  Every generated child that is named by a hash has a valid name of at most 63 characters,
  whatever the names of the objects it comes from.
\<close>

theorem generated_names_are_labels:
  "dnsLabel (forwardName req s protocol port) \<and> dnsLabel (ingressRecordName ig host name) \<and>
   dnsLabel (routeRecordName r host namespace name) \<and> dnsLabel (candidateName creq s destination gateway)"
  unfolding forwardName_def ingressRecordName_def routeRecordName_def candidateName_def
  by (intro conjI hashed_label) (simp_all add: alnumLower_def)

text \<open>
  C30.  The name of a Service's DNS record, cut to 63 characters, is a valid name unless the Service's
  name has exactly 62 characters: then it ends in a hyphen and the API server refuses it.
\<close>

theorem service_record_name_valid:
  assumes "dnsLabel (omName (svMeta s))"
  shows "dnsLabel (serviceRecordName s) \<longleftrightarrow> length (omName (svMeta s)) \<noteq> 62"
proof -
  let ?n = "omName (svMeta s)"
  have n: "?n \<noteq> []" "length ?n \<le> 63" "\<forall>c\<in>set ?n. alnumLower c \<or> c = CHR ''-''" "alnumLower (hd ?n)" "alnumLower (last ?n)"
    using assms by (auto simp: dnsLabel_def list_all_iff)
  have chars: "\<forall>c\<in>set (serviceRecordName s). alnumLower c \<or> c = CHR ''-''"
  proof
    fix c assume "c \<in> set (serviceRecordName s)"
    hence "c \<in> set (?n @ ''-dns'')" unfolding serviceRecordName_def by (rule in_set_takeD)
    hence "c \<in> set ?n \<or> c \<in> set ''-dns''" unfolding set_append by (rule UnE) blast+
    moreover have "\<forall>c\<in>set ''-dns''. alnumLower c \<or> c = CHR ''-''" by (simp add: alnumLower_def)
    ultimately show "alnumLower c \<or> c = CHR ''-''" using n(3) by blast
  qed
  have hd: "hd (serviceRecordName s) = hd ?n" "serviceRecordName s \<noteq> []" "length (serviceRecordName s) \<le> 63"
    using n(1) unfolding serviceRecordName_def by (cases ?n; simp)+
  have tail: "serviceRecordName s = take 63 ?n @ take (63 - length ?n) ''-dns''"
    by (simp add: serviceRecordName_def)
  consider "length ?n = 63" | "length ?n = 62" | "length ?n = 61" | "length ?n = 60" | "length ?n \<le> 59"
    using n(2) by linarith
  hence "alnumLower (last (serviceRecordName s)) \<longleftrightarrow> length ?n \<noteq> 62"
    using n(1,2,5) unfolding tail by cases (simp_all add: alnumLower_def)
  with chars hd n(4) show ?thesis by (auto simp: dnsLabel_def list_all_iff)
qed

theorem service_record_name_valid_witness:
  "dnsLabel (replicate 62 (CHR ''a'')) \<and>
   \<not> dnsLabel (serviceRecordName (labService ''lab'' (replicate 62 (CHR ''a'')) ''10.96.0.5'')) \<and>
   dnsLabel (serviceRecordName (labService ''lab'' ''front'' ''10.96.0.5''))"
proof -
  have name: "omName (svMeta (labService ''lab'' n ip)) = n" for n ip
    by (simp add: labService_def newMeta_def)
  note valid = service_record_name_valid[where s = "labService ''lab'' n ip" for n ip, unfolded name]
  have long: "dnsLabel (replicate 62 (CHR ''a''))" and short: "dnsLabel ''front''" by code_simp+
  have "length (replicate 62 (CHR ''a'')) = 62" by (rule length_replicate)
  with valid[OF long] have "\<not> dnsLabel (serviceRecordName (labService ''lab'' (replicate 62 (CHR ''a'')) ''10.96.0.5''))"
    by blast
  moreover have "dnsLabel (serviceRecordName (labService ''lab'' ''front'' ''10.96.0.5''))"
    using valid[OF short] by simp
  ultimately show ?thesis using long by blast
qed

end
