(* ===== verification/Child_Sync.thy ===== *)
theory Child_Sync
  imports HTTPRoute_Translate Kube_Frame
begin

text \<open>
  What the reconciliation of generated children achieves.  The locale \<open>object_store\<close> states what one
  kind of object on the API server promises while nobody else writes it, through the table of its
  objects; \<open>in_sync\<close> is what the owner wants of that table, and the three reconciliations of the
  program (DNS records, port forwards, routes) establish it.
\<close>

section \<open>Tables of objects\<close>

type_synonym 'o objects = "nsname \<Rightarrow> 'o option"

text \<open>The children of an owner in a namespace are the wanted ones: each name has an object of the
  owner's with the wanted contents, every other object of the owner's is being deleted, and objects of
  others are as they were.\<close>

definition in_sync ::
  "('o \<Rightarrow> objectMeta) \<Rightarrow> objectMeta \<Rightarrow> string \<Rightarrow> (string \<times> ('o \<Rightarrow> bool)) list \<Rightarrow> 'o objects \<Rightarrow> 'o objects \<Rightarrow> bool" where
  "in_sync meta owner ns wanted before after \<longleftrightarrow>
     (\<forall>(n, ok)\<in>set wanted. \<exists>x. after (mkName ns n) = Some x \<and> isControlledBy (meta x) owner \<and> ok x) \<and>
     (\<forall>k x. after k = Some x \<and> nsNamespace k = ns \<and> nsName k \<notin> fst ` set wanted \<and> isControlledBy (meta x) owner \<longrightarrow>
        isDeleting (meta x)) \<and>
     (\<forall>k x. before k = Some x \<and> \<not> isControlledBy (meta x) owner \<longrightarrow> after k = Some x)"

text \<open>Whether an object is finished with: deletion only waits for finalizers.\<close>

definition lingering :: "objectMeta \<Rightarrow> bool" where
  "lingering m \<longleftrightarrow> isDeleting m \<longrightarrow> omFinalizers m \<noteq> []"

section \<open>The shape of the reconciliations\<close>

text \<open>The shape the three reconciliations share: read, then create, leave alone or update.\<close>

definition syncChild ::
  "('w, 'o) store \<Rightarrow> ('o \<Rightarrow> objectMeta) \<Rightarrow> nsname \<Rightarrow> objectMeta \<Rightarrow> (goerr \<Rightarrow> bool) \<Rightarrow> goerr + 'o \<Rightarrow> ('o \<Rightarrow> goerr) \<Rightarrow> ('o \<Rightarrow> bool) \<Rightarrow> ('o \<Rightarrow> 'o) \<Rightarrow> ('w, unit) prog" where
  "syncChild st meta k owner tolerated new foreign current updated =
     tryE (stGet st k) (\<lambda>x. case x of
       Inl err \<Rightarrow>
         (if isNotFound err then
            (case new of
               Inl e \<Rightarrow> failE e
             | Inr o' \<Rightarrow> tryE (stCreate st o') (\<lambda>y. case y of
                 Inl e \<Rightarrow> (if tolerated e then returnE () else failE e) | Inr _ \<Rightarrow> returnE ()))
          else failE err)
     | Inr o' \<Rightarrow>
         (if \<not> isControlledBy (meta o') owner then failE (foreign o')
          else if current o' then returnE ()
          else voidE (stUpdate st (updated o'))))"

text \<open>The loop that deletes the owner's other objects, from a list that was read before.\<close>

definition sweep :: "('o \<Rightarrow> objectMeta) \<Rightarrow> objectMeta \<Rightarrow> string set \<Rightarrow> ('o \<Rightarrow> ('w, unit) prog) \<Rightarrow> 'o \<Rightarrow> ('w, unit) prog" where
  "sweep meta owner names delete x =
     (if omName (meta x) \<notin> names \<and> isControlledBy (meta x) owner then delete x else returnE ())"

section \<open>Stores\<close>

locale object_store =
  fixes st :: "('w, 'o) store" and meta :: "'o \<Rightarrow> objectMeta" and core :: "'o \<Rightarrow> 'c"
    and objs :: "'w \<Rightarrow> 'o objects" and good :: "'w \<Rightarrow> bool"
  assumes keyed: "good w \<Longrightarrow> objs w k = Some x \<Longrightarrow> metaKey (meta x) = k \<and> lingering (meta x)"
    and get_ok: "good w \<Longrightarrow> stGet st k w = (Inr x, w') \<Longrightarrow> good w' \<and> objs w' = objs w \<and> objs w k = Some x"
    and get_fail: "good w \<Longrightarrow> stGet st k w = (Inl e, w') \<Longrightarrow> good w' \<and> objs w' = objs w \<and> (isNotFound e \<longrightarrow> objs w k = None)"
    and list_ok: "good w \<Longrightarrow> stList st ns w = (Inr xs, w') \<Longrightarrow> ns \<noteq> [] \<Longrightarrow>
      good w' \<and> objs w' = objs w \<and> set xs = {x. \<exists>k. objs w k = Some x \<and> nsNamespace k = ns}"
    and create_ok: "good w \<Longrightarrow> stCreate st x w = (Inr y, w') \<Longrightarrow> \<not> isDeleting (meta x) \<Longrightarrow>
      good w' \<and> objs w' = (objs w)(metaKey (meta x) \<mapsto> y) \<and> core y = core x"
    and create_exists: "good w \<Longrightarrow> stCreate st x w = (Inl e, w') \<Longrightarrow> isAlreadyExists e \<Longrightarrow> objs w (metaKey (meta x)) \<noteq> None"
    and update_ok: "good w \<Longrightarrow> stUpdate st x w = (Inr y, w') \<Longrightarrow> lingering (meta x) \<Longrightarrow>
      good w' \<and> objs w' = (objs w)(metaKey (meta x) \<mapsto> y) \<and> core y = core x"
    and delete_ok: "good w \<Longrightarrow> stDelete st x w = (Inr u, w') \<Longrightarrow>
      good w' \<and> (objs w' = (objs w)(metaKey (meta x) := None) \<or>
        (\<exists>y. objs w' = (objs w)(metaKey (meta x) \<mapsto> y) \<and> isDeleting (meta y)))"
    and delete_missing: "good w \<Longrightarrow> stDelete st x w = (Inl e, w') \<Longrightarrow> isNotFound e \<Longrightarrow>
      good w' \<and> objs w' = objs w \<and> objs w (metaKey (meta x)) = None"
begin

text \<open>One step of a reconciliation: the object of a name is the owner's, with the wanted contents.\<close>

definition sets :: "objectMeta \<Rightarrow> nsname \<Rightarrow> ('o \<Rightarrow> bool) \<Rightarrow> ('w, unit) prog \<Rightarrow> bool" where
  "sets owner k ok m \<longleftrightarrow> (\<forall>w w'. good w \<and> m w = (Inr (), w') \<longrightarrow>
     good w' \<and> (\<exists>y. objs w' = (objs w)(k \<mapsto> y) \<and> isControlledBy (meta y) owner \<and> ok y) \<and>
     (\<forall>x. objs w k = Some x \<longrightarrow> isControlledBy (meta x) owner))"

lemma setsD:
  assumes "sets owner k ok m" and "good w" and "m w = (Inr (), w')"
  obtains y where "good w'" and "objs w' = (objs w)(k \<mapsto> y)" and "isControlledBy (meta y) owner" and "ok y"
    and "\<And>x. objs w k = Some x \<Longrightarrow> isControlledBy (meta x) owner"
  using assms unfolding sets_def by blast

lemma syncChild_sets:
  assumes tolerated: "\<And>e. tolerated e \<Longrightarrow> isAlreadyExists e"
    and ok: "\<And>x y. core x = core y \<Longrightarrow> isControlledBy (meta x) owner = isControlledBy (meta y) owner \<and> ok x = ok y"
    and new: "\<And>x. new = Inr x \<Longrightarrow> metaKey (meta x) = k \<and> \<not> isDeleting (meta x) \<and> isControlledBy (meta x) owner \<and> ok x"
    and current: "\<And>x. current x \<Longrightarrow> ok x"
    and updated: "\<And>x. metaKey (meta x) = k \<Longrightarrow> metaKey (meta (updated x)) = k \<and> lingering (meta (updated x)) = lingering (meta x) \<and>
      isControlledBy (meta (updated x)) owner = isControlledBy (meta x) owner \<and> ok (updated x)"
  shows "sets owner k ok (syncChild st meta k owner tolerated new foreign current updated)"
  unfolding sets_def
proof (intro allI impI, elim conjE)
  fix w w' assume w: "good w" and run: "syncChild st meta k owner tolerated new foreign current updated w = (Inr (), w')"
  from run obtain g w1 where get: "stGet st k w = (g, w1)" and rest: "(case g of
       Inl err \<Rightarrow>
         (if isNotFound err then
            (case new of
               Inl e \<Rightarrow> failE e
             | Inr o' \<Rightarrow> tryE (stCreate st o') (\<lambda>y. case y of
                 Inl e \<Rightarrow> (if tolerated e then returnE () else failE e) | Inr _ \<Rightarrow> returnE ()))
          else failE err)
     | Inr o' \<Rightarrow>
         (if \<not> isControlledBy (meta o') owner then failE (foreign o')
          else if current o' then returnE ()
          else voidE (stUpdate st (updated o')))) w1 = (Inr (), w')"
    unfolding syncChild_def by (rule tryE_E)
  show "good w' \<and> (\<exists>y. objs w' = (objs w)(k \<mapsto> y) \<and> isControlledBy (meta y) owner \<and> ok y) \<and>
     (\<forall>x. objs w k = Some x \<longrightarrow> isControlledBy (meta x) owner)"
  proof (cases g)
    case (Inl err)
    with rest have nf: "isNotFound err" by (auto split: if_splits)
    from get_fail[OF w get[unfolded Inl]] nf have w1: "good w1" "objs w1 = objs w" "objs w k = None" by simp_all
    from rest Inl nf obtain x c where x: "new = Inr x" and create: "stCreate st x w1 = (c, w')"
      and c: "case c of Inl e \<Rightarrow> tolerated e | Inr _ \<Rightarrow> True"
      by (auto split: sum.splits if_splits elim!: tryE_E)
    from new[OF x] have x': "metaKey (meta x) = k" "\<not> isDeleting (meta x)" "isControlledBy (meta x) owner" "ok x" by simp_all
    show ?thesis
    proof (cases c)
      case (Inl e)
      with c create tolerated create_exists[OF w1(1) create[unfolded Inl]] w1 x' show ?thesis by simp
    next
      case (Inr y)
      from create_ok[OF w1(1) create[unfolded Inr] x'(2)] ok[of y x] x' w1 show ?thesis by auto
    qed
  next
    case (Inr x)
    from get_ok[OF w get[unfolded Inr]] have w1: "good w1" "objs w1 = objs w" "objs w k = Some x" by simp_all
    have x: "metaKey (meta x) = k" "lingering (meta x)" using keyed[OF w w1(3)] by simp_all
    from rest Inr have mine: "isControlledBy (meta x) owner" by (auto split: if_splits)
    show ?thesis
    proof (cases "current x")
      case True
      with rest Inr mine have w': "w' = w1" by simp
      have "objs w1 = (objs w)(k \<mapsto> x)" using w1(2,3) by (simp add: fun_upd_idem)
      with w' w1(1,3) mine current[OF True] show ?thesis by (intro conjI exI[of _ x]) simp_all
    next
      case False
      with rest Inr mine obtain y where "stUpdate st (updated x) w1 = (Inr y, w')"
        by (auto simp: voidE_def elim!: bindE_InrE)
      from update_ok[OF w1(1) this] updated[OF x(1)] x mine ok[of y "updated x"] w1 show ?thesis by auto
    qed
  qed
qed

text \<open>A loop of steps over names.\<close>

lemma forE_sets:
  assumes "\<And>c. c \<in> set cs \<Longrightarrow> sets owner (mkName ns (nm c)) (ok c) (m c)"
    and "\<And>c d. c \<in> set cs \<Longrightarrow> d \<in> set cs \<Longrightarrow> nm c = nm d \<Longrightarrow> ok c = ok d"
    and "good w" and "forE m cs w = (Inr (), w')"
  shows "good w' \<and> (\<forall>c\<in>set cs. \<exists>y. objs w' (mkName ns (nm c)) = Some y \<and> isControlledBy (meta y) owner \<and> ok c y) \<and>
    (\<forall>k. k \<notin> (\<lambda>c. mkName ns (nm c)) ` set cs \<longrightarrow> objs w' k = objs w k) \<and>
    (\<forall>c\<in>set cs. \<forall>x. objs w (mkName ns (nm c)) = Some x \<longrightarrow> isControlledBy (meta x) owner)"
  using assms
proof (induction cs arbitrary: w)
  case (Cons c cs)
  from Cons.prems(4) obtain w1 where one: "m c w = (Inr (), w1)" and rest: "forE m cs w1 = (Inr (), w')"
    unfolding forE.simps by (rule bindE_unitE)
  have "sets owner (mkName ns (nm c)) (ok c) (m c)" using Cons.prems(1) by simp
  from setsD[OF this Cons.prems(3) one]
  obtain y where w1: "good w1" "objs w1 = (objs w)(mkName ns (nm c) \<mapsto> y)" and y: "isControlledBy (meta y) owner" "ok c y"
    and mine: "\<And>x. objs w (mkName ns (nm c)) = Some x \<Longrightarrow> isControlledBy (meta x) owner"
    by metis
  have IH: "good w' \<and> (\<forall>c\<in>set cs. \<exists>y. objs w' (mkName ns (nm c)) = Some y \<and> isControlledBy (meta y) owner \<and> ok c y) \<and>
    (\<forall>k. k \<notin> (\<lambda>c. mkName ns (nm c)) ` set cs \<longrightarrow> objs w' k = objs w1 k) \<and>
    (\<forall>c\<in>set cs. \<forall>x. objs w1 (mkName ns (nm c)) = Some x \<longrightarrow> isControlledBy (meta x) owner)"
    by (rule Cons.IH[OF _ _ w1(1) rest])
      (rule Cons.prems(1), simp, rule Cons.prems(2), simp_all)
  note IH1 = bspec[OF conjunct1[OF conjunct2[OF IH]]]
    and IH2 = mp[OF spec[OF conjunct1[OF conjunct2[OF conjunct2[OF IH]]]]]
    and IH3 = mp[OF spec[OF bspec[OF conjunct2[OF conjunct2[OF conjunct2[OF IH]]]]]]
  have here: "\<exists>y. objs w' (mkName ns (nm c)) = Some y \<and> isControlledBy (meta y) owner \<and> ok c y"
  proof (cases "nm c \<in> nm ` set cs")
    case True
    then obtain d where d: "d \<in> set cs" "nm c = nm d" by auto
    hence "ok c = ok d" using Cons.prems(2)[of c d] by simp
    with IH1[OF d(1)] d(2) show ?thesis by simp
  next
    case False
    hence "mkName ns (nm c) \<notin> (\<lambda>c. mkName ns (nm c)) ` set cs" by auto
    from IH2[OF this] w1(2) y show ?thesis by simp
  qed
  have others: "objs w' k = objs w k" if "k \<notin> (\<lambda>c. mkName ns (nm c)) ` set (c # cs)" for k
    using that IH2[of k] w1(2) by simp
  have before: "isControlledBy (meta x) owner" if "d \<in> set cs" "objs w (mkName ns (nm d)) = Some x" for d x
  proof (cases "nm d = nm c")
    case True
    with that(2) mine show ?thesis by simp
  next
    case False
    with that(2) have "objs w1 (mkName ns (nm d)) = Some x" using w1(2) by simp
    with IH3 that(1) show ?thesis by blast
  qed
  have all: "\<forall>d\<in>set (c # cs). \<exists>y. objs w' (mkName ns (nm d)) = Some y \<and> isControlledBy (meta y) owner \<and> ok d y"
    using IH1 here by simp
  have all_before: "\<forall>d\<in>set (c # cs). \<forall>x. objs w (mkName ns (nm d)) = Some x \<longrightarrow> isControlledBy (meta x) owner"
    using before mine by simp
  show ?case by (intro conjI conjunct1[OF IH] all all_before allI impI others)
next
  case Nil
  from Nil.prems(3,4) show ?case by simp
qed

text \<open>What deleting an object achieves.\<close>

definition deletes :: "('o \<Rightarrow> ('w, unit) prog) \<Rightarrow> bool" where
  "deletes delete \<longleftrightarrow> (\<forall>x w w'. good w \<and> delete x w = (Inr (), w') \<longrightarrow>
     good w' \<and> (\<forall>k. k \<noteq> metaKey (meta x) \<longrightarrow> objs w' k = objs w k) \<and>
     (\<forall>y. objs w' (metaKey (meta x)) = Some y \<longrightarrow> isDeleting (meta y)))"

lemma deletes_void: "deletes (\<lambda>x. voidE (stDelete st x))"
  unfolding deletes_def
proof (intro allI impI, elim conjE)
  fix x w w' assume w: "good w" and run: "voidE (stDelete st x) w = (Inr (), w')"
  from run obtain u where "stDelete st x w = (Inr u, w')"
    unfolding voidE_def by (auto elim!: bindE_InrE)
  from delete_ok[OF w this]
  show "good w' \<and> (\<forall>k. k \<noteq> metaKey (meta x) \<longrightarrow> objs w' k = objs w k) \<and>
     (\<forall>y. objs w' (metaKey (meta x)) = Some y \<longrightarrow> isDeleting (meta y))"
    by (elim conjE disjE exE) simp_all
qed

lemma deletes_ignoring: "deletes (deleteIgnoringMissing st)"
  unfolding deletes_def
proof (intro allI impI, elim conjE)
  fix x w w' assume w: "good w" and run: "deleteIgnoringMissing st x w = (Inr (), w')"
  from run obtain r where del: "stDelete st x w = (r, w')" and r: "case r of Inl e \<Rightarrow> isNotFound e | Inr _ \<Rightarrow> True"
    unfolding deleteIgnoringMissing_def by (auto elim!: tryE_E split: sum.splits if_splits)
  show "good w' \<and> (\<forall>k. k \<noteq> metaKey (meta x) \<longrightarrow> objs w' k = objs w k) \<and>
     (\<forall>y. objs w' (metaKey (meta x)) = Some y \<longrightarrow> isDeleting (meta y))"
  proof (cases r)
    case (Inl e)
    from delete_missing[OF w del[unfolded Inl]] r Inl show ?thesis by simp
  next
    case (Inr u)
    from delete_ok[OF w del[unfolded Inr]] show ?thesis by (elim conjE disjE exE) simp_all
  qed
qed

lemma forE_sweep:
  assumes "deletes delete" and "good w" and "forE (sweep meta owner names delete) xs w = (Inr (), w')"
  shows "good w' \<and>
    (\<forall>k. (\<forall>x\<in>set xs. metaKey (meta x) = k \<longrightarrow> nsName k \<in> names \<or> \<not> isControlledBy (meta x) owner) \<longrightarrow> objs w' k = objs w k) \<and>
    (\<forall>x\<in>set xs. nsName (metaKey (meta x)) \<notin> names \<and> isControlledBy (meta x) owner \<longrightarrow>
       (\<forall>y. objs w' (metaKey (meta x)) = Some y \<longrightarrow> isDeleting (meta y)))"
  using assms(2,3)
proof (induction xs arbitrary: w)
  case (Cons x xs)
  from Cons.prems(2) obtain w1 where one: "sweep meta owner names delete x w = (Inr (), w1)"
    and rest: "forE (sweep meta owner names delete) xs w1 = (Inr (), w')"
    unfolding forE.simps by (rule bindE_unitE)
  have name: "nsName (metaKey (meta x)) = omName (meta x)" for x by (simp add: metaKey_def)
  have w1: "good w1 \<and> (\<forall>k. k \<noteq> metaKey (meta x) \<or> omName (meta x) \<in> names \<or> \<not> isControlledBy (meta x) owner \<longrightarrow> objs w1 k = objs w k) \<and>
     (omName (meta x) \<notin> names \<and> isControlledBy (meta x) owner \<longrightarrow> (\<forall>y. objs w1 (metaKey (meta x)) = Some y \<longrightarrow> isDeleting (meta y)))"
    using one assms(1) Cons.prems(1) unfolding sweep_def deletes_def by (auto split: if_splits)
  note IH = Cons.IH[OF conjunct1[OF w1] rest]
  have kept: "objs w' k = objs w k"
    if "\<forall>y\<in>set (x # xs). metaKey (meta y) = k \<longrightarrow> nsName k \<in> names \<or> \<not> isControlledBy (meta y) owner" for k
  proof -
    have "objs w' k = objs w1 k" using that IH by simp
    moreover have "objs w1 k = objs w k"
    proof (cases "metaKey (meta x) = k")
      case True
      with that have "omName (meta x) \<in> names \<or> \<not> isControlledBy (meta x) owner" using name[of x] by simp
      with w1 show ?thesis by blast
    next
      case False
      with w1 show ?thesis by metis
    qed
    ultimately show ?thesis by simp
  qed
  have gone: "isDeleting (meta y)"
    if x: "nsName (metaKey (meta x)) \<notin> names" "isControlledBy (meta x) owner" and y: "objs w' (metaKey (meta x)) = Some y" for y
  proof (cases "\<exists>z\<in>set xs. metaKey (meta z) = metaKey (meta x) \<and> isControlledBy (meta z) owner")
    case True
    thus ?thesis using IH x y by metis
  next
    case False
    hence "objs w' (metaKey (meta x)) = objs w1 (metaKey (meta x))" using IH by blast
    thus ?thesis using w1 x y by (simp add: name)
  qed
  show ?case using IH kept gone by auto
qed simp

text \<open>The whole reconciliation: read the existing objects, apply the wanted ones, sweep the others.\<close>

lemma reconcile_in_sync:
  assumes w: "good w" and ns: "ns \<noteq> []"
    and list: "stList st ns w = (Inr existing, w1)" and loop: "forE m cs w1 = (Inr (), w2)"
    and swept: "forE (sweep meta owner (nm ` set cs) delete) existing w2 = (Inr (), w')"
    and delete: "deletes delete"
    and steps: "\<And>c. c \<in> set cs \<Longrightarrow> sets owner (mkName ns (nm c)) (ok c) (m c)"
    and same: "\<And>c d. c \<in> set cs \<Longrightarrow> d \<in> set cs \<Longrightarrow> nm c = nm d \<Longrightarrow> ok c = ok d"
  shows "in_sync meta owner ns (map (\<lambda>c. (nm c, ok c)) cs) (objs w) (objs w') \<and> good w'"
proof -
  from list_ok[OF w list ns] have w1: "good w1" "objs w1 = objs w"
    and existing: "set existing = {x. \<exists>k. objs w k = Some x \<and> nsNamespace k = ns}" by simp_all
  have L: "good w2 \<and> (\<forall>c\<in>set cs. \<exists>y. objs w2 (mkName ns (nm c)) = Some y \<and> isControlledBy (meta y) owner \<and> ok c y) \<and>
    (\<forall>k. k \<notin> (\<lambda>c. mkName ns (nm c)) ` set cs \<longrightarrow> objs w2 k = objs w1 k) \<and>
    (\<forall>c\<in>set cs. \<forall>x. objs w1 (mkName ns (nm c)) = Some x \<longrightarrow> isControlledBy (meta x) owner)"
    by (rule forE_sets[OF _ _ w1(1) loop]) (rule steps, assumption, rule same, assumption+)
  note S = forE_sweep[OF delete conjunct1[OF L] swept]
  note L1 = bspec[OF conjunct1[OF conjunct2[OF L]]]
    and L2 = mp[OF spec[OF conjunct1[OF conjunct2[OF conjunct2[OF L]]]]]
    and L3 = mp[OF spec[OF bspec[OF conjunct2[OF conjunct2[OF conjunct2[OF L]]]]]]
    and S1 = mp[OF spec[OF conjunct1[OF conjunct2[OF S]]]]
    and S2 = mp[OF spec[OF mp[OF bspec[OF conjunct2[OF conjunct2[OF S]]]]]]
  have wanted: "\<exists>x. objs w' (mkName ns (nm c)) = Some x \<and> isControlledBy (meta x) owner \<and> ok c x" if "c \<in> set cs" for c
  proof -
    have "nm c \<in> nm ` set cs" using that by (rule imageI)
    hence "nsName (mkName ns (nm c)) \<in> nm ` set cs" unfolding nsname.select_convs .
    hence "objs w' (mkName ns (nm c)) = objs w2 (mkName ns (nm c))" by (intro S1 ballI impI disjI1)
    with L1[OF that] show ?thesis by simp
  qed
  have other: "objs w2 k = objs w k" if k: "nsName k \<notin> nm ` set cs" for k
  proof -
    have "k \<notin> (\<lambda>c. mkName ns (nm c)) ` set cs" using k by auto
    from L2[OF this] w1(2) show ?thesis by simp
  qed
  have swept_away: "isDeleting (meta x)"
    if k: "objs w' k = Some x" "nsNamespace k = ns" "nsName k \<notin> nm ` set cs" "isControlledBy (meta x) owner" for k x
  proof (cases "\<exists>z\<in>set existing. metaKey (meta z) = k \<and> isControlledBy (meta z) owner")
    case True
    then obtain z where z: "z \<in> set existing" "metaKey (meta z) = k" "isControlledBy (meta z) owner" by blast
    show ?thesis by (rule S2[OF z(1)]) (use z k in simp_all)
  next
    case False
    hence "objs w' k = objs w2 k" by (intro S1) blast
    hence "objs w k = Some x" using other[OF k(3)] k(1) by simp
    hence "x \<in> set existing" "metaKey (meta x) = k" using existing k(2) keyed[OF w] by auto
    with False k(4) show ?thesis by blast
  qed
  have foreign: "objs w' k = Some x" if k: "objs w k = Some x" "\<not> isControlledBy (meta x) owner" for k x
  proof -
    have "k \<notin> (\<lambda>c. mkName ns (nm c)) ` set cs"
    proof
      assume "k \<in> (\<lambda>c. mkName ns (nm c)) ` set cs"
      then obtain c where c: "c \<in> set cs" "k = mkName ns (nm c)" by blast
      from L3[OF c(1), of x] k c(2) w1(2) show False by simp
    qed
    from L2[OF this] have "objs w2 k = Some x" using w1(2) k(1) by simp
    moreover have "objs w' k = objs w2 k"
    proof (intro S1 ballI impI)
      fix z assume z: "z \<in> set existing" "metaKey (meta z) = k"
      from z(1) obtain k' where "objs w k' = Some z" using existing by blast
      moreover from this have "k' = k" using keyed[OF w] z(2) by simp
      ultimately show "nsName k \<in> nm ` set cs \<or> \<not> isControlledBy (meta z) owner" using k by simp
    qed
    ultimately show ?thesis by simp
  qed
  have names: "fst ` set (map (\<lambda>c. (nm c, ok c)) cs) = nm ` set cs" by (simp add: image_image)
  show ?thesis
    unfolding in_sync_def names
  proof (intro conjI allI impI conjunct1[OF S])
    show "\<forall>(n, ok)\<in>set (map (\<lambda>c. (nm c, ok c)) cs). \<exists>x. objs w' (mkName ns n) = Some x \<and> isControlledBy (meta x) owner \<and> ok x"
      using wanted by simp
  qed (use swept_away foreign in blast)+
qed

end

end
