(* ===== verification/Children_Applied.thy ===== *)
theory Children_Applied
  imports Child_Sync Kube_Sim
begin

text \<open>
  The three reconciliations of generated children as instances of \<open>Child_Sync\<close>: the DNS records of
  Ingresses and HTTPRoutes, the port forwards of any source and the routes to cluster addresses each
  leave the children of the owner in sync with what is wanted.  The stores of \<open>Kube_Sim\<close> meet the
  laws of \<open>object_store\<close>.
\<close>

section \<open>The owner reference\<close>

text \<open>\<^verbatim>\<open>SetControllerReference\<close> adds the owner as the controller and changes nothing else.\<close>

definition ownerLaw :: "'w env \<Rightarrow> bool" where
  "ownerLaw env \<longleftrightarrow> (\<forall>kind owner m m'. kSetOwner env kind owner m = Inr m' \<longrightarrow>
     isControlledBy m' owner \<and> (\<exists>refs. m' = m\<lparr>omOwnerReferences := refs\<rparr>))"

lemma ownerLawD:
  assumes "ownerLaw env" and "kSetOwner env kind owner m = Inr m'"
  shows "isControlledBy m' owner" and "metaKey m' = metaKey m" and "isDeleting m' = isDeleting m"
    and "omLabels m' = omLabels m" and "omAnnotations m' = omAnnotations m"
proof -
  from assms obtain refs where "isControlledBy m' owner" and "m' = m\<lparr>omOwnerReferences := refs\<rparr>"
    unfolding ownerLaw_def by blast
  thus "isControlledBy m' owner" "metaKey m' = metaKey m" "isDeleting m' = isDeleting m"
    "omLabels m' = omLabels m" "omAnnotations m' = omAnnotations m"
    by (simp_all add: metaKey_def isDeleting_def)
qed

lemma case_sum_Inl_InrE:
  assumes "(case s of Inl e \<Rightarrow> Inl e | Inr m \<Rightarrow> Inr (f m)) = Inr x"
  obtains m where "s = Inr m"
  using assms by (cases s) simp_all

lemma newMeta_alive [simp]:
  "\<not> isDeleting (newMeta ns n)" "metaKey (newMeta ns n) = mkName ns n"
  "\<not> isDeleting ((newMeta ns n)\<lparr>omLabels := l\<rparr>)" "metaKey ((newMeta ns n)\<lparr>omLabels := l\<rparr>) = mkName ns n"
  "\<not> isDeleting ((newMeta ns n)\<lparr>omLabels := l, omAnnotations := a\<rparr>)"
  "metaKey ((newMeta ns n)\<lparr>omLabels := l, omAnnotations := a\<rparr>) = mkName ns n"
  by (simp_all add: newMeta_def emptyMeta_def isDeleting_def metaKey_def)

lemma controlled_cong: "omOwnerReferences m = omOwnerReferences m' \<Longrightarrow> isControlledBy m o' = isControlledBy m' o'"
  by (simp add: isControlledBy_def controllerOf_def)

section \<open>Contents\<close>

text \<open>What of an object the API server keeps as it is written.\<close>

definition dnsCore :: "dnsRecord \<Rightarrow> ownerRef list \<times> strmap \<times> strmap \<times> dnsSpec" where
  "dnsCore r = (omOwnerReferences (dnsMeta r), omLabels (dnsMeta r), omAnnotations (dnsMeta r), dnsSpecOf r)"

definition forwardCore :: "portForward \<Rightarrow> ownerRef list \<times> strmap \<times> strmap \<times> portForwardSpec" where
  "forwardCore f = (omOwnerReferences (pfMeta f), omLabels (pfMeta f), omAnnotations (pfMeta f), pfSpecOf f)"

definition routeCore :: "route \<Rightarrow> ownerRef list \<times> strmap \<times> strmap \<times> routeSpec" where
  "routeCore r = (omOwnerReferences (routeMeta r), omLabels (routeMeta r), omAnnotations (routeMeta r), routeSpecOf r)"

lemmas cores = dnsCore_def forwardCore_def routeCore_def

text \<open>A record is as wanted: its service is the one of the update or that of the creation.\<close>

definition recordWanted :: "string \<Rightarrow> dnsChild \<Rightarrow> dnsRecord \<Rightarrow> bool" where
  "recordWanted routerRef c r \<longleftrightarrow> childCurrent routerRef c r \<or> childCurrent routerRef (c\<lparr>chRef := chNewRef c\<rparr>) r"

definition routeWanted :: "clusterRouteRequest \<Rightarrow> clusterRouteCandidate \<Rightarrow> route \<Rightarrow> bool" where
  "routeWanted req c r \<longleftrightarrow>
     osRouterRef (routeSpecOf r) = crRouterRef req \<and> osDestination (routeSpecOf r) = ccDestination c \<and>
     osGateway (routeSpecOf r) = ccGateway c \<and> mget (omLabels (routeMeta r)) clusterRouteOriginLabel = ccOrigin c"

section \<open>DNS records\<close>

lemma applyDNSChild_sync:
  "applyDNSChild env owner notOwned rr c =
     syncChild (kDNS env) dnsMeta (mkName (omNamespace (ooMeta owner)) (chName c)) (ooMeta owner) (\<lambda>_. False)
       (case kSetOwner env (kindName (ooKind owner)) (ooMeta owner)
               ((newMeta (omNamespace (ooMeta owner)) (chName c))\<lparr>omLabels := chLabels c\<rparr>) of
          Inl e \<Rightarrow> Inl e
        | Inr m \<Rightarrow> Inr \<lparr>dnsMeta = m,
            dnsSpecOf = (recordSpec rr (chHost c) (chAddress c))\<lparr>dsServiceRef := Some (chNewRef c)\<rparr>,
            dnsStatusOf = emptyDNSStatus\<rparr>)
       (\<lambda>r. notOwned (dnsMeta r)) (childCurrent rr c)
       (\<lambda>r. r\<lparr>dnsSpecOf := (dnsSpecOf r)\<lparr>dsRouterRef := rr, dsName := chHost c,
                       dsAddress := chAddress c, dsServiceRef := Some (chRef c)\<rparr>\<rparr>)"
  unfolding applyDNSChild_def syncChild_def Let_def
  by (rule arg_cong[where f = "tryE _"], rule ext)
     (auto simp: liftSum_def voidE_def bindE_def tryE_def fun_eq_iff split: sum.split prod.split)

lemma applyDNSChild_sets:
  assumes st: "object_store (kDNS env) dnsMeta dnsCore objs good" and law: "ownerLaw env"
  shows "object_store.sets dnsMeta objs good (ooMeta owner) (mkName (omNamespace (ooMeta owner)) (chName c))
     (recordWanted rr c) (applyDNSChild env owner notOwned rr c)"
  unfolding applyDNSChild_sync
proof (rule object_store.syncChild_sets[OF st], goal_cases)
  case (2 x y)
  thus ?case using controlled_cong[of "dnsMeta x" "dnsMeta y"] by (simp add: dnsCore_def recordWanted_def childCurrent_def)
next
  case (3 x)
  from 3 obtain m where m: "kSetOwner env (kindName (ooKind owner)) (ooMeta owner)
       ((newMeta (omNamespace (ooMeta owner)) (chName c))\<lparr>omLabels := chLabels c\<rparr>) = Inr m"
    by (rule case_sum_Inl_InrE)
  from 3 have x: "x = \<lparr>dnsMeta = m, dnsSpecOf = (recordSpec rr (chHost c) (chAddress c))\<lparr>dsServiceRef := Some (chNewRef c)\<rparr>,
            dnsStatusOf = emptyDNSStatus\<rparr>"
    unfolding m sum.case by (rule sym[OF iffD1[OF sum.inject(2)]])
  from ownerLawD[OF law m] show ?case
    by (simp add: x recordWanted_def childCurrent_def recordSpec_def)
qed (auto simp: recordWanted_def childCurrent_def)

section \<open>Port forwards\<close>

lemma applyForward_sync:
  "applyForward env req c =
     syncChild (kForwards env) pfMeta (mkName (pqNamespace req) (fcName c)) (ooMeta (pqOwner req)) isAlreadyExists
       (newForwardChild env req c) (\<lambda>f. notOwnedErr ''port forward'' (pfMeta f) (pqOwner req))
       (forwardCurrent req c) (updatedForwardChild req c)"
  unfolding applyForward_def syncChild_def
  by (rule arg_cong[where f = "tryE _"], rule ext)
     (auto simp: liftSum_def bindE_def tryE_def fun_eq_iff split: sum.split prod.split)

lemma applyForward_sets:
  assumes st: "object_store (kForwards env) pfMeta forwardCore objs good" and law: "ownerLaw env"
  shows "object_store.sets pfMeta objs good (ooMeta (pqOwner req)) (mkName (pqNamespace req) (fcName c))
     (forwardCurrent req c) (applyForward env req c)"
  unfolding applyForward_sync
proof (rule object_store.syncChild_sets[OF st], goal_cases)
  case (2 x y)
  thus ?case using controlled_cong[of "pfMeta x" "pfMeta y"] by (simp add: forwardCore_def forwardCurrent_def)
next
  case (3 x)
  from 3 obtain m where m: "kSetOwner env (kindName (ooKind (pqOwner req))) (ooMeta (pqOwner req))
       ((newMeta (pqNamespace req) (fcName c))\<lparr>omLabels := [(forwardSourceLabel,
                   shortHash (omNamespace (ooMeta (pqOwner req)) @ ''/'' @ pqSourceName req))],
                 omAnnotations := [(PublicIPAnnotation, pqPublicIP req)]\<rparr>) = Inr m"
    unfolding newForwardChild_def Let_def by (rule case_sum_Inl_InrE)
  from 3 have x: "x = \<lparr>pfMeta = m, pfSpecOf = childSpec req c, pfStatusOf = emptyForwardStatus\<rparr>"
    unfolding newForwardChild_def Let_def m sum.case by (rule sym[OF iffD1[OF sum.inject(2)]])
  from ownerLawD[OF law m] show ?case
    by (simp add: x forwardCurrent_def childSpec_def)
next
  case (5 x)
  thus ?case
    by (simp add: updatedForwardChild_def forwardCurrent_def metaKey_def lingering_def isDeleting_def isControlledBy_def controllerOf_def)
qed simp_all

section \<open>Routes\<close>

lemma applyCandidate_sync:
  "\<exists>foreign. applyCandidate env req c =
     syncChild (kRoutes env) routeMeta (mkName (crNamespace req) (ccName c)) (ooMeta (crOwner req)) isAlreadyExists
       (newClusterRoute env req c) foreign (routeWanted req c) (updatedClusterRoute req c)"
  unfolding applyCandidate_def syncChild_def routeWanted_def by (rule exI) (rule refl)

lemma applyCandidate_sets:
  assumes st: "object_store (kRoutes env) routeMeta routeCore objs good" and law: "ownerLaw env"
  shows "object_store.sets routeMeta objs good (ooMeta (crOwner req)) (mkName (crNamespace req) (ccName c))
     (routeWanted req c) (applyCandidate env req c)"
proof -
  obtain foreign where eq: "applyCandidate env req c =
     syncChild (kRoutes env) routeMeta (mkName (crNamespace req) (ccName c)) (ooMeta (crOwner req)) isAlreadyExists
       (newClusterRoute env req c) foreign (routeWanted req c) (updatedClusterRoute req c)"
    using applyCandidate_sync by blast
  show ?thesis
    unfolding eq
  proof (rule object_store.syncChild_sets[OF st], goal_cases)
    case (2 x y)
    thus ?case using controlled_cong[of "routeMeta x" "routeMeta y"] by (simp add: routeCore_def routeWanted_def)
  next
    case (3 x)
    from 3 obtain m where m: "kSetOwner env (kindName (ooKind (crOwner req))) (ooMeta (crOwner req))
         ((newMeta (crNamespace req) (ccName c))\<lparr>omLabels :=
            [(clusterRouteSourceLabel, clusterRouteSourceValue (crNamespace req) (crSourceName req)),
             (clusterRouteOriginLabel, ccOrigin c)]\<rparr>) = Inr m"
      unfolding newClusterRoute_def Let_def by (rule case_sum_Inl_InrE)
    from 3 have x: "x = \<lparr>routeMeta = m,
             routeSpecOf = \<lparr>osRouterRef = crRouterRef req, osDestination = ccDestination c,
                            osGateway = ccGateway c, osDistance = 0\<rparr>,
             routeStatusOf = emptyRouteStatus\<rparr>"
      unfolding newClusterRoute_def Let_def m sum.case by (rule sym[OF iffD1[OF sum.inject(2)]])
    have "clusterRouteOriginLabel \<noteq> clusterRouteSourceLabel"
      by (simp add: clusterRouteOriginLabel_def clusterRouteSourceLabel_def)
    with ownerLawD[OF law m] show ?case
      by (simp add: x routeWanted_def)
  next
    case (5 x)
    thus ?case
      by (simp add: updatedClusterRoute_def routeWanted_def metaKey_def lingering_def isDeleting_def isControlledBy_def controllerOf_def)
  qed simp_all
qed

section \<open>Stores in memory\<close>

lemma find_distinct:
  "distinct (map f xs) \<Longrightarrow> find (\<lambda>x. f x = k) xs = Some x \<longleftrightarrow> x \<in> set xs \<and> f x = k"
  by (induction xs) (auto simp: rev_image_eqI)

lemma find_append_new:
  "find P (xs @ [y]) = (case find P xs of None \<Rightarrow> if P y then Some y else None | Some x \<Rightarrow> Some x)"
  by (induction xs) auto

lemma find_replace:
  assumes "distinct (map f xs)" and "list_all P xs"
  shows "find (\<lambda>x. f x = k) (filter P (map (\<lambda>x. if f x = f new then new else x) xs)) =
     (if k = f new then (if P new then map_option (\<lambda>_. new) (find (\<lambda>x. f x = k) xs) else None)
      else find (\<lambda>x. f x = k) xs)"
  using assms
proof (induction xs)
  case (Cons x xs)
  have none: "find (\<lambda>y. f y = f x) xs = None" using Cons.prems(1) by (force simp: find_None_iff image_iff)
  show ?case using Cons none by (cases "f x = f new") (auto split: if_splits)
qed simp

lemma distinct_replace:
  "distinct (map f xs) \<Longrightarrow> distinct (map f (filter P (map (\<lambda>x. if f x = f new then new else x) xs)))"
proof -
  assume d: "distinct (map f xs)"
  have "map f (map (\<lambda>x. if f x = f new then new else x) xs) = map f xs" by simp
  with d show ?thesis by (metis distinct_map_filter)
qed

definition memGood :: "('w, 'o) memKind \<Rightarrow> 'w \<Rightarrow> bool" where
  "memGood mk w \<longleftrightarrow> distinct (map (memKey mk) (mkObjects mk w)) \<and> list_all (\<lambda>x. lingering (mkMeta mk x)) (mkObjects mk w)"

definition memObjects :: "('w, 'o) memKind \<Rightarrow> 'w \<Rightarrow> 'o objects" where
  "memObjects mk w k = memFind mk k w"

lemma memCollect_lingering: "memCollect mk xs = filter (\<lambda>x. lingering (mkMeta mk x)) xs"
  by (auto simp: memCollect_def lingering_def intro: filter_cong)

text \<open>What the laws need of a kind.\<close>

definition memKindLaws :: "('w, 'o) memKind \<Rightarrow> ('o \<Rightarrow> 'c) \<Rightarrow> bool" where
  "memKindLaws mk core \<longleftrightarrow> (\<forall>xs w. mkObjects mk (mkPut mk xs w) = xs) \<and> (\<forall>m x. mkMeta mk (mkSetMeta mk m x) = m) \<and>
     (\<forall>x. mkMeta mk (mkBlank mk x) = mkMeta mk x \<and> core (mkBlank mk x) = core x) \<and>
     (\<forall>x y. mkMeta mk (mkMerge mk x y) = mkMeta mk x \<and> core (mkMerge mk x y) = core x)"

lemma memReplace_objects:
  assumes laws: "memKindLaws mk core" and w: "memGood mk w"
  shows "memGood mk (memReplace mk new w)"
    and "memObjects mk (memReplace mk new w) =
      (if memObjects mk w (memKey mk new) = None then memObjects mk w
       else (memObjects mk w)(memKey mk new := (if lingering (mkMeta mk new) then Some new else None)))"
proof -
  let ?xs = "filter (\<lambda>x. lingering (mkMeta mk x)) (map (\<lambda>x. if memKey mk x = memKey mk new then new else x) (mkObjects mk w))"
  have xs: "mkObjects mk (memReplace mk new w) = ?xs"
    using laws by (simp add: memReplace_def memCollect_lingering memKindLaws_def)
  have d: "distinct (map (memKey mk) (mkObjects mk w))" and l: "list_all (\<lambda>x. lingering (mkMeta mk x)) (mkObjects mk w)"
    using w by (simp_all add: memGood_def)
  show "memGood mk (memReplace mk new w)"
    using distinct_replace[OF d] by (auto simp: memGood_def xs list_all_iff)
  show "memObjects mk (memReplace mk new w) =
      (if memObjects mk w (memKey mk new) = None then memObjects mk w
       else (memObjects mk w)(memKey mk new := (if lingering (mkMeta mk new) then Some new else None)))"
    by (rule ext) (auto simp: memObjects_def memFind_def xs find_replace[OF d l])
qed

lemma memStore_objects:
  assumes laws: "memKindLaws mk core"
  shows "object_store (memStore mk) (mkMeta mk) core (memObjects mk) (memGood mk)"
proof
  fix w k x assume w: "memGood mk w" and x: "memObjects mk w k = Some x"
  from x have "x \<in> set (mkObjects mk w)" "memKey mk x = k"
    unfolding memObjects_def memFind_def by (auto elim!: find_SomeE)
  with w show "metaKey (mkMeta mk x) = k \<and> lingering (mkMeta mk x)"
    by (simp add: memGood_def memKey_def list_all_iff)
next
  fix w k x w' assume "memGood mk w" "stGet (memStore mk) k w = (Inr x, w')"
  thus "memGood mk w' \<and> memObjects mk w' = memObjects mk w \<and> memObjects mk w k = Some x"
    by (auto simp: memStore_def memObjects_def split: option.splits)
next
  fix w k e w' assume "memGood mk w" "stGet (memStore mk) k w = (Inl e, w')"
  thus "memGood mk w' \<and> memObjects mk w' = memObjects mk w \<and> (isNotFound e \<longrightarrow> memObjects mk w k = None)"
    by (auto simp: memStore_def memObjects_def split: option.splits)
next
  fix w ns xs w' assume w: "memGood mk w" and "stList (memStore mk) ns w = (Inr xs, w')" and "ns \<noteq> []"
  hence xs: "w' = w" "set xs = {x \<in> set (mkObjects mk w). omNamespace (mkMeta mk x) = ns}"
    by (auto simp: memStore_def)
  have "memObjects mk w k = Some x \<longleftrightarrow> x \<in> set (mkObjects mk w) \<and> memKey mk x = k" for k x
    using w by (simp add: memObjects_def memFind_def memGood_def find_distinct)
  thus "memGood mk w' \<and> memObjects mk w' = memObjects mk w \<and> set xs = {x. \<exists>k. memObjects mk w k = Some x \<and> nsNamespace k = ns}"
    using w xs by (auto simp: memKey_def metaKey_def)
next
  fix w x y w' assume w: "memGood mk w" and c: "stCreate (memStore mk) x w = (Inr y, w')" and x: "\<not> isDeleting (mkMeta mk x)"
  from c have none: "memFind mk (memKey mk x) w = None" and y: "y = mkBlank mk x"
    and w': "w' = mkPut mk (mkObjects mk w @ [mkBlank mk x]) w"
    by (auto simp: memStore_def split: option.splits)
  have os: "mkObjects mk w' = mkObjects mk w @ [y]" and m: "mkMeta mk y = mkMeta mk x" "core y = core x"
    using laws by (simp_all add: w' y memKindLaws_def)
  have "memObjects mk w' = (memObjects mk w)(memKey mk x \<mapsto> y)"
    using none by (intro ext) (auto simp: memObjects_def memFind_def os find_append_new memKey_def m split: option.split)
  moreover have "memGood mk w'"
    using w none x by (auto simp: memGood_def os memKey_def m lingering_def memFind_def find_None_iff)
  ultimately show "memGood mk w' \<and> memObjects mk w' = (memObjects mk w)(metaKey (mkMeta mk x) \<mapsto> y) \<and> core y = core x"
    by (simp add: memKey_def m)
next
  fix w x e w' assume "memGood mk w" "stCreate (memStore mk) x w = (Inl e, w')" "isAlreadyExists e"
  thus "memObjects mk w (metaKey (mkMeta mk x)) \<noteq> None"
    by (auto simp: memStore_def memObjects_def memKey_def split: option.splits)
next
  fix w x y w' assume w: "memGood mk w" and u: "stUpdate (memStore mk) x w = (Inr y, w')" and x: "lingering (mkMeta mk x)"
  from u obtain old where old: "memFind mk (memKey mk x) w = Some old" and y: "y = mkMerge mk x old"
    and w': "w' = memReplace mk y w"
    by (auto simp: memStore_def split: option.splits)
  have m: "mkMeta mk y = mkMeta mk x" "core y = core x" using laws by (simp_all add: y memKindLaws_def)
  have k: "memKey mk y = memKey mk x" "metaKey (mkMeta mk x) = memKey mk x" by (simp_all add: memKey_def m)
  show "memGood mk w' \<and> memObjects mk w' = (memObjects mk w)(metaKey (mkMeta mk x) \<mapsto> y) \<and> core y = core x"
    using memReplace_objects[OF laws w, of y] old x by (simp add: w' k m memObjects_def[of _ _ "memKey mk x"])
next
  fix w x u w' assume w: "memGood mk w" and d: "stDelete (memStore mk) x w = (Inr u, w')"
  from d obtain old where old: "memFind mk (memKey mk x) w = Some old"
    and w': "w' = memReplace mk (mkSetMeta mk ((mkMeta mk old)\<lparr>omDeletionTimestamp := Some 0\<rparr>) old) w"
    by (auto simp: memStore_def memDelete_def split: option.splits)
  let ?new = "mkSetMeta mk ((mkMeta mk old)\<lparr>omDeletionTimestamp := Some 0\<rparr>) old"
  have m: "mkMeta mk ?new = (mkMeta mk old)\<lparr>omDeletionTimestamp := Some 0\<rparr>" using laws by (simp add: memKindLaws_def)
  have "memKey mk old = memKey mk x" using old by (auto simp: memFind_def elim!: find_SomeE)
  hence k: "memKey mk ?new = memKey mk x" "metaKey (mkMeta mk x) = memKey mk x"
    by (simp_all add: memKey_def metaKey_def m)
  have "isDeleting (mkMeta mk ?new)" by (simp add: m isDeleting_def)
  thus "memGood mk w' \<and> (memObjects mk w' = (memObjects mk w)(metaKey (mkMeta mk x) := None) \<or>
        (\<exists>y. memObjects mk w' = (memObjects mk w)(metaKey (mkMeta mk x) \<mapsto> y) \<and> isDeleting (mkMeta mk y)))"
    using memReplace_objects[OF laws w, of ?new] old by (auto simp: w' k memObjects_def[of _ _ "memKey mk x"])
next
  fix w x e w' assume "memGood mk w" "stDelete (memStore mk) x w = (Inl e, w')" "isNotFound e"
  thus "memGood mk w' \<and> memObjects mk w' = memObjects mk w \<and> memObjects mk w (metaKey (mkMeta mk x)) = None"
    by (auto simp: memStore_def memDelete_def memObjects_def memKey_def split: option.splits)
qed

lemma sim_kind_laws: "memKindLaws dnsKind dnsCore" "memKindLaws forwardKind forwardCore" "memKindLaws routeKind routeCore"
  by (simp_all add: memKindLaws_def kinds cores)

interpretation records: object_store "kDNS simEnv" dnsMeta dnsCore "memObjects dnsKind" "memGood dnsKind"
  using memStore_objects[OF sim_kind_laws(1)] by (simp add: dnsKind_def)

interpretation forwards: object_store "kForwards simEnv" pfMeta forwardCore "memObjects forwardKind" "memGood forwardKind"
  using memStore_objects[OF sim_kind_laws(2)] by (simp add: forwardKind_def)

interpretation routes: object_store "kRoutes simEnv" routeMeta routeCore "memObjects routeKind" "memGood routeKind"
  using memStore_objects[OF sim_kind_laws(3)] by (simp add: routeKind_def)

lemma sim_ownerLaw: "ownerLaw simEnv"
proof -
  have "isControlledBy m' owner \<and> (\<exists>refs. m' = m\<lparr>omOwnerReferences := refs\<rparr>)" if "simOwner kind owner m = Inr m'" for kind owner m m'
    using that by (auto simp: simOwner_def isControlledBy_def controllerOf_def find_append_new split: if_splits)
  thus ?thesis by (simp add: ownerLaw_def simEnv_def)
qed

section \<open>Children in sync\<close>

lemma record_step:
  assumes "object_store (kDNS env) dnsMeta dnsCore objs good" and "good w" and "omNamespace (ooMeta owner) \<noteq> []"
    and "ownerLaw env" and "distinct (map chName cs)"
    and run: "reconcileDNSChildren env owner notOwned rr cs w = (Inr (), w')"
  shows "in_sync dnsMeta (ooMeta owner) (omNamespace (ooMeta owner)) (map (\<lambda>c. (chName c, recordWanted rr c)) cs) (objs w) (objs w') \<and> good w'"
proof -
  from run obtain existing w1 w2 where list: "stList (kDNS env) (omNamespace (ooMeta owner)) w = (Inr existing, w1)"
    and loop: "forE (applyDNSChild env owner notOwned rr) cs w1 = (Inr (), w2)"
    and swept: "forE (sweep dnsMeta (ooMeta owner) (chName ` set cs) (\<lambda>r. voidE (stDelete (kDNS env) r))) existing w2 = (Inr (), w')"
    unfolding reconcileDNSChildren_def sweep_def by (elim bindE_InrE) simp
  show ?thesis
    by (rule object_store.reconcile_in_sync[OF assms(1,2,3) list loop swept object_store.deletes_void[OF assms(1)]])
       (rule applyDNSChild_sets[OF assms(1,4)], use assms(5) in \<open>auto simp: distinct_map inj_on_def\<close>)
qed

lemma forward_step:
  assumes "object_store (kForwards env) pfMeta forwardCore objs good" and "good w" and "pqNamespace req \<noteq> []"
    and "ownerLaw env" and "pqPrepared req" and "distinct (map fcName (pqCandidates req))"
    and run: "reconcileServicePortForwards env req w = (Inr (), w')"
  shows "in_sync pfMeta (ooMeta (pqOwner req)) (pqNamespace req) (map (\<lambda>c. (fcName c, forwardCurrent req c)) (pqCandidates req)) (objs w) (objs w') \<and> good w'"
proof -
  have prep: "preparePortForwardReconcileRequest env req = returnE req"
    using assms(5) by (simp add: preparePortForwardReconcileRequest_def)
  from run obtain existing w1 w2 where list: "stList (kForwards env) (pqNamespace req) w = (Inr existing, w1)"
    and loop: "forE (applyForward env req) (pqCandidates req) w1 = (Inr (), w2)"
    and swept: "forE (sweep pfMeta (ooMeta (pqOwner req)) (fcName ` set (pqCandidates req)) (deleteIgnoringMissing (kForwards env))) existing w2 = (Inr (), w')"
    unfolding reconcileServicePortForwards_def prep bindE_returnE sweep_def by (elim bindE_InrE) simp
  show ?thesis
    by (rule object_store.reconcile_in_sync[OF assms(1,2,3) list loop swept object_store.deletes_ignoring[OF assms(1)]])
       (rule applyForward_sets[OF assms(1,4)], use assms(6) in \<open>auto simp: distinct_map inj_on_def\<close>)
qed

text \<open>The candidates of routes have distinct names by construction.\<close>

lemma addCandidates_distinct:
  "distinct (map ccName acc) \<Longrightarrow> distinct (map ccName (addCandidates acc cs))"
  by (induction acc cs rule: addCandidates.induct) auto

lemma candidatesFrom_distinct:
  "candidatesFrom env req acc ss w = (Inr cs, w') \<Longrightarrow> distinct (map ccName acc) \<Longrightarrow> distinct (map ccName cs)"
  by (induction env req acc ss arbitrary: w rule: candidatesFrom.induct)
     (auto elim!: bindE_InrE dest: addCandidates_distinct split: if_splits)

lemma route_step:
  assumes "object_store (kRoutes env) routeMeta routeCore objs good" and "good w" and "crNamespace req \<noteq> []" and "ownerLaw env"
    and reads: "\<And>r w'. desiredClusterRouteCandidates env req w = (r, w') \<Longrightarrow> good w' \<and> objs w' = objs w"
    and run: "reconcileOwnedClusterRoutes env req w = (Inr (), w')"
  shows "\<exists>cs w1. desiredClusterRouteCandidates env req w = (Inr cs, w1) \<and>
    in_sync routeMeta (ooMeta (crOwner req)) (crNamespace req) (map (\<lambda>c. (ccName c, routeWanted req c)) cs) (objs w) (objs w') \<and> good w'"
proof -
  have loop_eq: "(\<lambda>r. if omName (routeMeta r) \<in> ccName ` set cs \<or> \<not> isControlledBy (routeMeta r) (ooMeta (crOwner req))
             then returnE () else deleteIgnoringMissing (kRoutes env) r)
     = sweep routeMeta (ooMeta (crOwner req)) (ccName ` set cs) (deleteIgnoringMissing (kRoutes env))" for cs
    by (auto simp: sweep_def fun_eq_iff)
  from run obtain cs existing w0 w1 w2 where cs: "desiredClusterRouteCandidates env req w = (Inr cs, w0)"
    and list: "stList (kRoutes env) (crNamespace req) w0 = (Inr existing, w1)"
    and loop: "forE (applyCandidate env req) cs w1 = (Inr (), w2)"
    and swept: "forE (sweep routeMeta (ooMeta (crOwner req)) (ccName ` set cs) (deleteIgnoringMissing (kRoutes env))) existing w2 = (Inr (), w')"
    unfolding reconcileOwnedClusterRoutes_def loop_eq by (elim bindE_InrE) simp
  have w0: "good w0" "objs w0 = objs w" using reads[OF cs] by simp_all
  have d: "distinct (map ccName cs)"
    using candidatesFrom_distinct[OF cs[unfolded desiredClusterRouteCandidates_def]] by simp
  have "in_sync routeMeta (ooMeta (crOwner req)) (crNamespace req) (map (\<lambda>c. (ccName c, routeWanted req c)) cs) (objs w0) (objs w') \<and> good w'"
    by (rule object_store.reconcile_in_sync[OF assms(1) w0(1) assms(3) list loop swept object_store.deletes_ignoring[OF assms(1)]])
       (rule applyCandidate_sets[OF assms(1,4)], use d in \<open>auto simp: distinct_map inj_on_def\<close>)
  with cs w0(2) show ?thesis by auto
qed

text \<open>Reading for the candidates changes nothing, if reads do not.\<close>

definition unchanged :: "('w \<Rightarrow> 'o objects) \<Rightarrow> ('w \<Rightarrow> bool) \<Rightarrow> 'w \<Rightarrow> 'w \<Rightarrow> bool" where
  "unchanged objs good w w' \<longleftrightarrow> (good w \<longrightarrow> good w' \<and> objs w' = objs w)"

lemma candidates_unchanged:
  assumes "read_frame (unchanged objs good) good env" and "good w"
    and "desiredClusterRouteCandidates env req w = (r, w')"
  shows "good w' \<and> objs w' = objs w"
  using keepsD[OF read_frame.keeps_candidatesFrom[OF assms(1)] assms(3)[unfolded desiredClusterRouteCandidates_def]] assms(2)
  by (simp add: unchanged_def)

lemma sim_reads_unchanged: "read_frame (unchanged (memObjects mk) (memGood mk)) (memGood mk) simEnv"
  by unfold_locales (auto simp: unchanged_def sim_reads memStore_reads)

end
