(* ===== verification/Children_Properties.thy ===== *)
theory Children_Properties
  imports Children_Applied Reconcile_Properties
begin

text \<open>
  The properties of the reconciliations of generated children, with their runs on the cluster of
  \<open>Kube_Sim\<close>.
\<close>

section \<open>A cluster with children\<close>

definition labOwner :: ownerObj where
  "labOwner = \<lparr>ooKind = OwnIngress, ooTypeKind = ''*v1.Ingress'', ooMeta = labMeta ''shop''\<rparr>"

text \<open>The metadata of a child of that owner.\<close>

definition childMeta :: "string \<Rightarrow> objectMeta" where
  "childMeta n = (newMeta ''lab'' n)\<lparr>omOwnerReferences :=
     [\<lparr>orAPIVersion = ''v1'', orKind = ''Ingress'', orName = ''shop'', orUID = ''uid-shop'', orController = Some True\<rparr>]\<rparr>"

definition wantedRecord :: dnsChild where
  "wantedRecord = \<lparr>chName = ''shop-web'', chLabels = [], chHost = ''web.lab'', chAddress = ''10.96.0.5'',
     chNewRef = mkName ''lab'' ''front'', chRef = mkName ''lab'' ''front''\<rparr>"

definition staleRecord :: dnsRecord where
  "staleRecord = labDNS\<lparr>dnsMeta := (childMeta ''shop-old'')\<lparr>omFinalizers := [resourceFinalizer]\<rparr>\<rparr>"

definition staleRoute :: route where
  "staleRoute = labRoute\<lparr>routeMeta := childMeta ''rt-old''\<rparr>"

definition wantedForward :: forwardCandidate where
  "wantedForward = \<lparr>fcName = ''pf-web'', fcService = mkName ''lab'' ''front'', fcProtocol = ''tcp'', fcExternalPort = 443,
     fcTargetAddress = [], fcTargetPort = 8443\<rparr>"

definition forwardsWanted :: forwardRequest where
  "forwardsWanted = \<lparr>pqOwner = labOwner, pqSourceName = ''shop'', pqNamespace = ''lab'', pqPublicIP = ''203.0.113.9'',
     pqRouterRef = ''home'', pqServices = [], pqServicePorts = [], pqRequireSelectedPorts = False,
     pqPrepared = True, pqCandidates = [wantedForward]\<rparr>"

definition routesWanted :: clusterRouteRequest where
  "routesWanted = \<lparr>crOwner = labOwner, crSourceName = ''shop'', crNamespace = ''lab'', crRouterRef = ''home'', crServices = []\<rparr>"

definition childLab :: cluster where
  "childLab = lab\<lparr>clDNS := [labDNS, staleRecord],
     clForwards := [labForward\<lparr>pfMeta := childMeta ''pf-web''\<rparr>, labForward\<lparr>pfMeta := childMeta ''pf-old''\<rparr>, labForward],
     clRoutes := [staleRoute, labRoute]\<rparr>"

definition noErr :: "objectMeta \<Rightarrow> goerr" where
  "noErr _ = Opaque ''not owned''"

lemma childLab_good: "memGood dnsKind childLab" "memGood forwardKind childLab" "memGood routeKind childLab"
  by code_simp+

lemma childLab_runs:
  "fst (reconcileDNSChildren simEnv labOwner noErr ''home'' [wantedRecord] childLab) = Inr ()"
  "fst (reconcileServicePortForwards simEnv forwardsWanted childLab) = Inr ()"
  "fst (reconcileOwnedClusterRoutes simEnv routesWanted childLab) = Inr ()"
  by code_simp+

lemma run_end: "fst p = r \<Longrightarrow> p = (r, snd p)"
  by (cases p) simp

section \<open>In sync\<close>



text \<open>
  C23.  A pass over the port forwards of a Service, Ingress or HTTPRoute that succeeds leaves them in
  sync with the candidates of the prepared request; the pod reference of an existing forward is kept.
\<close>

theorem forward_children_in_sync:
  assumes "object_store (kForwards env) pfMeta forwardCore objs good" and "good w" and "pqNamespace req \<noteq> []"
    and "ownerLaw env" and "pqPrepared req" and "distinct (map fcName (pqCandidates req))"
    and "reconcileServicePortForwards env req w = (Inr (), w')"
  shows "in_sync pfMeta (ooMeta (pqOwner req)) (pqNamespace req)
     (map (\<lambda>c. (fcName c, forwardCurrent req c)) (pqCandidates req)) (objs w) (objs w') \<and> good w'"
  by (rule forward_step[OF assms])

theorem forward_children_in_sync_witness:
  "in_sync pfMeta (ooMeta labOwner) ''lab'' [(''pf-web'', forwardCurrent forwardsWanted wantedForward)]
     (memObjects forwardKind childLab) (memObjects forwardKind (snd (reconcileServicePortForwards simEnv forwardsWanted childLab))) \<and>
   map (\<lambda>f. (omName (pfMeta f), psExternalPort (pfSpecOf f))) (clForwards (snd (reconcileServicePortForwards simEnv forwardsWanted childLab)))
     = [(''pf-web'', 443), (''web'', 8443)]"
proof
  have "pqNamespace forwardsWanted = ''lab''" "pqOwner forwardsWanted = labOwner" "pqPrepared forwardsWanted"
    "pqCandidates forwardsWanted = [wantedForward]" "fcName wantedForward = ''pf-web''"
    by (simp_all add: forwardsWanted_def wantedForward_def)
  with forward_children_in_sync[OF forwards.object_store_axioms childLab_good(2) _ sim_ownerLaw _ _ run_end[OF childLab_runs(2)]]
  show "in_sync pfMeta (ooMeta labOwner) ''lab'' [(''pf-web'', forwardCurrent forwardsWanted wantedForward)]
     (memObjects forwardKind childLab) (memObjects forwardKind (snd (reconcileServicePortForwards simEnv forwardsWanted childLab)))"
    by simp
qed code_simp

text \<open>
  C24.  A pass over the routes of an owner that succeeds leaves them in sync with the candidates it
  computed, whose names are distinct by construction: one route per service address and gateway, with
  its origin, and no other route of the owner that is not being deleted.
\<close>

theorem route_children_in_sync:
  assumes "object_store (kRoutes env) routeMeta routeCore objs good" and "read_frame (unchanged objs good) good env"
    and "good w" and "crNamespace req \<noteq> []" and "ownerLaw env"
    and "reconcileOwnedClusterRoutes env req w = (Inr (), w')"
  shows "\<exists>cs w1. desiredClusterRouteCandidates env req w = (Inr cs, w1) \<and>
    in_sync routeMeta (ooMeta (crOwner req)) (crNamespace req) (map (\<lambda>c. (ccName c, routeWanted req c)) cs) (objs w) (objs w') \<and> good w'"
  by (rule route_step[OF assms(1,3,4,5) _ assms(6)]) (rule candidates_unchanged[OF assms(2,3)])

theorem route_children_in_sync_witness:
  "in_sync routeMeta (ooMeta labOwner) ''lab'' [] (memObjects routeKind childLab)
     (memObjects routeKind (snd (reconcileOwnedClusterRoutes simEnv routesWanted childLab))) \<and>
   map (\<lambda>r. omName (routeMeta r)) (clRoutes (snd (reconcileOwnedClusterRoutes simEnv routesWanted childLab))) = [''lan'']"
proof
  have "crNamespace routesWanted = ''lab''" "crOwner routesWanted = labOwner"
    "desiredClusterRouteCandidates simEnv routesWanted childLab = (Inr [], childLab)"
    by (simp_all add: routesWanted_def desiredClusterRouteCandidates_def)
  with route_children_in_sync[OF routes.object_store_axioms sim_reads_unchanged childLab_good(3) _ sim_ownerLaw run_end[OF childLab_runs(3)]]
  show "in_sync routeMeta (ooMeta labOwner) ''lab'' [] (memObjects routeKind childLab)
     (memObjects routeKind (snd (reconcileOwnedClusterRoutes simEnv routesWanted childLab)))"
    by simp
qed code_simp

end
