(* ===== verification/Go_Path.thy ===== *)
theory Go_Path
  imports Go_Strings
begin

text \<open>
  The parts of Go's \<^verbatim>\<open>path\<close> and \<^verbatim>\<open>path/filepath\<close> the program uses, on a system whose separator is
  the slash: the shortest equivalent of a path, joining, and the path of a target relative to a base.
  A path is a string; its elements are the strings between the slashes.
\<close>

abbreviation slash :: char where "slash \<equiv> CHR ''/''"

definition rootedPath :: "string \<Rightarrow> bool" where
  "rootedPath p \<longleftrightarrow> p \<noteq> [] \<and> hd p = slash"

text \<open>One element, onto the elements so far (the last one first).\<close>

definition pathStep :: "bool \<Rightarrow> string list \<Rightarrow> string \<Rightarrow> string list" where
  "pathStep rooted out el =
     (if el = [] \<or> el = ''.'' then out
      else if el = ''..'' then
        (case out of
           prev # rest \<Rightarrow> if prev = ''..'' then el # out else rest
         | [] \<Rightarrow> if rooted then [] else [el])
      else el # out)"

definition cleanElements :: "string \<Rightarrow> string list" where
  "cleanElements p = rev (foldl (pathStep (rootedPath p)) [] (splitOn slash p))"

text \<open>\<^verbatim>\<open>path.Clean\<close> and \<^verbatim>\<open>filepath.Clean\<close>.\<close>

definition pathClean :: "string \<Rightarrow> string" where
  "pathClean p =
     (let es = cleanElements p in
      if rootedPath p then slash # joinWith [slash] es
      else if es = [] then ''.'' else joinWith [slash] es)"

text \<open>\<^verbatim>\<open>filepath.Join\<close> of two elements: empty ones are ignored.\<close>

definition pathJoin :: "string \<Rightarrow> string \<Rightarrow> string" where
  "pathJoin a b =
     (let es = filter (\<lambda>e. e \<noteq> []) [a, b] in
      if es = [] then [] else pathClean (joinWith [slash] es))"

text \<open>\<^verbatim>\<open>filepath.Rel\<close>: None where Go returns an error.\<close>

fun dropCommon :: "string list \<Rightarrow> string list \<Rightarrow> string list \<times> string list" where
  "dropCommon (b # bs) (t # ts) = (if b = t then dropCommon bs ts else (b # bs, t # ts))"
| "dropCommon bs ts = (bs, ts)"

definition relElements :: "string \<Rightarrow> string list" where
  "relElements p = (if p = [] then [] else splitOn slash (if rootedPath p then tl p else p))"

definition pathRel :: "string \<Rightarrow> string \<Rightarrow> string option" where
  "pathRel base target =
     (let base = pathClean base; target = pathClean target in
      if target = base then Some ''.''
      else let base = (if base = ''.'' then [] else base) in
        if rootedPath base \<noteq> rootedPath target then None
        else let be = (if base = ''/'' then [] else relElements base);
                 te = (if target = ''/'' then [] else relElements target);
                 (b, t) = dropCommon be te
             in if b \<noteq> [] \<and> hd b = ''..'' then None
                else Some (joinWith [slash] (replicate (length b) ''..'' @ t)))"

section \<open>Clean paths\<close>

definition plainElement :: "string \<Rightarrow> bool" where
  "plainElement el \<longleftrightarrow> el \<noteq> [] \<and> el \<noteq> ''.'' \<and> el \<noteq> ''..'' \<and> slash \<notin> set el"

lemma foldl_rooted:
  assumes "list_all plainElement out" and "\<And>e. e \<in> set es \<Longrightarrow> slash \<notin> set e"
  shows "list_all plainElement (foldl (pathStep True) out es)"
  using assms
proof (induction es arbitrary: out)
  case (Cons e es)
  have "list_all plainElement (pathStep True out e)"
    using Cons.prems by (cases out) (auto simp: pathStep_def plainElement_def[of e] split: if_splits)
  with Cons show ?case by simp
qed simp

lemma cleanElements_rooted:
  assumes "rootedPath p"
  shows "list_all plainElement (cleanElements p)"
  using foldl_rooted[of "[]" "splitOn slash p"] splitOn_parts assms
  by (auto simp: cleanElements_def)

lemma foldl_plain:
  "list_all plainElement es \<Longrightarrow> foldl (pathStep r) out es = rev es @ out"
  by (induction es arbitrary: out) (auto simp: pathStep_def plainElement_def)

lemma elements_no_slash:
  assumes "\<And>e. e \<in> set out \<Longrightarrow> slash \<notin> set e \<and> e \<noteq> []" and "\<And>e. e \<in> set es \<Longrightarrow> slash \<notin> set e"
  shows "e \<in> set (foldl (pathStep r) out es) \<Longrightarrow> slash \<notin> set e \<and> e \<noteq> []"
  using assms
proof (induction es arbitrary: out)
  case (Cons x xs)
  have step: "slash \<notin> set e \<and> e \<noteq> []" if "e \<in> set (pathStep r out x)" for e
    using that Cons.prems(2,3) by (auto simp: pathStep_def split: list.splits if_splits)
  show ?case by (rule Cons.IH[of "pathStep r out x"]) (use Cons.prems step in auto)
qed simp

lemma cleanElements_parts: "e \<in> set (cleanElements p) \<Longrightarrow> slash \<notin> set e \<and> e \<noteq> []"
  unfolding cleanElements_def
  by (simp, rule elements_no_slash[of "[]" "splitOn slash p"]) (auto dest: splitOn_parts)

lemma joinWith_hd: "es \<noteq> [] \<Longrightarrow> hd es \<noteq> [] \<Longrightarrow> hd (joinWith [c] es) = hd (hd es) \<and> joinWith [c] es \<noteq> []"
  by (cases es rule: list.exhaust; cases "tl es") (auto simp: joinWith_Cons)

lemma rootedPath_join:
  assumes "es \<noteq> []" and "\<And>e. e \<in> set es \<Longrightarrow> slash \<notin> set e \<and> e \<noteq> []"
  shows "\<not> rootedPath (joinWith [slash] es)"
proof -
  have "hd es \<in> set es" using assms(1) by simp
  with assms(2) have "hd es \<noteq> []" "slash \<notin> set (hd es)" by auto
  with joinWith_hd[OF assms(1), of slash] show ?thesis
    unfolding rootedPath_def by (metis hd_in_set)
qed

text \<open>The elements of a clean path are those it was made of.\<close>

lemma splitOn_foldl_append:
  "foldl (pathStep r) out (splitOn slash (a @ slash # b)) = foldl (pathStep r) (foldl (pathStep r) out (splitOn slash a)) (splitOn slash b)"
proof (induction a arbitrary: out)
  case Nil
  show ?case by (simp add: pathStep_def)
next
  case (Cons x xs)
  show ?case
  proof (cases "x = slash")
    case True
    with Cons show ?thesis by simp
  next
    case False
    obtain y ys where ys: "splitOn slash xs = y # ys" using splitOn_not_Nil list.exhaust by metis
    have split: "splitOn slash (xs @ slash # b) = y # ys @ splitOn slash b"
    proof -
      have "splitOn slash (xs @ slash # b) = splitOn slash xs @ splitOn slash b"
      proof (induction xs)
        case (Cons z zs)
        obtain u us where "splitOn slash zs = u # us" using splitOn_not_Nil list.exhaust by metis
        with Cons show ?case by simp
      qed simp
      with ys show ?thesis by simp
    qed
    show ?thesis using False ys split by simp
  qed
qed

lemma cleanElements_join:
  assumes "a \<noteq> []" and "list_all plainElement es" and "es \<noteq> []"
  shows "cleanElements (a @ slash # joinWith [slash] es) = cleanElements a @ es"
    and "rootedPath (a @ slash # joinWith [slash] es) = rootedPath a"
proof -
  show r: "rootedPath (a @ slash # joinWith [slash] es) = rootedPath a"
    using assms(1) by (simp add: rootedPath_def)
  have "splitOn slash (joinWith [slash] es) = es"
    using assms(2,3) by (intro splitOn_joinWith) (auto simp: list_all_iff plainElement_def)
  thus "cleanElements (a @ slash # joinWith [slash] es) = cleanElements a @ es"
    unfolding cleanElements_def r splitOn_foldl_append by (simp add: foldl_plain[OF assms(2)])
qed

section \<open>Cleaning twice\<close>

text \<open>The elements of a clean path: leading \<^verbatim>\<open>..\<close>, none in a rooted path, then plain elements.\<close>

definition cleanShape :: "bool \<Rightarrow> string list \<Rightarrow> bool" where
  "cleanShape rooted es \<longleftrightarrow> (\<exists>n ps. es = replicate n ''..'' @ ps \<and> list_all plainElement ps \<and> (rooted \<longrightarrow> n = 0))"

lemma cleanShape_step:
  assumes "cleanShape r (rev out)" and "slash \<notin> set e"
  shows "cleanShape r (rev (pathStep r out e))"
proof -
  from assms(1) obtain n ps where out: "rev out = replicate n ''..'' @ ps" and ps: "list_all plainElement ps" and r: "r \<longrightarrow> n = 0"
    unfolding cleanShape_def by blast
  hence out': "out = rev ps @ replicate n ''..''" by (metis rev_append rev_replicate rev_rev_ident)
  consider (skip) "e = [] \<or> e = ''.''" | (up) "e = ''..''" | (plain) "plainElement e"
    using assms(2) by (auto simp: plainElement_def)
  thus ?thesis
  proof cases
    case skip
    with assms(1) show ?thesis by (auto simp: pathStep_def)
  next
    case plain
    hence "pathStep r out e = e # out" by (auto simp: pathStep_def plainElement_def)
    with out ps r plain show ?thesis
      unfolding cleanShape_def by (intro exI[of _ n] exI[of _ "ps @ [e]"]) simp
  next
    case up
    show ?thesis
    proof (cases ps rule: rev_cases)
      case Nil
      show ?thesis
      proof (cases r)
        case True
        with Nil out' r have "out = []" by simp
        with up True show ?thesis by (simp add: pathStep_def cleanShape_def)
      next
        case False
        have "pathStep r out e = replicate (Suc n) ''..''"
          using up False Nil out' by (cases n) (simp_all add: pathStep_def)
        with False show ?thesis
          unfolding cleanShape_def by (intro exI[of _ "Suc n"] exI[of _ "[]"]) (simp add: replicate_append_same)
      qed
    next
      case (snoc qs q)
      with ps have "q \<noteq> ''..''" "list_all plainElement qs" by (simp_all add: plainElement_def)
      moreover from snoc out' up this(1) have "pathStep r out e = rev qs @ replicate n ''..''" by (simp add: pathStep_def)
      ultimately show ?thesis
        using r unfolding cleanShape_def by (intro exI[of _ n] exI[of _ qs]) simp
    qed
  qed
qed

lemma cleanShape_foldl:
  assumes "cleanShape r (rev out)" and "\<And>e. e \<in> set es \<Longrightarrow> slash \<notin> set e"
  shows "cleanShape r (rev (foldl (pathStep r) out es))"
  using assms
proof (induction es arbitrary: out)
  case (Cons e es)
  show ?case
    unfolding foldl.simps by (rule Cons.IH[OF cleanShape_step[OF Cons.prems(1)]]) (use Cons.prems(2) in simp_all)
qed simp

lemma cleanElements_shape: "cleanShape (rootedPath p) (cleanElements p)"
  unfolding cleanElements_def
  by (rule cleanShape_foldl) (auto simp: cleanShape_def dest: splitOn_parts)

lemma foldl_shape:
  assumes "cleanShape r es"
  shows "foldl (pathStep r) [] es = rev es"
proof -
  from assms obtain n ps where es: "es = replicate n ''..'' @ ps" "list_all plainElement ps" "r \<longrightarrow> n = 0"
    unfolding cleanShape_def by blast
  have "foldl (pathStep r) [] (replicate n ''..'') = replicate n ''..''"
  proof (cases "n = 0")
    case False
    with es(3) have "\<not> r" by simp
    have step: "pathStep r (replicate k ''..'') ''..'' = replicate (Suc k) ''..''" for k
      using \<open>\<not> r\<close> by (cases k) (simp_all add: pathStep_def)
    have "foldl (pathStep r) (replicate k ''..'') (replicate n ''..'') = replicate (k + n) ''..''" for k
    proof (induction n arbitrary: k)
      case (Suc n)
      show ?case
        unfolding replicate.simps(2)[of n] foldl.simps step Suc.IH by simp
    qed simp
    from this[of 0] show ?thesis by simp
  qed simp
  with es show ?thesis by (simp add: foldl_plain)
qed

lemma rootedPath_clean [simp]: "rootedPath (pathClean p) = rootedPath p"
proof (cases "rootedPath p")
  case False
  thus ?thesis
    using rootedPath_join[of "cleanElements p"] cleanElements_parts[of _ p]
    by (cases "cleanElements p = []") (auto simp: pathClean_def Let_def rootedPath_def)
qed (simp add: pathClean_def rootedPath_def)

lemma cleanElements_clean [simp]: "cleanElements (pathClean p) = cleanElements p"
proof (cases "cleanElements p = []")
  case True
  have "foldl (pathStep True) [] (splitOn slash ''/'') = []" "foldl (pathStep False) [] (splitOn slash ''.'') = []"
    by (simp_all add: pathStep_def)
  with True show ?thesis
    unfolding cleanElements_def[of "pathClean p"] rootedPath_clean by (cases "rootedPath p") (simp_all add: pathClean_def)
next
  case False
  have split: "splitOn slash (joinWith [slash] (cleanElements p)) = cleanElements p"
    using False cleanElements_parts by (intro splitOn_joinWith) blast+
  have "foldl (pathStep (rootedPath p)) [] (splitOn slash (pathClean p)) = rev (cleanElements p)"
  proof (cases "rootedPath p")
    case True
    hence "splitOn slash (pathClean p) = [] # cleanElements p" by (simp add: pathClean_def split)
    thus ?thesis
      using foldl_shape[OF cleanElements_shape[of p]] by (simp add: pathStep_def)
  next
    case nr: False
    hence "splitOn slash (pathClean p) = cleanElements p" using False by (simp add: pathClean_def split)
    thus ?thesis using foldl_shape[OF cleanElements_shape[of p]] by simp
  qed
  thus ?thesis unfolding cleanElements_def[of "pathClean p"] rootedPath_clean by simp
qed

lemma pathClean_clean [simp]: "pathClean (pathClean p) = pathClean p"
  by (simp add: pathClean_def[of "pathClean p"]) (simp add: pathClean_def Let_def)

section \<open>Below a directory\<close>

lemma dropCommon_prefix: "dropCommon es (es @ ts) = ([], ts)"
  by (induction es) (cases ts; simp)+

lemma relElements_clean:
  assumes "pathClean p \<noteq> ''.''" and "pathClean p \<noteq> ''/''"
  shows "relElements (pathClean p) = cleanElements p"
proof (cases "cleanElements p = []")
  case True
  with assms show ?thesis by (auto simp: pathClean_def split: if_splits)
next
  case False
  have split: "splitOn slash (joinWith [slash] (cleanElements p)) = cleanElements p"
    using False cleanElements_parts by (intro splitOn_joinWith) blast+
  have "pathClean p \<noteq> []"
    using False cleanElements_parts[of "hd (cleanElements p)" p] joinWith_hd[OF False] by (auto simp: pathClean_def Let_def)
  with split False show ?thesis
    by (simp add: relElements_def) (simp add: pathClean_def Let_def)
qed

lemma pathClean_root:
  "pathClean p = ''/'' \<Longrightarrow> cleanElements p = []" "pathClean p = ''.'' \<Longrightarrow> cleanElements p = []"
  using cleanElements_clean[of p] by (simp_all add: cleanElements_def rootedPath_def pathStep_def)

lemma pathRel_below:
  assumes "cleanElements t = cleanElements b @ es" and "rootedPath t = rootedPath b" and "es \<noteq> []"
  shows "pathRel b t = Some ''.'' \<or> pathRel b t = Some (joinWith [slash] es)"
proof -
  let ?base = "if pathClean b = ''.'' then [] else pathClean b"
  have ne: "pathClean t \<noteq> ''.''" "pathClean t \<noteq> ''/''" using pathClean_root[of t] assms(1,3) by auto
  have te: "(if pathClean t = ''/'' then [] else relElements (pathClean t)) = cleanElements b @ es"
    using ne relElements_clean[of t] assms(1) by simp
  have be: "(if ?base = ''/'' then [] else relElements ?base) = cleanElements b"
  proof (cases "pathClean b = ''.'' \<or> pathClean b = ''/''")
    case True
    with pathClean_root[of b] show ?thesis by (auto simp: relElements_def)
  next
    case False
    with relElements_clean[of b] show ?thesis by simp
  qed
  have r: "rootedPath ?base = rootedPath (pathClean t)"
  proof (cases "pathClean b = ''.''")
    case True
    hence "\<not> rootedPath b" using rootedPath_clean[of b] by (simp add: rootedPath_def)
    with True assms(2) show ?thesis by (simp add: rootedPath_def[of "[]"])
  next
    case False
    with assms(2) show ?thesis by simp
  qed
  show ?thesis
  proof (cases "pathClean t = pathClean b")
    case True
    thus ?thesis by (simp add: pathRel_def)
  next
    case False
    show ?thesis
      unfolding pathRel_def Let_def pathClean_clean te be dropCommon_prefix using False r by simp
  qed
qed

end
