(* ===== verification/Ui_Api.thy ===== *)
theory Ui_Api
  imports Kube_Env Go_Path
begin

text \<open>
  The HTTP API of the admin UI (\<^verbatim>\<open>internal/uiapi\<close>): the kinds it offers, the request handlers with
  every early return, the middleware and the choice of a handler for a request.  A handler is a program
  over the API server that returns the response; its error result is a panic.

  The body of a request is what can be read of it, with the error that ends the reading.  Decoding YAML
  into an object, rendering an object as JSON, the names Kubernetes accepts and the files on disk are
  parameters of the model, as is the listing of namespaces, secrets, services and pods.  Logging has no
  effect on a response and is left out.
\<close>

section \<open>Kinds (\<^verbatim>\<open>kinds.go\<close>)\<close>

definition kindRouters :: string where "kindRouters = ''mikrotikrouters''"
definition kindDNSRecords :: string where "kindDNSRecords = ''mikrotikdnsrecords''"
definition kindRoutes :: string where "kindRoutes = ''mikrotikroutes''"
definition kindPortForwards :: string where "kindPortForwards = ''mikrotikportforwards''"
definition kindFirewallRules :: string where "kindFirewallRules = ''mikrotikfirewallrules''"

lemmas plurals = kindRouters_def kindDNSRecords_def kindRoutes_def kindPortForwards_def kindFirewallRules_def

definition readyConditionType :: string where "readyConditionType = ''Ready''"

definition kindOrder :: "string list" where
  "kindOrder = [kindRouters, kindDNSRecords, kindRoutes, kindPortForwards, kindFirewallRules]"

text \<open>The Go type behind a kind, and an object of one of these types.\<close>

datatype goType = TRouter | TDNSRecord | TRoute | TPortForward | TFirewallRule

datatype uiObject =
    UiRouter router
  | UiDNS dnsRecord
  | UiRoute route
  | UiForward portForward
  | UiFirewall firewallRule

fun typeOf :: "uiObject \<Rightarrow> goType" where
  "typeOf (UiRouter _) = TRouter"
| "typeOf (UiDNS _) = TDNSRecord"
| "typeOf (UiRoute _) = TRoute"
| "typeOf (UiForward _) = TPortForward"
| "typeOf (UiFirewall _) = TFirewallRule"

fun uiMeta :: "uiObject \<Rightarrow> objectMeta" where
  "uiMeta (UiRouter r) = routerMeta r"
| "uiMeta (UiDNS r) = dnsMeta r"
| "uiMeta (UiRoute r) = routeMeta r"
| "uiMeta (UiForward f) = pfMeta f"
| "uiMeta (UiFirewall r) = fwMeta r"

fun mapMeta :: "(objectMeta \<Rightarrow> objectMeta) \<Rightarrow> uiObject \<Rightarrow> uiObject" where
  "mapMeta g (UiRouter r) = UiRouter (r\<lparr>routerMeta := g (routerMeta r)\<rparr>)"
| "mapMeta g (UiDNS r) = UiDNS (r\<lparr>dnsMeta := g (dnsMeta r)\<rparr>)"
| "mapMeta g (UiRoute r) = UiRoute (r\<lparr>routeMeta := g (routeMeta r)\<rparr>)"
| "mapMeta g (UiForward f) = UiForward (f\<lparr>pfMeta := g (pfMeta f)\<rparr>)"
| "mapMeta g (UiFirewall r) = UiFirewall (r\<lparr>fwMeta := g (fwMeta r)\<rparr>)"

lemma uiMeta_mapMeta [simp]: "uiMeta (mapMeta g x) = g (uiMeta x)" "typeOf (mapMeta g x) = typeOf x"
  by (cases x; simp)+

record groupVersionKind =
  gvkGroup :: string
  gvkVersion :: string
  gvkKind :: string

definition gvk :: "string \<Rightarrow> groupVersionKind" where
  "gvk kind = \<lparr>gvkGroup = ''mikrotik.operator.io'', gvkVersion = ''v1alpha1'', gvkKind = kind\<rparr>"

record kindSpec =
  ksPlural :: string
  ksGVK :: groupVersionKind
  ksType :: goType

definition kindTable :: "(string \<times> kindSpec) list" where
  "kindTable =
     [(kindRouters, \<lparr>ksPlural = kindRouters, ksGVK = gvk ''MikroTikRouter'', ksType = TRouter\<rparr>),
      (kindDNSRecords, \<lparr>ksPlural = kindDNSRecords, ksGVK = gvk ''MikroTikDNSRecord'', ksType = TDNSRecord\<rparr>),
      (kindRoutes, \<lparr>ksPlural = kindRoutes, ksGVK = gvk ''MikroTikRoute'', ksType = TRoute\<rparr>),
      (kindPortForwards, \<lparr>ksPlural = kindPortForwards, ksGVK = gvk ''MikroTikPortForward'', ksType = TPortForward\<rparr>),
      (kindFirewallRules, \<lparr>ksPlural = kindFirewallRules, ksGVK = gvk ''MikroTikFirewallRule'', ksType = TFirewallRule\<rparr>)]"

definition lookupKind :: "string \<Rightarrow> kindSpec option" where
  "lookupKind plural = map_of kindTable plural"

text \<open>The conditions of an object of the kind; no conditions when the object has another type.\<close>

fun uiConditions :: "uiObject \<Rightarrow> condition list" where
  "uiConditions (UiRouter r) = rtConditions (routerStatusOf r)"
| "uiConditions (UiDNS r) = dtConditions (dnsStatusOf r)"
| "uiConditions (UiRoute r) = otConditions (routeStatusOf r)"
| "uiConditions (UiForward f) = ptConditions (pfStatusOf f)"
| "uiConditions (UiFirewall r) = ftConditions (fwStatusOf r)"

definition conditionsOf :: "kindSpec \<Rightarrow> uiObject \<Rightarrow> condition list" where
  "conditionsOf spec x = (if typeOf x = ksType spec then uiConditions x else [])"

fun isReady :: "condition list \<Rightarrow> bool" where
  "isReady [] = False"
| "isReady (c # cs) = (if cdType c = readyConditionType then cdStatus c = ConditionTrue else isReady cs)"

section \<open>Owners (\<^verbatim>\<open>owned.go\<close>)\<close>

record managedBy =
  mbAPIVersion :: string
  mbKind :: string
  mbNamespace :: string
  mbName :: string

definition controllerOwner :: "objectMeta \<Rightarrow> managedBy option" where
  "controllerOwner m =
     (case find (\<lambda>ref. orController ref = Some True) (omOwnerReferences m) of
        None \<Rightarrow> None
      | Some ref \<Rightarrow> Some \<lparr>mbAPIVersion = orAPIVersion ref, mbKind = orKind ref,
                          mbNamespace = omNamespace m, mbName = orName ref\<rparr>)"

definition ownedConflictMessage :: "managedBy \<Rightarrow> string" where
  "ownedConflictMessage owner =
     (if mbNamespace owner = [] then ''resource is owned by '' @ mbKind owner @ ''/'' @ mbName owner
      else ''resource is owned by '' @ mbKind owner @ ''/'' @ mbName owner @ '' in namespace '' @ mbNamespace owner)"

section \<open>Requests and responses (\<^verbatim>\<open>http.go\<close>)\<close>

definition maxBodyBytes :: int where
  "maxBodyBytes = 1048576"

record uiRequest =
  rqMethod :: string
  rqPath :: string
  rqSegments :: "string list"
  rqNamespaceQuery :: string
  rqBody :: string
  rqReadError :: "goerr option"
  rqCloseError :: "goerr option"

text \<open>An object as it is sent: its JSON with, beside it, its owner.\<close>

type_synonym annotated = "string \<times> managedBy option"

datatype respBody =
    NoBody
  | PlainBody string
  | ErrorBody string
  | ConflictBody string managedBy
  | ResourceBody annotated
  | ListBody "annotated list"
  | NamesBody "string list"
  | OverviewBody "(string \<times> nat \<times> nat) list"
  | ConfigBody string
  | FileBody string
  | RedirectBody string

record response =
  rsStatus :: int
  rsHeaders :: strmap
  rsBody :: respBody

definition jsonType :: string where "jsonType = ''application/json; charset=utf-8''"
definition plainType :: string where "plainType = ''text/plain; charset=utf-8''"

definition writeJSON :: "int \<Rightarrow> respBody \<Rightarrow> response" where
  "writeJSON status body = \<lparr>rsStatus = status, rsHeaders = [(''Content-Type'', jsonType)], rsBody = body\<rparr>"

definition writePlain :: "string \<Rightarrow> response" where
  "writePlain body = \<lparr>rsStatus = 200, rsHeaders = [(''Content-Type'', plainType)], rsBody = PlainBody body\<rparr>"

definition writeError :: "int \<Rightarrow> string \<Rightarrow> response" where
  "writeError status message = writeJSON status (ErrorBody message)"

definition writeOwnedConflict :: "managedBy \<Rightarrow> response" where
  "writeOwnedConflict owner = writeJSON 409 (ConflictBody (ownedConflictMessage owner) owner)"

definition writeKubeError :: "goerr \<Rightarrow> response" where
  "writeKubeError e =
     (case statusOf e of
        Some (_, code, message) \<Rightarrow> writeError (if code < 400 then 500 else code) message
      | None \<Rightarrow> writeError 500 ''internal error'')"

text \<open>Reading the body: the limit is hit before an error that comes after it.\<close>

datatype bodyError = TooLarge | Unreadable

definition readBody :: "uiRequest \<Rightarrow> bodyError + string" where
  "readBody r =
     (if int (length (rqBody r)) > maxBodyBytes then Inl TooLarge
      else if rqReadError r \<noteq> None \<or> rqCloseError r \<noteq> None then Inl Unreadable
      else Inr (rqBody r))"

text \<open>The middleware: three headers on every response.\<close>

definition withMiddleware :: "response \<Rightarrow> response" where
  "withMiddleware resp = resp\<lparr>rsHeaders :=
     [(''X-Content-Type-Options'', ''nosniff''), (''X-Frame-Options'', ''DENY''), (''Cache-Control'', ''no-store'')] @ rsHeaders resp\<rparr>"

section \<open>The handler's surroundings\<close>

datatype namedKind = Secrets | Services | Pods

text \<open>\<^verbatim>\<open>os.Stat\<close>: an error or whether the path is a directory.  \<^verbatim>\<open>meta.ExtractList\<close> may fail.\<close>

record 'w uiEnv =
  uiKube :: "'w env"
  uiListNamespaces :: "int \<Rightarrow> ('w, string list) prog"
  uiListNames :: "namedKind \<Rightarrow> string \<Rightarrow> ('w, objectMeta list) prog"
  uiStat :: "string \<Rightarrow> ('w, bool) prog"
  uiDecode :: "goType \<Rightarrow> string \<Rightarrow> goerr + uiObject"
  uiMarshal :: "groupVersionKind \<Rightarrow> uiObject \<Rightarrow> goerr + string"
  uiExtract :: "uiObject list \<Rightarrow> goerr + uiObject list"
  uiValidName :: "string \<Rightarrow> bool"

record uiHandler =
  hdHasKube :: bool
  hdStaticDir :: string
  hdNamespace :: string

text \<open>\<^verbatim>\<open>New\<close>.\<close>

definition newHandler :: "bool \<Rightarrow> string \<Rightarrow> string \<Rightarrow> uiHandler" where
  "newHandler kube static namespace =
     \<lparr>hdHasKube = kube, hdStaticDir = static, hdNamespace = (if namespace = [] then ''default'' else namespace)\<rparr>"

text \<open>The Kubernetes client on an object of any of the kinds.  A call on a nil client panics.\<close>

definition viaStore :: "('a \<Rightarrow> 'b) \<Rightarrow> ('w, 'a) prog \<Rightarrow> ('w, 'b) prog" where
  "viaStore c m = bindE m (\<lambda>x. returnE (c x))"

definition clientCall :: "uiHandler \<Rightarrow> ('w, 'a) prog \<Rightarrow> (goerr + 'a \<Rightarrow> ('w, response) prog) \<Rightarrow> ('w, response) prog" where
  "clientCall h call cont =
     (if hdHasKube h then tryE call cont else failE (Panic ''invalid memory address or nil pointer dereference''))"

fun uiGet :: "'w env \<Rightarrow> goType \<Rightarrow> nsname \<Rightarrow> ('w, uiObject) prog" where
  "uiGet env TRouter k = viaStore UiRouter (stGet (kRouters env) k)"
| "uiGet env TDNSRecord k = viaStore UiDNS (stGet (kDNS env) k)"
| "uiGet env TRoute k = viaStore UiRoute (stGet (kRoutes env) k)"
| "uiGet env TPortForward k = viaStore UiForward (stGet (kForwards env) k)"
| "uiGet env TFirewallRule k = viaStore UiFirewall (stGet (kFirewall env) k)"

fun uiList :: "'w env \<Rightarrow> goType \<Rightarrow> string \<Rightarrow> ('w, uiObject list) prog" where
  "uiList env TRouter ns = viaStore (map UiRouter) (stList (kRouters env) ns)"
| "uiList env TDNSRecord ns = viaStore (map UiDNS) (stList (kDNS env) ns)"
| "uiList env TRoute ns = viaStore (map UiRoute) (stList (kRoutes env) ns)"
| "uiList env TPortForward ns = viaStore (map UiForward) (stList (kForwards env) ns)"
| "uiList env TFirewallRule ns = viaStore (map UiFirewall) (stList (kFirewall env) ns)"

fun uiCreate :: "'w env \<Rightarrow> uiObject \<Rightarrow> ('w, uiObject) prog" where
  "uiCreate env (UiRouter r) = viaStore UiRouter (stCreate (kRouters env) r)"
| "uiCreate env (UiDNS r) = viaStore UiDNS (stCreate (kDNS env) r)"
| "uiCreate env (UiRoute r) = viaStore UiRoute (stCreate (kRoutes env) r)"
| "uiCreate env (UiForward f) = viaStore UiForward (stCreate (kForwards env) f)"
| "uiCreate env (UiFirewall r) = viaStore UiFirewall (stCreate (kFirewall env) r)"

fun uiUpdate :: "'w env \<Rightarrow> uiObject \<Rightarrow> ('w, uiObject) prog" where
  "uiUpdate env (UiRouter r) = viaStore UiRouter (stUpdate (kRouters env) r)"
| "uiUpdate env (UiDNS r) = viaStore UiDNS (stUpdate (kDNS env) r)"
| "uiUpdate env (UiRoute r) = viaStore UiRoute (stUpdate (kRoutes env) r)"
| "uiUpdate env (UiForward f) = viaStore UiForward (stUpdate (kForwards env) f)"
| "uiUpdate env (UiFirewall r) = viaStore UiFirewall (stUpdate (kFirewall env) r)"

fun uiDelete :: "'w env \<Rightarrow> uiObject \<Rightarrow> ('w, unit) prog" where
  "uiDelete env (UiRouter r) = stDelete (kRouters env) r"
| "uiDelete env (UiDNS r) = stDelete (kDNS env) r"
| "uiDelete env (UiRoute r) = stDelete (kRoutes env) r"
| "uiDelete env (UiForward f) = stDelete (kForwards env) f"
| "uiDelete env (UiFirewall r) = stDelete (kFirewall env) r"

end
