(* ===== verification/Ui_Handlers.thy ===== *)
theory Ui_Handlers
  imports Ui_Api
begin

text \<open>
  The request handlers of \<^verbatim>\<open>handler.go\<close>, one definition each, and \<^verbatim>\<open>New\<close>'s table that chooses one.
\<close>

section \<open>Objects\<close>

text \<open>\<^verbatim>\<open>annotateResource\<close>: the object's JSON under its kind, with its owner beside it.\<close>

definition annotateResource :: "'w uiEnv \<Rightarrow> uiObject \<Rightarrow> groupVersionKind \<Rightarrow> goerr + annotated" where
  "annotateResource ui x k =
     (case uiMarshal ui k x of
        Inl e \<Rightarrow> Inl (Wrapped (''marshal resource: '' @ errorText e) [e])
      | Inr json \<Rightarrow> Inr (json, controllerOwner (uiMeta x)))"

fun annotateAll :: "'w uiEnv \<Rightarrow> groupVersionKind \<Rightarrow> uiObject list \<Rightarrow> goerr + annotated list" where
  "annotateAll ui k [] = Inr []"
| "annotateAll ui k (x # xs) =
     (case annotateResource ui x k of
        Inl e \<Rightarrow> Inl e
      | Inr a \<Rightarrow> (case annotateAll ui k xs of Inl e \<Rightarrow> Inl e | Inr as \<Rightarrow> Inr (a # as)))"

definition objectsFromList :: "'w uiEnv \<Rightarrow> uiObject list \<Rightarrow> goerr + uiObject list" where
  "objectsFromList ui xs = uiExtract ui xs"

definition internalError :: response where
  "internalError = writeError 500 ''internal error''"

definition writeResourceStatus :: "'w uiEnv \<Rightarrow> int \<Rightarrow> uiObject \<Rightarrow> groupVersionKind \<Rightarrow> response" where
  "writeResourceStatus ui status x k =
     (case annotateResource ui x k of Inl _ \<Rightarrow> internalError | Inr a \<Rightarrow> writeJSON status (ResourceBody a))"

definition writeResource :: "'w uiEnv \<Rightarrow> uiObject \<Rightarrow> groupVersionKind \<Rightarrow> response" where
  "writeResource ui x k = writeResourceStatus ui 200 x k"

text \<open>\<^verbatim>\<open>lookupObject\<close>: the kind and the key, or the response that refuses them.\<close>

definition lookupObject :: "'w uiEnv \<Rightarrow> string \<Rightarrow> string \<Rightarrow> string \<Rightarrow> response + kindSpec \<times> nsname" where
  "lookupObject ui kind namespace name =
     (case lookupKind kind of
        None \<Rightarrow> Inl (writeError 400 ''unknown resource kind'')
      | Some spec \<Rightarrow>
          if \<not> uiValidName ui namespace then Inl (writeError 400 ''invalid namespace'')
          else if \<not> uiValidName ui name then Inl (writeError 400 ''invalid name'')
          else Inr (spec, mkName namespace name))"

definition decodeObject :: "'w uiEnv \<Rightarrow> uiRequest \<Rightarrow> kindSpec \<Rightarrow> response + uiObject" where
  "decodeObject ui r spec =
     (case readBody r of
        Inl TooLarge \<Rightarrow> Inl (writeError 413 ''request body too large'')
      | Inl Unreadable \<Rightarrow> Inl (writeError 400 ''unable to read request body'')
      | Inr data \<Rightarrow>
          if data = [] then Inl (writeError 400 ''request body is required'')
          else case uiDecode ui (ksType spec) data of
            Inl _ \<Rightarrow> Inl (writeError 400 ''invalid JSON or YAML'')
          | Inr x \<Rightarrow> if omName (uiMeta x) = [] then Inl (writeError 400 ''metadata.name is required'') else Inr x)"

text \<open>\<^verbatim>\<open>preserveManagedMetadata\<close>: what the object of a request takes over from the stored one.\<close>

definition preserveManagedMetadata :: "objectMeta \<Rightarrow> objectMeta \<Rightarrow> objectMeta" where
  "preserveManagedMetadata existing m =
     m\<lparr>omUID := omUID existing, omCreationTimestamp := omCreationTimestamp existing,
       omGeneration := omGeneration existing, omFinalizers := omFinalizers existing,
       omOwnerReferences := omOwnerReferences existing,
       omAnnotations := (if omAnnotations m = [] then omAnnotations existing else omAnnotations m),
       omLabels := (if omLabels m = [] then omLabels existing else omLabels m)\<rparr>"

definition replacementMeta :: "objectMeta \<Rightarrow> objectMeta \<Rightarrow> objectMeta" where
  "replacementMeta existing m =
     preserveManagedMetadata existing
       (m\<lparr>omNamespace := omNamespace existing, omName := omName existing,
          omResourceVersion := (if omResourceVersion m = [] then omResourceVersion existing else omResourceVersion m)\<rparr>)"

section \<open>Health, overview, names\<close>

definition healthz :: "('w, response) prog" where
  "healthz = returnE (writePlain ''ok'')"

definition readyz :: "uiHandler \<Rightarrow> 'w uiEnv \<Rightarrow> ('w, response) prog" where
  "readyz h ui =
     (if \<not> hdHasKube h then returnE (writeError 503 ''kubernetes client is not ready'')
      else tryE (uiListNamespaces ui 1) (\<lambda>x. case x of
        Inl _ \<Rightarrow> returnE (writeError 503 ''kubernetes is not ready'')
      | Inr _ \<Rightarrow> returnE (writePlain ''ok'')))"

definition configHandler :: "uiHandler \<Rightarrow> ('w, response) prog" where
  "configHandler h = returnE (writeJSON 200 (ConfigBody (hdNamespace h)))"

definition kindCount :: "kindSpec \<Rightarrow> uiObject list \<Rightarrow> string \<times> nat \<times> nat" where
  "kindCount spec xs = (ksPlural spec, length xs, length (filter (\<lambda>x. \<not> isReady (conditionsOf spec x)) xs))"

fun overviewFrom ::
  "uiHandler \<Rightarrow> 'w uiEnv \<Rightarrow> (string \<times> nat \<times> nat) list \<Rightarrow> kindSpec list \<Rightarrow> ('w, response) prog" where
  "overviewFrom h ui counts [] = returnE (writeJSON 200 (OverviewBody counts))"
| "overviewFrom h ui counts (spec # specs) =
     clientCall h (uiList (uiKube ui) (ksType spec) []) (\<lambda>x. case x of
       Inl e \<Rightarrow> returnE (writeKubeError e)
     | Inr listed \<Rightarrow> (case objectsFromList ui listed of
         Inl _ \<Rightarrow> returnE internalError
       | Inr xs \<Rightarrow> overviewFrom h ui (counts @ [kindCount spec xs]) specs))"

definition orderedKinds :: "kindSpec list" where
  "orderedKinds = List.map_filter lookupKind kindOrder"

definition overview :: "uiHandler \<Rightarrow> 'w uiEnv \<Rightarrow> ('w, response) prog" where
  "overview h ui = overviewFrom h ui [] orderedKinds"

definition listNamespaces :: "uiHandler \<Rightarrow> 'w uiEnv \<Rightarrow> ('w, response) prog" where
  "listNamespaces h ui =
     clientCall h (uiListNamespaces ui 0) (\<lambda>x. case x of
       Inl e \<Rightarrow> returnE (writeKubeError e)
     | Inr names \<Rightarrow> returnE (writeJSON 200 (NamesBody names)))"

definition listNamespacedNames ::
  "uiHandler \<Rightarrow> 'w uiEnv \<Rightarrow> namedKind \<Rightarrow> string \<Rightarrow> ('w, response) prog" where
  "listNamespacedNames h ui kind namespace =
     (if \<not> uiValidName ui namespace then returnE (writeError 400 ''invalid namespace'')
      else clientCall h (uiListNames ui kind namespace) (\<lambda>x. case x of
        Inl e \<Rightarrow> returnE (writeKubeError e)
      | Inr metas \<Rightarrow>
          returnE (writeJSON 200 (NamesBody (map omName (filter (\<lambda>m. \<not> isDeleting m) metas))))))"

section \<open>Resources\<close>

definition listResources :: "uiHandler \<Rightarrow> 'w uiEnv \<Rightarrow> string \<Rightarrow> string \<Rightarrow> ('w, response) prog" where
  "listResources h ui kind namespace =
     (case lookupKind kind of
        None \<Rightarrow> returnE (writeError 400 ''unknown resource kind'')
      | Some spec \<Rightarrow>
          if namespace \<noteq> [] \<and> \<not> uiValidName ui namespace then returnE (writeError 400 ''invalid namespace'')
          else clientCall h (uiList (uiKube ui) (ksType spec) namespace) (\<lambda>x. case x of
            Inl e \<Rightarrow> returnE (writeKubeError e)
          | Inr listed \<Rightarrow> (case objectsFromList ui listed of
              Inl _ \<Rightarrow> returnE internalError
            | Inr xs \<Rightarrow> (case annotateAll ui (ksGVK spec) xs of
                Inl _ \<Rightarrow> returnE internalError
              | Inr items \<Rightarrow> returnE (writeJSON 200 (ListBody items))))))"

definition getResource :: "uiHandler \<Rightarrow> 'w uiEnv \<Rightarrow> string \<Rightarrow> string \<Rightarrow> string \<Rightarrow> ('w, response) prog" where
  "getResource h ui kind namespace name =
     (case lookupObject ui kind namespace name of
        Inl resp \<Rightarrow> returnE resp
      | Inr (spec, key) \<Rightarrow>
          clientCall h (uiGet (uiKube ui) (ksType spec) key) (\<lambda>x. case x of
            Inl e \<Rightarrow> returnE (writeKubeError e)
          | Inr obj \<Rightarrow> returnE (writeResource ui obj (ksGVK spec))))"

definition createResource :: "uiHandler \<Rightarrow> 'w uiEnv \<Rightarrow> uiRequest \<Rightarrow> string \<Rightarrow> string \<Rightarrow> ('w, response) prog" where
  "createResource h ui r kind namespace =
     (case lookupKind kind of
        None \<Rightarrow> returnE (writeError 400 ''unknown resource kind'')
      | Some spec \<Rightarrow>
          if \<not> uiValidName ui namespace then returnE (writeError 400 ''invalid namespace'')
          else case decodeObject ui r spec of
            Inl resp \<Rightarrow> returnE resp
          | Inr obj \<Rightarrow>
              clientCall h (uiCreate (uiKube ui) (mapMeta (\<lambda>m. m\<lparr>omNamespace := namespace\<rparr>) obj)) (\<lambda>x. case x of
                Inl e \<Rightarrow> returnE (writeKubeError e)
              | Inr created \<Rightarrow> returnE (writeResourceStatus ui 201 created (ksGVK spec))))"

definition updateResource ::
  "uiHandler \<Rightarrow> 'w uiEnv \<Rightarrow> uiRequest \<Rightarrow> string \<Rightarrow> string \<Rightarrow> string \<Rightarrow> ('w, response) prog" where
  "updateResource h ui r kind namespace name =
     (case lookupObject ui kind namespace name of
        Inl resp \<Rightarrow> returnE resp
      | Inr (spec, key) \<Rightarrow>
          clientCall h (uiGet (uiKube ui) (ksType spec) key) (\<lambda>x. case x of
            Inl e \<Rightarrow> returnE (writeKubeError e)
          | Inr existing \<Rightarrow> (case controllerOwner (uiMeta existing) of
              Some owner \<Rightarrow> returnE (writeOwnedConflict owner)
            | None \<Rightarrow> (case decodeObject ui r spec of
                Inl resp \<Rightarrow> returnE resp
              | Inr obj \<Rightarrow>
                  clientCall h (uiUpdate (uiKube ui) (mapMeta (replacementMeta (uiMeta existing)) obj)) (\<lambda>y. case y of
                    Inl e \<Rightarrow> returnE (writeKubeError e)
                  | Inr updated \<Rightarrow> returnE (writeResource ui updated (ksGVK spec)))))))"

definition deleteResource :: "uiHandler \<Rightarrow> 'w uiEnv \<Rightarrow> string \<Rightarrow> string \<Rightarrow> string \<Rightarrow> ('w, response) prog" where
  "deleteResource h ui kind namespace name =
     (case lookupObject ui kind namespace name of
        Inl resp \<Rightarrow> returnE resp
      | Inr (spec, key) \<Rightarrow>
          clientCall h (uiGet (uiKube ui) (ksType spec) key) (\<lambda>x. case x of
            Inl e \<Rightarrow> returnE (writeKubeError e)
          | Inr existing \<Rightarrow> (case controllerOwner (uiMeta existing) of
              Some owner \<Rightarrow> returnE (writeOwnedConflict owner)
            | None \<Rightarrow>
                clientCall h (uiDelete (uiKube ui) existing) (\<lambda>y. case y of
                  Inl e \<Rightarrow> returnE (writeKubeError e)
                | Inr _ \<Rightarrow> returnE \<lparr>rsStatus = 204, rsHeaders = [], rsBody = NoBody\<rparr>))))"

section \<open>Static files\<close>

definition pathInside :: "string \<Rightarrow> string \<Rightarrow> bool" where
  "pathInside root target =
     (case pathRel root target of
        None \<Rightarrow> False
      | Some rel \<Rightarrow> rel \<noteq> ''..'' \<and> \<not> hasPrefix rel ''../'')"

text \<open>\<^verbatim>\<open>http.NotFound\<close> and \<^verbatim>\<open>http.Error\<close>; \<^verbatim>\<open>http.ServeFile\<close> is the path it is given.\<close>

definition httpNotFound :: response where
  "httpNotFound = \<lparr>rsStatus = 404, rsHeaders = [(''Content-Type'', plainType)], rsBody = PlainBody ''404 page not found''\<rparr>"

definition methodNotAllowed :: response where
  "methodNotAllowed = \<lparr>rsStatus = 405, rsHeaders = [(''Content-Type'', plainType)], rsBody = PlainBody ''method not allowed''\<rparr>"

definition serveFile :: "string \<Rightarrow> response" where
  "serveFile file = \<lparr>rsStatus = 200, rsHeaders = [], rsBody = FileBody file\<rparr>"

definition spaRelative :: "string \<Rightarrow> string" where
  "spaRelative url =
     (let rel = trimPrefix (pathClean (''/'' @ url)) ''/'' in
      if rel = ''.'' \<or> rel = [] then ''index.html'' else rel)"

definition serveSPA :: "uiHandler \<Rightarrow> 'w uiEnv \<Rightarrow> uiRequest \<Rightarrow> ('w, response) prog" where
  "serveSPA h ui r =
     (if rqMethod r \<noteq> ''GET'' \<and> rqMethod r \<noteq> ''HEAD'' then returnE methodNotAllowed
      else if hdStaticDir h = [] then returnE httpNotFound
      else let full = pathJoin (hdStaticDir h) (spaRelative (rqPath r)) in
        if \<not> pathInside (hdStaticDir h) full then returnE httpNotFound
        else tryE (uiStat ui full) (\<lambda>x. case x of
          Inl _ \<Rightarrow> returnE (serveFile (pathJoin (hdStaticDir h) ''index.html''))
        | Inr isDir \<Rightarrow>
            returnE (serveFile (if isDir then pathJoin (hdStaticDir h) ''index.html'' else full))))"

section \<open>The table of handlers\<close>

text \<open>\<^verbatim>\<open>New\<close>'s patterns over the segments of a clean path, as \<^verbatim>\<open>http.ServeMux\<close> matches them: a pattern
  with \<^verbatim>\<open>GET\<close> also takes \<^verbatim>\<open>HEAD\<close>, a wildcard takes one segment that is not empty, the most specific
  pattern that takes the method wins, \<^verbatim>\<open>/api/\<close> takes the rest below it with any method, and \<^verbatim>\<open>/api\<close> is
  redirected to it.\<close>

definition apiNotFound :: "('w, response) prog" where
  "apiNotFound = returnE (writeError 404 ''not found'')"

definition isRead :: "string \<Rightarrow> bool" where
  "isRead method \<longleftrightarrow> method = ''GET'' \<or> method = ''HEAD''"

definition apiHandler :: "uiHandler \<Rightarrow> 'w uiEnv \<Rightarrow> uiRequest \<Rightarrow> string list \<Rightarrow> ('w, response) prog" where
  "apiHandler h ui r segments =
     (let method = rqMethod r; reading = isRead method in
      if reading \<and> segments = [''overview''] then overview h ui
      else if reading \<and> segments = [''config''] then configHandler h
      else if reading \<and> segments = [''namespaces''] then listNamespaces h ui
      else case segments of
        [a, b] \<Rightarrow>
          (if b = [] then apiNotFound
           else if reading \<and> a = ''secrets'' then listNamespacedNames h ui Secrets b
           else if reading \<and> a = ''services'' then listNamespacedNames h ui Services b
           else if reading \<and> a = ''pods'' then listNamespacedNames h ui Pods b
           else if reading \<and> a = ''resources'' then listResources h ui b (rqNamespaceQuery r)
           else apiNotFound)
      | [a, kind, ns] \<Rightarrow>
          (if a = ''resources'' \<and> kind \<noteq> [] \<and> ns \<noteq> [] \<and> method = ''POST'' then createResource h ui r kind ns
           else apiNotFound)
      | [a, kind, ns, name] \<Rightarrow>
          (if a \<noteq> ''resources'' \<or> kind = [] \<or> ns = [] \<or> name = [] then apiNotFound
           else if reading then getResource h ui kind ns name
           else if method = ''PUT'' then updateResource h ui r kind ns name
           else if method = ''DELETE'' then deleteResource h ui kind ns name
           else apiNotFound)
      | _ \<Rightarrow> apiNotFound)"

definition muxHandler :: "uiHandler \<Rightarrow> 'w uiEnv \<Rightarrow> uiRequest \<Rightarrow> ('w, response) prog" where
  "muxHandler h ui r =
     (let rest = (if hdStaticDir h \<noteq> [] then serveSPA h ui r else returnE httpNotFound);
          other = (if hdStaticDir h \<noteq> [] then serveSPA h ui r else returnE methodNotAllowed) in
      case rqSegments r of
        [a] \<Rightarrow>
          (if a = ''healthz'' then (if isRead (rqMethod r) then healthz else other)
           else if a = ''readyz'' then (if isRead (rqMethod r) then readyz h ui else other)
           else if a = ''api'' then returnE \<lparr>rsStatus = 301, rsHeaders = [], rsBody = RedirectBody ''/api/''\<rparr>
           else rest)
      | a # b # segments \<Rightarrow> if a = ''api'' then apiHandler h ui r (b # segments) else rest
      | [] \<Rightarrow> rest)"

definition serveUI :: "uiHandler \<Rightarrow> 'w uiEnv \<Rightarrow> uiRequest \<Rightarrow> ('w, response) prog" where
  "serveUI h ui r = bindE (muxHandler h ui r) (\<lambda>resp. returnE (withMiddleware resp))"

end
