(* ===== verification/Translate_Frame.thy ===== *)
theory Translate_Frame
  imports HTTPRoute_Translate Kube_Frame
begin

text \<open>
  What the translators write.  The locale \<open>owned_frame\<close> states that a relation is kept by reads, by
  creating objects that carry the owner's reference, by updating and deleting objects the owner
  controls and by writing the owner itself; then a pass of a translator keeps it.
\<close>

lemma isControlledBy_refs: "omOwnerReferences m = omOwnerReferences m' \<Longrightarrow> isControlledBy m o' = isControlledBy m' o'"
  by (simp add: isControlledBy_def controllerOf_def)

lemma prepare_owner:
  assumes "preparePortForwardReconcileRequest env req w = (Inr req', w')"
  shows "pqOwner req' = pqOwner req"
  using assms unfolding preparePortForwardReconcileRequest_def Let_def
  by (auto split: if_splits option.splits elim!: bindE_InrE)

locale owned_frame = read_frame R I env
  for R :: "'w \<Rightarrow> 'w \<Rightarrow> bool" and I :: "'w \<Rightarrow> bool" and env :: "'w env" +
  fixes owner :: ownerObj
  assumes create_dns: "kSetOwner env (kindName (ooKind owner)) (ooMeta owner) m = Inr (dnsMeta d) \<Longrightarrow> keeps R (stCreate (kDNS env) d)"
    and create_forward: "kSetOwner env (kindName (ooKind owner)) (ooMeta owner) m = Inr (pfMeta f) \<Longrightarrow> keeps R (stCreate (kForwards env) f)"
    and create_route: "kSetOwner env (kindName (ooKind owner)) (ooMeta owner) m = Inr (routeMeta r) \<Longrightarrow> keeps R (stCreate (kRoutes env) r)"
    and update_dns: "isControlledBy (dnsMeta d) (ooMeta owner) \<Longrightarrow> keeps R (stUpdate (kDNS env) d)"
    and update_forward: "isControlledBy (pfMeta f) (ooMeta owner) \<Longrightarrow> keeps R (stUpdate (kForwards env) f)"
    and update_route: "isControlledBy (routeMeta r) (ooMeta owner) \<Longrightarrow> keeps R (stUpdate (kRoutes env) r)"
    and delete_dns: "isControlledBy (dnsMeta d) (ooMeta owner) \<Longrightarrow> keeps R (stDelete (kDNS env) d)"
    and delete_forward: "isControlledBy (pfMeta f) (ooMeta owner) \<Longrightarrow> keeps R (stDelete (kForwards env) f)"
    and delete_route: "isControlledBy (routeMeta r) (ooMeta owner) \<Longrightarrow> keeps R (stDelete (kRoutes env) r)"
    and update_self: "ooKind owner = OwnService \<Longrightarrow> metaKey (svMeta s) = metaKey (ooMeta owner) \<Longrightarrow> keeps R (stUpdate (kServices env) s)"
begin

lemmas deletes = delete_dns delete_forward delete_route

lemma keeps_bind_liftSum: "(\<And>x. r = Inr x \<Longrightarrow> keeps R (f x)) \<Longrightarrow> keeps R (bindE (liftSum r) f)"
  by (cases r) (simp_all add: liftSum_def keeps_fail)

lemma keeps_liftSum: "keeps R (liftSum r)"
  by (cases r) (simp_all add: liftSum_def keeps_fail keeps_return)

lemma keeps_deleteIgnoring: "keeps R (stDelete st x) \<Longrightarrow> keeps R (deleteIgnoringMissing st x)"
  unfolding deleteIgnoringMissing_def by (intro read_rules)

text \<open>Port forwards.\<close>

lemma keeps_addServices: "keeps R (addServices env req ip ss st)"
  by (induction ss arbitrary: st)
     (auto simp: forwardAddress_def intro!: read_rules keeps_serviceAddress keeps_liftSum split: option.split)

lemma keeps_prepare: "keeps R (preparePortForwardReconcileRequest env req)"
  unfolding preparePortForwardReconcileRequest_def
  by (intro read_rules keeps_resolveRouterReference keeps_addServices)

lemma keeps_applyForward:
  assumes "pqOwner req = owner"
  shows "keeps R (applyForward env req c)"
proof -
  have update: "keeps R (stUpdate (kForwards env) (updatedForwardChild req c f))"
    if "isControlledBy (pfMeta f) (ooMeta owner)" for f
    using that by (intro update_forward) (simp add: updatedForwardChild_def cong: isControlledBy_refs)
  have create: "keeps R (stCreate (kForwards env) f)" if "newForwardChild env req c = Inr f" for f
    using that assms by (auto simp: newForwardChild_def Let_def split: sum.splits intro: create_forward)
  show ?thesis
    unfolding applyForward_def assms
    by (intro read_rules keeps_bind_liftSum keeps_void create update) simp_all
qed

lemma keeps_reconcileServicePortForwards:
  assumes "pqOwner req = owner"
  shows "keeps R (reconcileServicePortForwards env req)"
proof -
  have body: "keeps R (bindE (stList (kForwards env) (pqNamespace req')) (\<lambda>existing.
     bindE (forE (applyForward env req') (pqCandidates req')) (\<lambda>_.
       forE (\<lambda>f. if omName (pfMeta f) \<notin> fcName ` set (pqCandidates req')
                    \<and> isControlledBy (pfMeta f) (ooMeta (pqOwner req'))
                 then deleteIgnoringMissing (kForwards env) f else returnE ()) existing)))"
    if "pqOwner req' = owner" for req'
    using that by (intro read_rules keeps_applyForward keeps_deleteIgnoring delete_forward) auto
  show ?thesis
    unfolding reconcileServicePortForwards_def
    by (rule keeps_bind_result[OF keeps_prepare], rule body, drule prepare_owner, simp add: assms)
qed

text \<open>Routes.\<close>

lemma keeps_applyRouteCandidate:
  assumes "crOwner req = owner"
  shows "keeps R (applyCandidate env req c)"
proof -
  have update: "keeps R (stUpdate (kRoutes env) (updatedClusterRoute req c r))"
    if "isControlledBy (routeMeta r) (ooMeta owner)" for r
    using that by (intro update_route) (simp add: updatedClusterRoute_def cong: isControlledBy_refs)
  have create: "keeps R (stCreate (kRoutes env) r)" if "newClusterRoute env req c = Inr r" for r
    using that assms by (auto simp: newClusterRoute_def Let_def split: sum.splits intro: create_route)
  show ?thesis
    unfolding applyCandidate_def assms
    by (intro read_rules keeps_void create update) simp_all
qed

lemma keeps_reconcileOwnedRoutes:
  assumes "crOwner req = owner"
  shows "keeps R (reconcileOwnedClusterRoutes env req)"
  unfolding reconcileOwnedClusterRoutes_def desiredClusterRouteCandidates_def
  using assms by (intro read_rules keeps_candidatesFrom keeps_applyRouteCandidate keeps_deleteIgnoring delete_route) auto

text \<open>Records.\<close>

lemma keeps_applyDNSChild: "keeps R (applyDNSChild env owner notOwned routerRef c)"
proof -
  have update: "keeps R (stUpdate (kDNS env) (r\<lparr>dnsSpecOf := sp\<rparr>))"
    if "isControlledBy (dnsMeta r) (ooMeta owner)" for r sp
    using that by (intro update_dns) simp
  have create: "keeps R (stCreate (kDNS env) \<lparr>dnsMeta = m', dnsSpecOf = sp, dnsStatusOf = st\<rparr>)"
    if "kSetOwner env (kindName (ooKind owner)) (ooMeta owner) m = Inr m'" for m m' sp st
    using that by (intro create_dns) simp
  show ?thesis
    unfolding applyDNSChild_def
    by (intro read_rules keeps_bind_liftSum keeps_void create update) simp_all
qed

lemma keeps_reconcileDNSChildren: "keeps R (reconcileDNSChildren env owner notOwned routerRef cs)"
  unfolding reconcileDNSChildren_def
  by (intro read_rules keeps_applyDNSChild keeps_void delete_dns) simp

text \<open>Cleanups.\<close>

lemma keeps_deleteControlled:
  assumes "storeReads R st" and "\<And>x. isControlledBy (meta x) (ooMeta owner) \<Longrightarrow> keeps R (stDelete st x)"
  shows "keeps R (deleteControlled st meta owner)"
  unfolding deleteControlled_def
  by (intro read_rules keeps_deleteIgnoring storeReadsD(2)[OF assms(1)] assms(2)) simp

lemma keeps_cleanupOwnedChildren: "keeps R (cleanupOwnedChildren env owner sourceName)"
  unfolding cleanupOwnedChildren_def
  by (intro keeps_bind keeps_deleteControlled stores_read deletes keeps_reconcileServicePortForwards)
     (simp_all add: sourceRequest_def)

lemma keeps_cleanupAmbiguous: "keeps R (cleanupAmbiguousGeneratedChildren env owner sourceName e)"
  unfolding cleanupAmbiguousGeneratedChildren_def by (intro read_rules keeps_cleanupOwnedChildren)

text \<open>The claims that a pass holds are released by the fence.\<close>

lemma keeps_under_claim:
  assumes "\<And>resolved. keeps R (body resolved)" and "\<And>e. keeps R (onErr e)"
  shows "keeps R (tryE (acquireGeneratedChildClaims env o' ref ip ds fs) (\<lambda>x. case x of
    Inl e \<Rightarrow> onErr e | Inr y \<Rightarrow> (case y of (resolved, release) \<Rightarrow> deferE (body resolved) release)))"
proof (rule keeps_try_result[OF keeps_acquire])
  fix w x w1 assume run: "acquireGeneratedChildClaims env o' ref ip ds fs w = (x, w1)"
  show "keeps R (case x of Inl e \<Rightarrow> onErr e | Inr y \<Rightarrow> (case y of (resolved, release) \<Rightarrow> deferE (body resolved) release))"
  proof (cases x)
    case (Inr y)
    obtain resolved release where y: "y = (resolved, release)" by (cases y)
    with run Inr have "release = returnE () \<or> (\<exists>k. release = kClaimUnfence env k)"
      by (intro acquired_release) simp
    hence "keeps R release" by (auto intro: keeps_return fences_keep)
    with Inr y assms show ?thesis by (simp add: keeps_defer)
  qed (use assms in simp)
qed

lemma keeps_reconcileSelection: "keeps R (reconcileSelection env owner label sourceName notOwned sel children)"
proof -
  have release: "keeps R (tryE (acquireGeneratedChildClaims env owner ref ip ds fs) (\<lambda>x. case x of
      Inl err \<Rightarrow> (if list_ex (errorsIs err) [ErrGeneratedChildCollision, ErrImplicitRouterSelection]
        then cleanupAmbiguousGeneratedChildren env owner sourceName err else failE err)
    | Inr y \<Rightarrow> (case y of (resolved, release) \<Rightarrow> deferE
        (bindE (reconcileDNSChildren env owner notOwned resolved children) (\<lambda>_.
           bindE (reconcileServicePortForwards env (req\<lparr>pqRouterRef := resolved\<rparr>)) (\<lambda>_.
           bindE (reconcileOwnedClusterRoutes env
                    \<lparr>crOwner = owner, crSourceName = sourceName, crNamespace = omNamespace (ooMeta owner),
                     crRouterRef = resolved, crServices = slServices sel\<rparr>) (\<lambda>_.
             reportErrors (slErrors sel))))) release)))"
    if "pqOwner req = owner" for ref ip ds fs req
    using that unfolding reportErrors_def
    by (intro keeps_under_claim read_rules keeps_reconcileDNSChildren keeps_reconcileServicePortForwards
        keeps_reconcileOwnedRoutes keeps_cleanupAmbiguous) simp_all
  show ?thesis
    unfolding reconcileSelection_def orCleanupChildren_def Let_def
  proof (rule keeps_try_result[OF keeps_prepare], rule keeps_sum)
    fix w x w1 req
    assume "preparePortForwardReconcileRequest env
        ((sourceRequest owner sourceName (omNamespace (ooMeta owner)))
           \<lparr>pqPublicIP := mget (omAnnotations (ooMeta owner)) PublicIPAnnotation,
            pqRouterRef := mget (omAnnotations (ooMeta owner)) RouterRefAnnotation,
            pqServices := slServices sel, pqServicePorts := slPorts sel, pqRequireSelectedPorts := True\<rparr>) w = (x, w1)"
      and "x = Inr req"
    hence "pqOwner req = owner" using prepare_owner by (fastforce simp: sourceRequest_def)
    thus "keeps R (case validateGeneratedDNSCandidates (label @ '' '' @ omNamespace (ooMeta owner) @ ''/'' @ omName (ooMeta owner)) (slDNS sel) of
        None \<Rightarrow> tryE (acquireGeneratedChildClaims env owner (pqRouterRef req) (pqPublicIP req) (slDNS sel) (pqCandidates req)) (\<lambda>x. case x of
            Inl err \<Rightarrow> (if list_ex (errorsIs err) [ErrGeneratedChildCollision, ErrImplicitRouterSelection]
              then cleanupAmbiguousGeneratedChildren env owner sourceName err else failE err)
          | Inr y \<Rightarrow> (case y of (resolved, release) \<Rightarrow> deferE
              (bindE (reconcileDNSChildren env owner notOwned resolved children) (\<lambda>_.
                 bindE (reconcileServicePortForwards env (req\<lparr>pqRouterRef := resolved\<rparr>)) (\<lambda>_.
                 bindE (reconcileOwnedClusterRoutes env
                          \<lparr>crOwner = owner, crSourceName = sourceName, crNamespace = omNamespace (ooMeta owner),
                           crRouterRef = resolved, crServices = slServices sel\<rparr>) (\<lambda>_.
                   reportErrors (slErrors sel))))) release))
      | Some err \<Rightarrow> cleanupAmbiguousGeneratedChildren env owner sourceName err)"
      by (intro keeps_option keeps_cleanupAmbiguous release)
  qed (intro read_rules keeps_cleanupAmbiguous)
qed

lemma keeps_observeServices: "keeps R (observeServices env ks found errs)"
  by (induction ks arbitrary: found errs) (auto intro!: read_rules)

text \<open>The reconciler of Services.\<close>

lemma keeps_orCleanup:
  assumes "keeps R m" and "\<And>w x w1. m w = (Inr x, w1) \<Longrightarrow> keeps R (f x)" and "\<And>e. keeps R (cleanupGeneratedChildren env s e :: ('w, result) prog)"
  shows "keeps R (orCleanup env s sentinels m f)"
  unfolding orCleanup_def
proof (rule keeps_try_result[OF assms(1)], rule keeps_sum)
  fix w x w1 y assume "m w = (x, w1)" "x = Inr y"
  thus "keeps R (f y)" using assms(2) by blast
qed (intro keeps_if keeps_fail assms(3))

lemma keeps_outcome: "keeps R m \<Longrightarrow> keeps R (outcome m)"
  unfolding outcome_def by (intro read_rules)

lemma keeps_failIf: "keeps R (failIf e)"
  unfolding failIf_def by (intro read_rules)

lemma keeps_service_routes:
  "owner = serviceOwner s \<Longrightarrow> keeps R (reconcileServiceClusterRoutes env s ref)"
  "owner = serviceOwner s \<Longrightarrow> keeps R (deleteOwnedServiceClusterRoutes env s)"
  unfolding reconcileServiceClusterRoutes_def deleteOwnedServiceClusterRoutes_def
  by (simp_all add: keeps_reconcileOwnedRoutes ownedClusterRouteRequest_def)

lemma keeps_compact_service: "owner = serviceOwner s \<Longrightarrow> keeps R (compactServiceRouteRouterTarget env s ref)"
  unfolding compactServiceRouteRouterTarget_def putServiceAnnotations_def
  by (intro read_rules keeps_void update_self) (simp_all add: serviceOwner_def metaKey_def)

lemma keeps_drop_finalizer: "owner = serviceOwner s \<Longrightarrow> keeps R (stUpdate (kServices env) (withoutRouteFinalizer s))"
  by (rule update_self) (simp_all add: serviceOwner_def metaKey_def withoutRouteFinalizer_def)

lemma keeps_releaseService: "owner = serviceOwner s \<Longrightarrow> keeps R (releaseService env s)"
  unfolding releaseService_def
  by (intro read_rules keeps_thenReturn keeps_void keeps_drop_finalizer keeps_compact_service)

lemma keeps_deleteServiceRecord: "owner = serviceOwner s \<Longrightarrow> keeps R (deleteServiceRecord env s)"
  unfolding deleteServiceRecord_def
  by (intro read_rules keeps_deleteIgnoring delete_dns) (simp add: serviceOwner_def)

lemma keeps_cleanupGenerated: "owner = serviceOwner s \<Longrightarrow> keeps R (cleanupGeneratedChildren env s e)"
  unfolding cleanupGeneratedChildren_def
  by (intro read_rules keeps_outcome keeps_deleteServiceRecord keeps_reconcileServicePortForwards keeps_service_routes)
     (simp_all add: sourceRequest_def)

lemma keeps_dropServiceRecord: "owner = serviceOwner s \<Longrightarrow> keeps R (dropServiceRecord env s)"
  unfolding dropServiceRecord_def
  by (intro read_rules keeps_releaseService delete_dns) (simp_all add: serviceOwner_def)

lemma keeps_applyServiceRecord:
  assumes "owner = serviceOwner s"
  shows "keeps R (applyServiceRecord env s ref n a)"
proof -
  have update: "keeps R (stUpdate (kDNS env) (r\<lparr>dnsSpecOf := sp\<rparr>))"
    if "isControlledBy (dnsMeta r) (svMeta s)" for r sp
    using that assms by (intro update_dns) (simp add: serviceOwner_def)
  have create: "keeps R (stCreate (kDNS env) \<lparr>dnsMeta = m', dnsSpecOf = sp, dnsStatusOf = st\<rparr>)"
    if "kSetOwner env (kindName OwnService) (svMeta s) m = Inr m'" for m m' sp st
    using that assms by (intro create_dns) (simp add: serviceOwner_def)
  show ?thesis
    unfolding applyServiceRecord_def
    by (intro read_rules keeps_thenReturn keeps_void create update) simp_all
qed

lemma keeps_resolveRouterRef: "keeps R (resolveRouterRef env s)"
  unfolding resolveRouterRef_def by (intro read_rules keeps_resolveRouterReference)

lemma keeps_reconcileService:
  assumes owner: "owner = serviceOwner s"
  shows "keeps R (reconcileService env key s)"
proof -
  have named: "keeps R (reconcileUnnamed env s req)" "keeps R (reconcileNamed env key s n req)"
    if "pqOwner req = owner" for req n
    using that unfolding reconcileUnnamed_def reconcileNamed_def orCleanup_def publishedAddress_def
    by (intro read_rules keeps_under_claim keeps_resolveRouterRef keeps_reconcileServicePortForwards
        keeps_service_routes keeps_dropServiceRecord keeps_applyServiceRecord keeps_cleanupGenerated;
        simp add: owner)+
  have request: "pqOwner (serviceRequest s) = owner"
    by (simp add: serviceRequest_def sourceRequest_def owner)
  show ?thesis
    unfolding reconcileService_def reconcileServiceDeletion_def Let_def
  proof (intro keeps_if keeps_bind keeps_outcome keeps_failIf keeps_service_routes keeps_try keeps_sum keeps_orCleanup)
    fix w req w1
    assume "preparePortForwardReconcileRequest env (serviceRequest s) w = (Inr req, w1)"
    hence "pqOwner req = owner" using prepare_owner request by fastforce
    thus "keeps R (reconcileUnnamed env s req)" "keeps R (reconcileNamed env key s (mget (omAnnotations (svMeta s)) DNSNameAnnotation) req)"
      by (rule named)+
  qed (simp_all add: owner keeps_prepare keeps_drop_finalizer keeps_cleanupGenerated)
qed

end

text \<open>Passes over Ingresses and HTTPRoutes also read the networking objects.\<close>

locale net_frame = owned_frame R I env owner
  for R :: "'w \<Rightarrow> 'w \<Rightarrow> bool" and I :: "'w \<Rightarrow> bool" and env :: "'w env" and owner :: ownerObj +
  fixes net :: "'w netEnv"
  assumes net_keep: "keeps R (nGetIngressClass net n)" "keeps R (nGetGateway net k)" "keeps R (nGetGatewayClass net n)"
      "keeps R (nListReferenceGrants net n)" "keeps R (nGetNamespaceLabels net n)"
begin

lemma keeps_reconcileIngress: "owner = ingressOwner ig \<Longrightarrow> keeps R (reconcileIngress env net ig)"
  unfolding reconcileIngress_def observeIngressServices_def
  using keeps_cleanupOwnedChildren keeps_reconcileSelection
  by (intro read_rules net_keep keeps_thenReturn keeps_observeServices) (simp_all add: keeps_thenReturn)

lemma keeps_listenerHostnames: "keeps R (listenerHostnames net g p r acc ls)"
  by (induction ls arbitrary: acc)
     (auto simp: listenerAdmits_def namespaceAdmitted_def Let_def intro!: read_rules net_keep)

lemma keeps_parentsHostnames: "keeps R (parentsHostnames net c n r acc ps)"
  by (induction ps arbitrary: acc)
     (auto simp: parentHostnames_def orMissing_def acceptedListenerHostnames_def
        intro!: read_rules net_keep keeps_listenerHostnames)

lemma keeps_allowedFrom: "keeps R (allowedFrom net r acc bs)"
  by (induction bs arbitrary: acc)
     (auto simp: referenceGrantPermitsService_def Let_def intro!: read_rules net_keep)

lemma keeps_reconcileHTTPRoute: "owner = routeOwner r \<Longrightarrow> keeps R (reconcileHTTPRoute env net cfg r)"
  unfolding reconcileHTTPRoute_def acceptedHostnamesForMikroTikGateway_def allowedCrossNamespaceBackends_def observeRouteServices_def
  using keeps_cleanupOwnedChildren keeps_reconcileSelection
  by (intro read_rules keeps_parentsHostnames keeps_allowedFrom keeps_observeServices keeps_thenReturn) simp_all

end

end
