(* ===== verification/Write_Log.thy ===== *)
theory Write_Log
  imports Translate_Frame
begin

text \<open>
  The writes of a pass.  \<open>logEnv\<close> runs any environment and keeps a list of the writes that are asked of
  the API server; the worlds of the locales of \<open>Translate_Frame\<close> are then pairs of a world and such a
  list, and what the translators write is read off the list.
\<close>

section \<open>Environments with a log\<close>

datatype writeOp = OpCreate | OpUpdate | OpStatus | OpDelete

datatype writeCall =
    WRouter writeOp router
  | WDNS writeOp dnsRecord
  | WForward writeOp portForward
  | WRoute writeOp route
  | WFirewall writeOp firewallRule
  | WService writeOp service

type_synonym 'w logged = "'w \<times> writeCall list"

definition unlogged :: "('w, 'a) prog \<Rightarrow> ('w logged, 'a) prog" where
  "unlogged m w = (case m (fst w) of (r, w') \<Rightarrow> (r, (w', snd w)))"

definition logging :: "writeCall \<Rightarrow> ('w, 'a) prog \<Rightarrow> ('w logged, 'a) prog" where
  "logging e m w = (case m (fst w) of (r, w') \<Rightarrow> (r, (w', snd w @ [e])))"

definition logStore :: "(writeOp \<Rightarrow> 'o \<Rightarrow> writeCall) \<Rightarrow> ('w, 'o) store \<Rightarrow> ('w logged, 'o) store" where
  "logStore mk st =
     \<lparr>stGet = (\<lambda>k. unlogged (stGet st k)), stList = (\<lambda>ns. unlogged (stList st ns)),
      stCreate = (\<lambda>x. logging (mk OpCreate x) (stCreate st x)), stUpdate = (\<lambda>x. logging (mk OpUpdate x) (stUpdate st x)),
      stUpdateStatus = (\<lambda>x. logging (mk OpStatus x) (stUpdateStatus st x)),
      stDelete = (\<lambda>x. logging (mk OpDelete x) (stDelete st x))\<rparr>"

definition logClient :: "'w rosClient \<Rightarrow> 'w logged rosClient" where
  "logClient c = \<lparr>rcRun = (\<lambda>args. unlogged (rcRun c args)), rcClose = unlogged (rcClose c)\<rparr>"

definition logEnv :: "'w env \<Rightarrow> 'w logged env" where
  "logEnv env =
     \<lparr>kRouters = logStore WRouter (kRouters env), kDNS = logStore WDNS (kDNS env),
      kForwards = logStore WForward (kForwards env), kRoutes = logStore WRoute (kRoutes env),
      kFirewall = logStore WFirewall (kFirewall env), kServices = logStore WService (kServices env),
      kGetPod = (\<lambda>k. unlogged (kGetPod env k)), kListNodes = unlogged (kListNodes env),
      kGetSecret = (\<lambda>k. unlogged (kGetSecret env k)), kNow = (\<lambda>w. kNow env (fst w)), kSetOwner = kSetOwner env,
      kFactory = (\<lambda>a p t u pw. bindE (unlogged (kFactory env a p t u pw)) (\<lambda>c. returnE (logClient c))),
      kFence = (\<lambda>k. unlogged (kFence env k)), kUnfence = (\<lambda>k. unlogged (kUnfence env k)),
      kClaimFence = (\<lambda>k. unlogged (kClaimFence env k)), kClaimUnfence = (\<lambda>k. unlogged (kClaimUnfence env k))\<rparr>"

definition logNet :: "'w netEnv \<Rightarrow> 'w logged netEnv" where
  "logNet net =
     \<lparr>nGetIngress = (\<lambda>k. unlogged (nGetIngress net k)), nListIngresses = (\<lambda>ns. unlogged (nListIngresses net ns)),
      nGetIngressClass = (\<lambda>n. unlogged (nGetIngressClass net n)), nGetHTTPRoute = (\<lambda>k. unlogged (nGetHTTPRoute net k)),
      nListHTTPRoutes = (\<lambda>ns. unlogged (nListHTTPRoutes net ns)), nGetGateway = (\<lambda>k. unlogged (nGetGateway net k)),
      nListGateways = unlogged (nListGateways net), nGetGatewayClass = (\<lambda>n. unlogged (nGetGatewayClass net n)),
      nListReferenceGrants = (\<lambda>ns. unlogged (nListReferenceGrants net ns)),
      nGetNamespaceLabels = (\<lambda>n. unlogged (nGetNamespaceLabels net n)), nSelector = nSelector net\<rparr>"

section \<open>Own writes\<close>

text \<open>A write an owner may make: it creates objects that carry its reference, changes and deletes
  objects it controls, and a Service updates itself.\<close>

definition madeBy :: "'w env \<Rightarrow> ownerObj \<Rightarrow> objectMeta \<Rightarrow> bool" where
  "madeBy env owner m \<longleftrightarrow> (\<exists>m0. kSetOwner env (kindName (ooKind owner)) (ooMeta owner) m0 = Inr m)"

fun ownChild :: "'w env \<Rightarrow> ownerObj \<Rightarrow> writeOp \<Rightarrow> objectMeta \<Rightarrow> bool" where
  "ownChild env owner OpCreate m = madeBy env owner m"
| "ownChild env owner OpUpdate m = isControlledBy m (ooMeta owner)"
| "ownChild env owner OpDelete m = isControlledBy m (ooMeta owner)"
| "ownChild env owner OpStatus m = False"

fun ownWrite :: "'w env \<Rightarrow> ownerObj \<Rightarrow> writeCall \<Rightarrow> bool" where
  "ownWrite env owner (WDNS op d) = ownChild env owner op (dnsMeta d)"
| "ownWrite env owner (WForward op f) = ownChild env owner op (pfMeta f)"
| "ownWrite env owner (WRoute op r) = ownChild env owner op (routeMeta r)"
| "ownWrite env owner (WService op s) =
     (op = OpUpdate \<and> ooKind owner = OwnService \<and> metaKey (svMeta s) = metaKey (ooMeta owner))"
| "ownWrite env owner (WRouter op r) = False"
| "ownWrite env owner (WFirewall op r) = False"

definition wrote :: "(writeCall \<Rightarrow> bool) \<Rightarrow> 'w logged \<Rightarrow> 'w logged \<Rightarrow> bool" where
  "wrote P w w' \<longleftrightarrow> (\<exists>es. snd w' = snd w @ es \<and> list_all P es)"

interpretation wrote: guarded_frame "wrote P" "\<lambda>_. True" for P
  by unfold_locales (auto simp: wrote_def)

lemma keeps_unlogged: "keeps (wrote P) (unlogged m)"
  by (auto simp: keeps_def wrote_def unlogged_def split: prod.split)

lemma keeps_logging: "P e \<Longrightarrow> keeps (wrote P) (logging e m)"
  by (auto simp: keeps_def wrote_def logging_def split: prod.split)

lemma logEnv_fields:
  "kRouters (logEnv env) = logStore WRouter (kRouters env)" "kDNS (logEnv env) = logStore WDNS (kDNS env)"
  "kForwards (logEnv env) = logStore WForward (kForwards env)" "kRoutes (logEnv env) = logStore WRoute (kRoutes env)"
  "kFirewall (logEnv env) = logStore WFirewall (kFirewall env)" "kServices (logEnv env) = logStore WService (kServices env)"
  "kSetOwner (logEnv env) = kSetOwner env"
  by (simp_all add: logEnv_def)

lemma logStore_fields:
  "stCreate (logStore mk st) x = logging (mk OpCreate x) (stCreate st x)"
  "stUpdate (logStore mk st) x = logging (mk OpUpdate x) (stUpdate st x)"
  "stDelete (logStore mk st) x = logging (mk OpDelete x) (stDelete st x)"
  by (simp_all add: logStore_def)

lemma logStore_reads: "storeReads (wrote P) (logStore mk st)"
  by (simp add: storeReads_def logStore_def keeps_unlogged)

interpretation translators: net_frame "wrote (ownWrite env owner)" "\<lambda>_. True" "logEnv env" owner "logNet net"
  for env :: "'w env" and owner and net :: "'w netEnv"
proof unfold_locales
  show "keeps (wrote (ownWrite env owner)) (kGetPod (logEnv env) k)" "keeps (wrote (ownWrite env owner)) (kListNodes (logEnv env))"
    "keeps (wrote (ownWrite env owner)) (kGetSecret (logEnv env) k)" "keeps (wrote (ownWrite env owner)) (kFence (logEnv env) k)"
    "keeps (wrote (ownWrite env owner)) (kUnfence (logEnv env) k)" "keeps (wrote (ownWrite env owner)) (kClaimFence (logEnv env) k)"
    "keeps (wrote (ownWrite env owner)) (kClaimUnfence (logEnv env) k)" for k
    by (simp_all add: logEnv_def keeps_unlogged)
  show "keeps (wrote (ownWrite env owner)) (nGetIngressClass (logNet net) n)" "keeps (wrote (ownWrite env owner)) (nGetGateway (logNet net) k)"
    "keeps (wrote (ownWrite env owner)) (nGetGatewayClass (logNet net) n)" "keeps (wrote (ownWrite env owner)) (nListReferenceGrants (logNet net) n)"
    "keeps (wrote (ownWrite env owner)) (nGetNamespaceLabels (logNet net) n)" for n k
    by (simp_all add: logNet_def keeps_unlogged)
qed (auto simp: logEnv_fields logStore_reads logStore_fields madeBy_def intro!: keeps_logging)


end
