(* ===== verification/Ui_Frame.thy ===== *)
theory Ui_Frame
  imports Ui_Handlers Write_Log
begin

text \<open>
  What the requests of the admin UI do to the API server: a locale for relations that reads keep, in
  which every request that is not one of the three writing ones keeps the relation, and the log of the
  writes a request asks for.
\<close>

section \<open>Reading\<close>

locale ui_reads = frame R
  for R :: "'w \<Rightarrow> 'w \<Rightarrow> bool" +
  fixes ui :: "'w uiEnv"
  assumes get_keep: "keeps R (uiGet (uiKube ui) T k)" and list_keep: "keeps R (uiList (uiKube ui) T ns)"
    and names_keep: "keeps R (uiListNamespaces ui n)" "keeps R (uiListNames ui kind ns)"
    and stat_keep: "keeps R (uiStat ui file)"
begin

lemma keeps_clientCall:
  assumes "keeps R m" and "\<And>x. keeps R (f x)"
  shows "keeps R (clientCall h m f)"
  unfolding clientCall_def using assms by (intro keeps_combinators)

lemmas rules = keeps_combinators keeps_branches keeps_clientCall get_keep list_keep names_keep stat_keep

lemma keeps_overviewFrom: "keeps R (overviewFrom h ui counts specs)"
proof (induction specs arbitrary: counts)
  case (Cons spec specs)
  show ?case unfolding overviewFrom.simps by (intro rules Cons.IH)
qed (simp add: keeps_return)

lemma keeps_handlers:
  "keeps R healthz" "keeps R (readyz h ui)" "keeps R (configHandler h)" "keeps R (overview h ui)"
  "keeps R (listNamespaces h ui)" "keeps R (listNamespacedNames h ui nk ns)" "keeps R (listResources h ui kind ns)"
  "keeps R (getResource h ui kind ns name)" "keeps R (serveSPA h ui r)" "keeps R apiNotFound"
  unfolding healthz_def readyz_def configHandler_def overview_def listNamespaces_def listNamespacedNames_def
    listResources_def getResource_def serveSPA_def apiNotFound_def
  by (intro rules keeps_overviewFrom)+

lemmas handler_rules = rules keeps_handlers

text \<open>The three requests that may write; all others only read.\<close>

lemma apiHandler_cases:
  obtains (reads) "keeps R (apiHandler h ui r ss)"
    | (create) kind ns where "ss = [''resources'', kind, ns]" "rqMethod r = ''POST''"
        "apiHandler h ui r ss = createResource h ui r kind ns"
    | (update) kind ns name where "ss = [''resources'', kind, ns, name]" "rqMethod r = ''PUT''"
        "apiHandler h ui r ss = updateResource h ui r kind ns name"
    | (delete) kind ns name where "ss = [''resources'', kind, ns, name]" "rqMethod r = ''DELETE''"
        "apiHandler h ui r ss = deleteResource h ui kind ns name"
proof -
  consider (post) kind ns where "ss = [''resources'', kind, ns]" "kind \<noteq> []" "ns \<noteq> []" "rqMethod r = ''POST''"
    | (put) kind ns name where "ss = [''resources'', kind, ns, name]" "kind \<noteq> []" "ns \<noteq> []" "name \<noteq> []" "rqMethod r = ''PUT''"
    | (del) kind ns name where "ss = [''resources'', kind, ns, name]" "kind \<noteq> []" "ns \<noteq> []" "name \<noteq> []" "rqMethod r = ''DELETE''"
    | (other) "\<nexists>kind ns. ss = [''resources'', kind, ns] \<and> kind \<noteq> [] \<and> ns \<noteq> [] \<and> rqMethod r = ''POST''"
        "\<nexists>kind ns name. ss = [''resources'', kind, ns, name] \<and> kind \<noteq> [] \<and> ns \<noteq> [] \<and> name \<noteq> [] \<and>
           (rqMethod r = ''PUT'' \<or> rqMethod r = ''DELETE'')"
    by blast
  thus thesis
  proof cases
    case post
    with create[of kind ns] show ?thesis by (simp add: apiHandler_def isRead_def)
  next
    case put
    with update[of kind ns name] show ?thesis by (simp add: apiHandler_def isRead_def)
  next
    case del
    with delete[of kind ns name] show ?thesis by (simp add: apiHandler_def isRead_def)
  next
    case other
    have "keeps R (apiHandler h ui r ss)"
      unfolding apiHandler_def Let_def
      using other by (intro keeps_if keeps_handlers keeps_list) auto
    thus ?thesis by (rule reads)
  qed
qed

lemma keeps_muxRest: "keeps R (if hdStaticDir h \<noteq> [] then serveSPA h ui r else returnE x)"
  by (intro handler_rules)

lemma muxHandler_cases:
  obtains (reads) "keeps R (muxHandler h ui r)"
    | (create) kind ns where "rqSegments r = [''api'', ''resources'', kind, ns]" "rqMethod r = ''POST''"
        "muxHandler h ui r = createResource h ui r kind ns"
    | (update) kind ns name where "rqSegments r = [''api'', ''resources'', kind, ns, name]" "rqMethod r = ''PUT''"
        "muxHandler h ui r = updateResource h ui r kind ns name"
    | (delete) kind ns name where "rqSegments r = [''api'', ''resources'', kind, ns, name]" "rqMethod r = ''DELETE''"
        "muxHandler h ui r = deleteResource h ui kind ns name"
proof (cases "\<exists>b ss. rqSegments r = ''api'' # b # ss")
  case True
  then obtain b ss where s: "rqSegments r = ''api'' # b # ss" by blast
  hence eq: "muxHandler h ui r = apiHandler h ui r (b # ss)" by (simp add: muxHandler_def)
  show thesis
    by (cases rule: apiHandler_cases[of h r "b # ss"]) (use s eq that in simp_all)
next
  case False
  have "keeps R (muxHandler h ui r)"
    unfolding muxHandler_def Let_def
    using False by (intro keeps_list keeps_if keeps_muxRest keeps_handlers keeps_return) auto
  thus thesis by (rule reads)
qed

lemma reading_keeps:
  assumes "isRead (rqMethod r)"
  shows "keeps R (serveUI h ui r)"
proof -
  have "keeps R (muxHandler h ui r)"
    by (cases rule: muxHandler_cases[of h r]) (use assms in \<open>auto simp: isRead_def\<close>)
  thus ?thesis unfolding serveUI_def by (intro handler_rules)
qed

end

section \<open>The log of a request\<close>

definition logUi :: "'w uiEnv \<Rightarrow> 'w logged uiEnv" where
  "logUi ui =
     \<lparr>uiKube = logEnv (uiKube ui), uiListNamespaces = (\<lambda>n. unlogged (uiListNamespaces ui n)),
      uiListNames = (\<lambda>k ns. unlogged (uiListNames ui k ns)), uiStat = (\<lambda>f. unlogged (uiStat ui f)),
      uiDecode = uiDecode ui, uiMarshal = uiMarshal ui, uiExtract = uiExtract ui, uiValidName = uiValidName ui\<rparr>"

fun uiCall :: "writeOp \<Rightarrow> uiObject \<Rightarrow> writeCall" where
  "uiCall op (UiRouter r) = WRouter op r"
| "uiCall op (UiDNS r) = WDNS op r"
| "uiCall op (UiRoute r) = WRoute op r"
| "uiCall op (UiForward f) = WForward op f"
| "uiCall op (UiFirewall r) = WFirewall op r"

lemma logUi_fields [simp]:
  "uiKube (logUi ui) = logEnv (uiKube ui)" "uiListNamespaces (logUi ui) n = unlogged (uiListNamespaces ui n)"
  "uiListNames (logUi ui) k ns = unlogged (uiListNames ui k ns)" "uiStat (logUi ui) f = unlogged (uiStat ui f)"
  "uiDecode (logUi ui) = uiDecode ui" "uiMarshal (logUi ui) = uiMarshal ui" "uiExtract (logUi ui) = uiExtract ui"
  "uiValidName (logUi ui) = uiValidName ui"
  by (simp_all add: logUi_def)

lemma viaStore_log:
  "viaStore c (unlogged m) = unlogged (viaStore c m)" "viaStore c (logging e m) = logging e (viaStore c m)"
  by (auto simp: viaStore_def bindE_def unlogged_def logging_def fun_eq_iff returnE_def split: prod.split sum.split)

lemma client_log:
  "uiGet (logEnv env) T k = unlogged (uiGet env T k)" "uiList (logEnv env) T ns = unlogged (uiList env T ns)"
  "uiCreate (logEnv env) x = logging (uiCall OpCreate x) (uiCreate env x)"
  "uiUpdate (logEnv env) x = logging (uiCall OpUpdate x) (uiUpdate env x)"
  "uiDelete (logEnv env) x = logging (uiCall OpDelete x) (uiDelete env x)"
  subgoal by (cases T; simp add: logEnv_fields logStore_def viaStore_log)
  subgoal by (cases T; simp add: logEnv_fields logStore_def viaStore_log)
  by (cases x; simp add: logEnv_fields logStore_def viaStore_log)+

interpretation uilog: ui_reads "wrote P" "logUi ui" for P and ui :: "'w uiEnv"
  by unfold_locales (simp_all add: client_log keeps_unlogged)

lemma logUi_pure:
  "writeResourceStatus (logUi ui) = writeResourceStatus ui" "writeResource (logUi ui) = writeResource ui"
  "lookupObject (logUi ui) = lookupObject ui" "decodeObject (logUi ui) = decodeObject ui"
  unfolding writeResource_def[abs_def] writeResourceStatus_def[abs_def] annotateResource_def lookupObject_def[abs_def] decodeObject_def[abs_def]
    logUi_fields
  by (rule refl)+

lemmas log_run = logUi_pure client_log clientCall_def tryE_def returnE_def failE_def unlogged_def logging_def

end
