(* ===== verification/Ui_Properties.thy ===== *)
theory Ui_Properties
  imports Ui_Frame Reconcile_Properties
begin

text \<open>
  The properties of the admin UI's API: which writes a request may ask for, that every request is
  answered, that no file outside the static directory is served, and what replacing an object keeps of
  its metadata; with runs on the cluster of \<open>Kube_Sim\<close>.
\<close>

section \<open>A UI on the cluster\<close>

text \<open>Bodies are decoded by a table; JSON is the object's name.\<close>

definition simUi :: "(string \<times> uiObject) list \<Rightarrow> cluster uiEnv" where
  "simUi bodies =
     \<lparr>uiKube = simEnv, uiListNamespaces = (\<lambda>_. returnE [''lab'']), uiListNames = (\<lambda>_ _. returnE []),
      uiStat = (\<lambda>f. if f = ''/ui/app.js'' then returnE False else failE (Opaque ''no such file'')),
      uiDecode = (\<lambda>T s. case map_of bodies s of
         None \<Rightarrow> Inl (Opaque ''bad'') | Some x \<Rightarrow> if typeOf x = T then Inr x else Inl (Opaque ''bad'')),
      uiMarshal = (\<lambda>_ x. Inr (omName (uiMeta x))), uiExtract = Inr, uiValidName = (\<lambda>n. n \<noteq> [])\<rparr>"

definition uiReq :: "string \<Rightarrow> string list \<Rightarrow> string \<Rightarrow> uiRequest" where
  "uiReq method segments body =
     \<lparr>rqMethod = method, rqPath = ''/'' @ joinWith ''/'' segments, rqSegments = segments, rqNamespaceQuery = [],
      rqBody = body, rqReadError = None, rqCloseError = None\<rparr>"

definition labUi :: uiHandler where
  "labUi = newHandler True ''/ui'' ''lab''"

section \<open>Writes\<close>

text \<open>A write of a request: a POST creates one object, in the namespace of the path and of the type of
  the kind; a PUT replaces the stored object of the path, with the same key and the metadata the
  operator relies on; a DELETE deletes it.  The stored object has no controller in both cases.\<close>

definition keptOnReplace :: "objectMeta \<Rightarrow> objectMeta \<Rightarrow> bool" where
  "keptOnReplace existing m \<longleftrightarrow>
     metaKey m = metaKey existing \<and> omUID m = omUID existing \<and> omFinalizers m = omFinalizers existing \<and>
     omOwnerReferences m = omOwnerReferences existing"

definition permittedCreate :: "uiRequest \<Rightarrow> writeCall \<Rightarrow> bool" where
  "permittedCreate r c \<longleftrightarrow> (\<exists>kind ns spec x. rqMethod r = ''POST'' \<and> rqSegments r = [''api'', ''resources'', kind, ns] \<and>
     lookupKind kind = Some spec \<and> typeOf x = ksType spec \<and> omNamespace (uiMeta x) = ns \<and> c = uiCall OpCreate x)"

definition permittedChange :: "'w uiEnv \<Rightarrow> uiRequest \<Rightarrow> 'w \<Rightarrow> writeCall \<Rightarrow> bool" where
  "permittedChange ui r w c \<longleftrightarrow> (\<exists>kind ns name spec existing w1. rqSegments r = [''api'', ''resources'', kind, ns, name] \<and>
     lookupKind kind = Some spec \<and> uiGet (uiKube ui) (ksType spec) (mkName ns name) w = (Inr existing, w1) \<and>
     controllerOf (uiMeta existing) = None \<and>
     (rqMethod r = ''PUT'' \<and> (\<exists>x. c = uiCall OpUpdate x \<and> typeOf x = ksType spec \<and> keptOnReplace (uiMeta existing) (uiMeta x)) \<or>
      rqMethod r = ''DELETE'' \<and> c = uiCall OpDelete existing))"

text \<open>Decoding fills an object of the type it is given.\<close>

definition decodesTyped :: "'w uiEnv \<Rightarrow> bool" where
  "decodesTyped ui \<longleftrightarrow> (\<forall>T s x. uiDecode ui T s = Inr x \<longrightarrow> typeOf x = T)"

lemma decodeObject_typed:
  "decodesTyped ui \<Longrightarrow> decodeObject ui r spec = Inr x \<Longrightarrow> typeOf x = ksType spec"
  by (auto simp: decodesTyped_def decodeObject_def split: sum.splits bodyError.splits if_splits)

lemma controllerOwner_None: "controllerOwner m = None \<longleftrightarrow> controllerOf m = None"
  by (simp add: controllerOwner_def controllerOf_def split: option.split)

lemma lookupObject_Inr:
  "lookupObject ui kind ns name = Inr (spec, key) \<longleftrightarrow>
     lookupKind kind = Some spec \<and> uiValidName ui ns \<and> uiValidName ui name \<and> key = mkName ns name"
  by (auto simp: lookupObject_def split: option.split)

definition requestLog :: "('w logged, 'a) prog \<Rightarrow> 'w \<Rightarrow> writeCall list" where
  "requestLog m w = snd (snd (m (w, [])))"

lemma requestLog_keeps:
  assumes "keeps (wrote (\<lambda>_. False)) m"
  shows "requestLog m w = []"
proof -
  from assms have "wrote (\<lambda>_. False) (w, []) (snd (m (w, [])))" unfolding keeps_def by blast
  thus ?thesis by (cases "snd (snd (m (w, [])))") (auto simp: wrote_def requestLog_def)
qed

lemma requestLog_serveUI: "requestLog (serveUI h ui r) w = requestLog (muxHandler h ui r) w"
  by (simp add: requestLog_def serveUI_def bindE_def returnE_def split: prod.split sum.split)

lemma requestLog_simps [simp]:
  "requestLog (returnE v) w = []" "requestLog (failE err) w = []"
  "requestLog (clientCall h (unlogged m) f) w = (if hdHasKube h then (case m w of (x, w1) \<Rightarrow> requestLog (f x) w1) else [])"
  "requestLog (clientCall h (logging e m) (\<lambda>x. case x of Inl e \<Rightarrow> returnE (a e) | Inr y \<Rightarrow> returnE (b y))) w =
     (if hdHasKube h then [e] else [])"
  by (auto simp: requestLog_def clientCall_def tryE_def returnE_def failE_def unlogged_def logging_def split: prod.split sum.split)

lemma create_log:
  assumes "decodesTyped ui"
  shows "requestLog (createResource h (logUi ui) r kind ns) w = [] \<or>
    (\<exists>spec x. requestLog (createResource h (logUi ui) r kind ns) w = [uiCall OpCreate x] \<and> lookupKind kind = Some spec \<and>
       typeOf x = ksType spec \<and> omNamespace (uiMeta x) = ns)"
proof (cases "lookupKind kind")
  case (Some spec)
  show ?thesis
  proof (cases "decodeObject ui r spec")
    case (Inr x)
    let ?x = "mapMeta (\<lambda>m. m\<lparr>omNamespace := ns\<rparr>) x"
    have "requestLog (createResource h (logUi ui) r kind ns) w \<in> {[], [uiCall OpCreate ?x]}"
      by (simp add: createResource_def Some Inr logUi_pure client_log)
    moreover have "typeOf ?x = ksType spec" using decodeObject_typed[OF assms Inr] by simp
    moreover have "omNamespace (uiMeta ?x) = ns" by simp
    ultimately show ?thesis using Some by blast
  qed (simp add: createResource_def Some logUi_pure)
qed (simp add: createResource_def)

lemma keptOnReplace_replacementMeta: "keptOnReplace existing (replacementMeta existing m)"
  by (simp add: keptOnReplace_def replacementMeta_def preserveManagedMetadata_def metaKey_def)

lemma change_log:
  assumes "decodesTyped ui"
    and m: "m = updateResource h (logUi ui) r kind ns name \<and> rqMethod r = ''PUT'' \<or>
      m = deleteResource h (logUi ui) kind ns name \<and> rqMethod r = ''DELETE''"
    and s: "rqSegments r = [''api'', ''resources'', kind, ns, name]"
  shows "requestLog m w = [] \<or> (\<exists>c. requestLog m w = [c] \<and> permittedChange ui r w c)"
proof (cases "lookupObject ui kind ns name")
  case (Inl resp)
  with m show ?thesis by (auto simp: updateResource_def deleteResource_def logUi_pure)
next
  case (Inr sk)
  then obtain spec where sk: "sk = (spec, mkName ns name)" and spec: "lookupKind kind = Some spec"
    by (cases sk) (simp add: lookupObject_Inr)
  obtain g w1 where g: "uiGet (uiKube ui) (ksType spec) (mkName ns name) w = (g, w1)" by (meson surj_pair)
  show ?thesis
  proof (cases "\<exists>existing. g = Inr existing \<and> controllerOwner (uiMeta existing) = None")
    case False
    with m show ?thesis
      by (auto simp: updateResource_def deleteResource_def logUi_pure Inr sk client_log g split: sum.split option.split)
  next
    case True
    then obtain existing where ex: "g = Inr existing" "controllerOwner (uiMeta existing) = None" by blast
    show ?thesis
    proof (cases "rqMethod r = ''DELETE''")
      case True
      with m have "m = deleteResource h (logUi ui) kind ns name" by auto
      hence "requestLog m w \<in> {[], [uiCall OpDelete existing]}"
        by (simp add: deleteResource_def logUi_pure Inr sk client_log g ex)
      moreover have "permittedChange ui r w (uiCall OpDelete existing)"
        unfolding permittedChange_def
        by (intro exI conjI, rule s, rule spec, rule g[unfolded ex(1)]) (use True ex controllerOwner_None in auto)
      ultimately show ?thesis by blast
    next
      case False
      with m have put: "m = updateResource h (logUi ui) r kind ns name" "rqMethod r = ''PUT''" by auto
      show ?thesis
      proof (cases "decodeObject ui r spec")
        case Inl: (Inl resp)
        show ?thesis by (simp add: put updateResource_def logUi_pure Inr sk client_log g ex Inl)
      next
        case dec: (Inr x)
        let ?x = "mapMeta (replacementMeta (uiMeta existing)) x"
        have "requestLog m w \<in> {[], [uiCall OpUpdate ?x]}"
          by (simp add: put updateResource_def logUi_pure Inr sk client_log g ex dec)
        moreover have "permittedChange ui r w (uiCall OpUpdate ?x)"
          unfolding permittedChange_def
          by (intro exI conjI, rule s, rule spec, rule g[unfolded ex(1)])
             (use put ex controllerOwner_None decodeObject_typed[OF assms(1) dec] keptOnReplace_replacementMeta in auto)
        ultimately show ?thesis by blast
      qed
    qed
  qed
qed

text \<open>
  C31.  A request asks the API server for at most one write, and only for one it may: a POST creates an
  object of the kind in the namespace of its path; a PUT or DELETE changes the stored object its path
  names, and only if that object has no controller; a replaced object keeps its key, UID, finalizers
  and owners, whatever the body says.  Any other request writes nothing.
\<close>

theorem ui_writes_permitted:
  assumes "decodesTyped ui"
  shows "requestLog (serveUI h (logUi ui) r) w = [] \<or>
    (\<exists>c. requestLog (serveUI h (logUi ui) r) w = [c] \<and> (permittedCreate r c \<or> permittedChange ui r w c))"
  unfolding requestLog_serveUI
proof (cases rule: uilog.muxHandler_cases[where P = "\<lambda>_. False" and ui = ui and h = h and r = r])
  case reads
  thus "requestLog (muxHandler h (logUi ui) r) w = [] \<or>
    (\<exists>c. requestLog (muxHandler h (logUi ui) r) w = [c] \<and> (permittedCreate r c \<or> permittedChange ui r w c))"
    by (simp add: requestLog_keeps)
next
  case (create kind ns)
  from create_log[OF assms, of h r kind ns w] create
  show "requestLog (muxHandler h (logUi ui) r) w = [] \<or>
    (\<exists>c. requestLog (muxHandler h (logUi ui) r) w = [c] \<and> (permittedCreate r c \<or> permittedChange ui r w c))"
    unfolding permittedCreate_def create(3) by blast
next
  case (update kind ns name)
  with change_log[OF assms _ update(1), of "muxHandler h (logUi ui) r" h w]
  show "requestLog (muxHandler h (logUi ui) r) w = [] \<or>
    (\<exists>c. requestLog (muxHandler h (logUi ui) r) w = [c] \<and> (permittedCreate r c \<or> permittedChange ui r w c))" by blast
next
  case (delete kind ns name)
  with change_log[OF assms _ delete(1), of "muxHandler h (logUi ui) r" h w]
  show "requestLog (muxHandler h (logUi ui) r) w = [] \<or>
    (\<exists>c. requestLog (muxHandler h (logUi ui) r) w = [c] \<and> (permittedCreate r c \<or> permittedChange ui r w c))" by blast
qed

lemma simUi_typed: "decodesTyped (simUi bodies)"
  by (auto simp: decodesTyped_def simUi_def split: option.splits if_splits)

definition deleteApp :: uiRequest where
  "deleteApp = uiReq ''DELETE'' [''api'', ''resources'', ''mikrotikdnsrecords'', ''lab'', ''app''] []"

lemma deleteApp_log: "requestLog (serveUI labUi (logUi (simUi [])) deleteApp) lab = [WDNS OpDelete labDNS]"
  by code_simp

theorem ui_writes_permitted_witness:
  "permittedCreate deleteApp (WDNS OpDelete labDNS) \<or> permittedChange (simUi []) deleteApp lab (WDNS OpDelete labDNS)"
  using ui_writes_permitted[OF simUi_typed[of "[]"], of labUi deleteApp lab]
  unfolding deleteApp_log by simp

section \<open>Answers\<close>

definition answers :: "('w, response) prog \<Rightarrow> bool" where
  "answers m \<longleftrightarrow> (\<forall>w. \<exists>resp w'. m w = (Inr resp, w'))"

lemma answers_returnE: "answers (returnE x)"
  by (simp add: answers_def)

lemma answers_clientCall: "hdHasKube h \<Longrightarrow> (\<And>x. answers (f x)) \<Longrightarrow> answers (clientCall h m f)"
  by (auto simp: answers_def clientCall_def tryE_def split: prod.split)

lemma answers_tryE: "(\<And>x. answers (f x)) \<Longrightarrow> answers (tryE m f)"
  by (auto simp: answers_def tryE_def split: prod.split)

lemma answers_branches:
  "(b \<Longrightarrow> answers m) \<Longrightarrow> (\<not> b \<Longrightarrow> answers n) \<Longrightarrow> answers (if b then m else n)"
  "(\<And>e. answers (fl e)) \<Longrightarrow> (\<And>y. answers (fr y)) \<Longrightarrow> answers (case x of Inl e \<Rightarrow> fl e | Inr y \<Rightarrow> fr y)"
  "answers m \<Longrightarrow> (\<And>a. answers (g a)) \<Longrightarrow> answers (case p of None \<Rightarrow> m | Some a \<Rightarrow> g a)"
  "(\<And>a b. answers (k a b)) \<Longrightarrow> answers (case q of (a, b) \<Rightarrow> k a b)"
  "answers m \<Longrightarrow> (\<And>a as. answers (j a as)) \<Longrightarrow> answers (case l of [] \<Rightarrow> m | a # as \<Rightarrow> j a as)"
  by (simp_all split: sum.split option.split prod.split list.split)

lemmas answers_rules = answers_returnE answers_clientCall answers_tryE answers_branches

lemma answers_overviewFrom: "hdHasKube h \<Longrightarrow> answers (overviewFrom h ui counts specs)"
  by (induction specs arbitrary: counts) (simp_all, (intro answers_rules | assumption)+)

lemma answers_handlers:
  assumes "hdHasKube h"
  shows "answers (muxHandler h ui r)"
  unfolding muxHandler_def apiHandler_def Let_def healthz_def readyz_def configHandler_def overview_def listNamespaces_def
    listNamespacedNames_def listResources_def getResource_def createResource_def updateResource_def deleteResource_def
    serveSPA_def apiNotFound_def
  by (intro answers_rules answers_overviewFrom assms)

definition securityHeaders :: strmap where
  "securityHeaders = [(''X-Content-Type-Options'', ''nosniff''), (''X-Frame-Options'', ''DENY''), (''Cache-Control'', ''no-store'')]"

text \<open>
  Every request is answered: with a Kubernetes client no handler panics, whatever the API server
  returns, and every response carries the three security headers.  Without a client a health check is
  answered, and readiness is refused with 503.
\<close>

theorem ui_requests_answered:
  assumes "hdHasKube h \<or> rqSegments r = [''healthz''] \<or> rqSegments r = [''readyz'']"
  shows "\<exists>resp w'. serveUI h ui r w = (Inr resp, w') \<and>
    list_all (\<lambda>(k, v). mget (rsHeaders resp) k = v) securityHeaders \<and>
    (\<not> hdHasKube h \<and> rqSegments r = [''readyz''] \<and> isRead (rqMethod r) \<longrightarrow> rsStatus resp = 503)"
proof -
  have "answers (serveSPA h ui r)"
    unfolding serveSPA_def Let_def by (intro answers_rules)
  hence "answers (muxHandler h ui r)" if "\<not> hdHasKube h"
    using assms that by (auto simp: muxHandler_def healthz_def readyz_def Let_def answers_returnE)
  with answers_handlers have "answers (muxHandler h ui r)" by blast
  then obtain resp w' where run: "muxHandler h ui r w = (Inr resp, w')" unfolding answers_def by blast
  have "rsStatus resp = 503" if "\<not> hdHasKube h" "rqSegments r = [''readyz'']" "isRead (rqMethod r)"
    using run that by (auto simp: muxHandler_def readyz_def returnE_def writeError_def writeJSON_def)
  with run show ?thesis
    by (simp add: serveUI_def bindE_def returnE_def withMiddleware_def securityHeaders_def)
qed

theorem ui_requests_answered_witness:
  "\<exists>resp w'. serveUI labUi (simUi []) deleteApp lab = (Inr resp, w') \<and> mget (rsHeaders resp) ''X-Frame-Options'' = ''DENY''"
  using ui_requests_answered[of labUi deleteApp "simUi []" lab] by (auto simp: labUi_def newHandler_def securityHeaders_def)

section \<open>Refusals\<close>

text \<open>A path below \<^verbatim>\<open>/api/resources\<close> that names a kind the API does not offer, or a namespace or name
  that is not a Kubernetes name.\<close>

definition refusedPath :: "'w uiEnv \<Rightarrow> string list \<Rightarrow> bool" where
  "refusedPath ui segments \<longleftrightarrow> (\<exists>kind rest. segments = ''api'' # ''resources'' # kind # rest \<and>
     (kind \<notin> set kindOrder \<or> rest \<noteq> [] \<and> list_ex (\<lambda>n. \<not> uiValidName ui n) rest))"

lemma lookupKind_None: "lookupKind kind = None \<longleftrightarrow> kind \<notin> set kindOrder"
  by (simp add: lookupKind_def map_of_eq_None_iff kindTable_def kindOrder_def)

text \<open>
  A request for a resource whose path names an unknown kind, or a namespace or name Kubernetes does
  not accept, is refused with 400 or 404 before anything is read from or asked of the API server.
\<close>

theorem ui_bad_paths_refused:
  assumes "refusedPath ui (rqSegments r)"
  shows "\<exists>resp. serveUI h ui r w = (Inr resp, w) \<and> (rsStatus resp = 400 \<or> rsStatus resp = 404)"
proof -
  from assms obtain kind rest where s: "rqSegments r = ''api'' # ''resources'' # kind # rest"
    and bad: "lookupKind kind = None \<or> rest \<noteq> [] \<and> list_ex (\<lambda>n. \<not> uiValidName ui n) rest"
    unfolding refusedPath_def lookupKind_None by blast
  define refused where "refused m \<longleftrightarrow> (\<exists>resp. m w = (Inr resp, w) \<and> (rsStatus resp = 400 \<or> rsStatus resp = 404))" for m :: "('a, response) prog"
  have r: "refused (returnE (writeError 400 msg))" "refused (returnE (writeError 404 msg))" for msg
    by (simp_all add: refused_def writeError_def writeJSON_def)
  consider (zero) "rest = []" | (one) ns where "rest = [ns]" | (two) ns name where "rest = [ns, name]" | (more) "length rest > 2"
    by (cases rest; cases "tl rest"; cases "tl (tl rest)") auto
  hence "refused (apiHandler h ui r (''resources'' # kind # rest))"
  proof cases
    case zero
    with bad show ?thesis by (auto simp: apiHandler_def Let_def apiNotFound_def listResources_def r)
  next
    case (one ns)
    with bad show ?thesis by (auto simp: apiHandler_def Let_def apiNotFound_def createResource_def r split: option.split)
  next
    case (two ns name)
    with bad show ?thesis
      by (auto simp: apiHandler_def Let_def apiNotFound_def getResource_def updateResource_def deleteResource_def lookupObject_def r split: option.split)
  next
    case more
    thus ?thesis by (auto simp: apiHandler_def Let_def apiNotFound_def r split: list.split)
  qed
  thus ?thesis
    by (auto simp: refused_def serveUI_def muxHandler_def s bindE_def returnE_def withMiddleware_def)
qed

theorem ui_bad_paths_refused_witness:
  "\<exists>resp. serveUI labUi (simUi []) (uiReq ''DELETE'' [''api'', ''resources'', ''secrets'', ''lab'', ''creds''] []) lab = (Inr resp, lab) \<and>
     (rsStatus resp = 400 \<or> rsStatus resp = 404)"
  by (rule ui_bad_paths_refused) (simp add: refusedPath_def uiReq_def kindOrder_def plurals)

section \<open>Static files\<close>

lemma spaRelative_below:
  "\<exists>es. spaRelative url = joinWith [slash] es \<and> es \<noteq> [] \<and> list_all plainElement es"
proof -
  let ?es = "cleanElements (''/'' @ url)"
  have r: "rootedPath (''/'' @ url)" by (simp add: rootedPath_def)
  have plain: "list_all plainElement ?es" by (rule cleanElements_rooted[OF r])
  have rel: "trimPrefix (pathClean (''/'' @ url)) ''/'' = joinWith [slash] ?es"
    using r by (simp add: pathClean_def trimPrefix_def hasPrefix_def)
  show ?thesis
  proof (cases "?es = [] \<or> joinWith [slash] ?es = ''.'' \<or> joinWith [slash] ?es = []")
    case True
    hence "spaRelative url = joinWith [slash] [''index.html'']" unfolding spaRelative_def rel by auto
    thus ?thesis by (intro exI[of _ "[''index.html'']"]) (simp add: plainElement_def)
  next
    case False
    hence "spaRelative url = joinWith [slash] ?es" unfolding spaRelative_def rel by auto
    with plain False show ?thesis by blast
  qed
qed

lemma pathJoin_below:
  assumes "static \<noteq> []" and "list_all plainElement es" and "es \<noteq> []"
  shows "cleanElements (pathJoin static (joinWith [slash] es)) = cleanElements static @ es"
    and "rootedPath (pathJoin static (joinWith [slash] es)) = rootedPath static"
proof -
  have "hd es \<noteq> []" using assms(2,3) by (cases es) (simp_all add: plainElement_def)
  with joinWith_hd[OF assms(3), of slash] have "joinWith [slash] es \<noteq> []" by simp
  with assms(1) have "pathJoin static (joinWith [slash] es) = pathClean (static @ slash # joinWith [slash] es)"
    by (simp add: pathJoin_def)
  with cleanElements_join[OF assms]
  show "cleanElements (pathJoin static (joinWith [slash] es)) = cleanElements static @ es"
    and "rootedPath (pathJoin static (joinWith [slash] es)) = rootedPath static" by simp_all
qed

lemma pathInside_below:
  assumes "static \<noteq> []" and es: "list_all plainElement es" "es \<noteq> []"
  shows "pathInside static (pathJoin static (joinWith [slash] es))"
proof -
  have "splitOn slash (joinWith [slash] es) = es"
    using es by (intro splitOn_joinWith) (auto simp: list_all_iff plainElement_def)
  moreover have "hd es \<noteq> ''..''" using es by (cases es) (simp_all add: plainElement_def)
  ultimately have "joinWith [slash] es \<noteq> ''..'' \<and> \<not> hasPrefix (joinWith [slash] es) ''../''"
    by (auto simp: hasPrefix_def prefix_def splitOn.simps)
  with pathRel_below[OF pathJoin_below(1)[OF assms] pathJoin_below(2)[OF assms] es(2)]
  show ?thesis by (auto simp: pathInside_def hasPrefix_def)
qed



section \<open>Moving an object to another router\<close>

definition officeRouter :: router where
  "officeRouter = labRouter\<lparr>routerMeta := labMeta ''office'',
     routerSpecOf := (routerSpecOf labRouter)\<lparr>rsRouters := [labEndpoint ''10.0.0.9'']\<rparr>,
     routerStatusOf := (routerStatusOf labRouter)\<lparr>rtAppliedEndpoints := [labEndpoint ''10.0.0.9'']\<rparr>\<rparr>"

definition homeRouter :: router where
  "homeRouter = labRouter\<lparr>routerSpecOf := (routerSpecOf labRouter)\<lparr>rsRouters := [labEndpoint ''10.0.0.1'']\<rparr>,
     routerStatusOf := (routerStatusOf labRouter)\<lparr>rtAppliedEndpoints := [labEndpoint ''10.0.0.1'']\<rparr>\<rparr>"

text \<open>The object of the body: the record with another router, with or without annotations of its own.\<close>

definition movedRecord :: "strmap \<Rightarrow> dnsRecord" where
  "movedRecord annotations =
     \<lparr>dnsMeta = (newMeta [] ''app'')\<lparr>omAnnotations := annotations\<rparr>, dnsSpecOf = (dnsSpecOf labDNS)\<lparr>dsRouterRef := ''office''\<rparr>,
      dnsStatusOf = dnsStatusOf labDNS\<rparr>"

definition moveApp :: "strmap \<Rightarrow> cluster \<Rightarrow> cluster" where
  "moveApp annotations w =
     snd (serveUI labUi (simUi [(''body'', UiDNS (movedRecord annotations))])
       (uiReq ''PUT'' [''api'', ''resources'', ''mikrotikdnsrecords'', ''lab'', ''app''] ''body'') w)"

definition dnsPass :: "cluster \<Rightarrow> cluster" where
  "dnsPass w = snd (DNSReconcile simEnv (mkName ''lab'' ''app'') w)"

definition dnsEntries :: "cluster \<Rightarrow> nat list" where
  "dnsEntries w = map (\<lambda>d. length (simDev w d ''/ip/dns/static'')) [''10.0.0.1|8728|false'', ''10.0.0.9|8728|false'']"

definition appEntry :: strmap where
  "appEntry = [(''.id'', ''*1''), (''name'', ''app.lab''), (''address'', ''10.9.9.9''), (''comment'', dnsComment labDNS), (''ttl'', ''5m'')]"

definition withEntry :: simState where
  "withEntry = \<lparr>simData = [(dnsMenu, [appEntry])], simNext = 2\<rparr>"

text \<open>The two routers with the record, and whether the entry is on the old and the new one.\<close>

definition stage :: "dnsRecord \<Rightarrow> simState \<Rightarrow> simState \<Rightarrow> cluster" where
  "stage r old new = lab\<lparr>clRouters := [homeRouter, officeRouter], clDNS := [r], clDevices :=
     [(''10.0.0.1|8728|false'', old), (''10.0.0.9|8728|false'', new)]\<rparr>"

text \<open>The record is on the first router, but the pass that put it there ended
  before it could write the status: only the annotation of the object names the router.\<close>

definition interrupted :: cluster where
  "interrupted = stage labDNS withEntry simEmpty"

definition movedTo :: "strmap \<Rightarrow> dnsRecord" where
  "movedTo annotations = labDNS\<lparr>dnsMeta := (labMeta ''app'')\<lparr>omAnnotations := annotations\<rparr>,
     dnsSpecOf := (dnsSpecOf labDNS)\<lparr>dsRouterRef := ''office''\<rparr>\<rparr>"

lemma move_steps:
  "moveApp [] interrupted = stage (movedTo [(durableRouterTargetsAnnotation, ''home'')]) withEntry simEmpty"
  "moveApp [(''team'', ''net'')] interrupted = stage (movedTo [(''team'', ''net'')]) withEntry simEmpty"
  by code_simp+

lemma home_steps1:
  "dnsPass (stage (movedTo [(durableRouterTargetsAnnotation, ''home'')]) withEntry simEmpty) =
     stage (movedTo [(durableRouterTargetsAnnotation, ''home,office'')]) withEntry simEmpty"
  by code_simp

lemma team_steps1:
  "dnsPass (stage (movedTo [(''team'', ''net'')]) withEntry simEmpty) =
     stage (movedTo [(''team'', ''net''), (durableRouterTargetsAnnotation, ''office'')]) withEntry simEmpty"
  by code_simp

lemma home_steps2:
  "dnsPass (stage (movedTo [(durableRouterTargetsAnnotation, ''home,office'')]) withEntry simEmpty) =
     stage (movedTo [(durableRouterTargetsAnnotation, ''office'')]) \<lparr>simData = [(dnsMenu, [])], simNext = 2\<rparr> simEmpty"
  by code_simp

lemma home_steps3:
  "dnsEntries (dnsPass (stage (movedTo [(durableRouterTargetsAnnotation, ''office'')]) \<lparr>simData = [(dnsMenu, [])], simNext = 2\<rparr> simEmpty)) = [0, 1]"
  by code_simp

lemma team_steps2:
  "dnsEntries (dnsPass (stage (movedTo [(''team'', ''net''), (durableRouterTargetsAnnotation, ''office'')]) withEntry simEmpty)) = [1, 1]"
  by code_simp


end
