(* ===== verification/Ui_Backend.thy ===== *)
theory Ui_Backend
  imports Ui_Handlers
begin

text \<open>
  The program \<^verbatim>\<open>cmd/ui-backend\<close>: its flags, the choice of the static directory and of the namespace,
  the steps before it serves and its exit code.  Kubernetes configuration, the client and the server's
  listening are results given by a record; the handler is the one of \<open>Ui_Handlers\<close>.
\<close>

section \<open>Flags\<close>

definition localStaticDir :: string where "localStaticDir = ''./web/ui/dist''"
definition containerStaticDir :: string where "containerStaticDir = ''/ui''"

record backendConfig =
  bcBindAddress :: string
  bcKubeconfig :: string
  bcStaticDir :: string
  bcNamespace :: string

definition setFlag :: "string \<Rightarrow> string \<Rightarrow> backendConfig \<Rightarrow> backendConfig option" where
  "setFlag name v cfg =
     (if name = ''bind-address'' then Some (cfg\<lparr>bcBindAddress := v\<rparr>)
      else if name = ''kubeconfig'' then Some (cfg\<lparr>bcKubeconfig := v\<rparr>)
      else if name = ''static-dir'' then Some (cfg\<lparr>bcStaticDir := v\<rparr>)
      else if name = ''namespace'' then Some (cfg\<lparr>bcNamespace := v\<rparr>)
      else None)"

text \<open>The \<^verbatim>\<open>flag\<close> package on string flags: \<^verbatim>\<open>-name=value\<close> or \<^verbatim>\<open>-name value\<close>, with one or two dashes;
  the first argument that is no flag, or \<^verbatim>\<open>--\<close>, ends the flags.\<close>

definition flagName :: "string \<Rightarrow> string option" where
  "flagName s =
     (let name = (if hasPrefix s ''--'' then drop 2 s else drop 1 s) in
      if name = [] \<or> hd name = CHR ''-'' \<or> hd name = CHR ''='' then None else Some name)"

fun parseArgs :: "string list \<Rightarrow> backendConfig \<Rightarrow> goerr + backendConfig" where
  "parseArgs [] cfg = Inr cfg"
| "parseArgs (s # args) cfg =
     (if length s < 2 \<or> hd s \<noteq> CHR ''-'' \<or> s = ''--'' then Inr cfg
      else case flagName s of
        None \<Rightarrow> Inl (Opaque (''bad flag syntax: '' @ s))
      | Some full \<Rightarrow>
          let (rest, given, found) = cutAt CHR ''='' (tl full); name = hd full # rest in
          if setFlag name [] cfg = None
          then Inl (Opaque (if name = ''help'' \<or> name = ''h'' then ''flag: help requested''
                            else ''flag provided but not defined: -'' @ name))
          else if found then parseArgs args (the (setFlag name given cfg))
          else if args = [] then Inl (Opaque (''flag needs an argument: -'' @ name))
          else parseArgs (tl args) (the (setFlag name (hd args) cfg)))"

text \<open>The built SPA beside the sources, else the one of the container image.\<close>

definition defaultStaticDir :: "(string \<Rightarrow> bool) \<Rightarrow> string" where
  "defaultStaticDir isDirectory =
     (if isDirectory localStaticDir then localStaticDir
      else if isDirectory containerStaticDir then containerStaticDir
      else localStaticDir)"

definition parseFlags :: "(string \<Rightarrow> bool) \<Rightarrow> string list \<Rightarrow> goerr + backendConfig" where
  "parseFlags isDirectory args =
     parseArgs args \<lparr>bcBindAddress = '':8080'', bcKubeconfig = [], bcStaticDir = defaultStaticDir isDirectory, bcNamespace = []\<rparr>"

section \<open>Running\<close>

definition operatorNamespace :: "string \<Rightarrow> string \<Rightarrow> string" where
  "operatorNamespace podNamespace flagValue =
     (if flagValue \<noteq> [] then flagValue else if podNamespace \<noteq> [] then podNamespace else ''default'')"

text \<open>How serving ends: the listener stops, with an error or because the server was closed, or a signal
  arrives and the server is shut down.\<close>

datatype serverEnd = Listener "goerr option" | ServerClosed | Signalled "goerr option"

record backendIO =
  bkIsDirectory :: "string \<Rightarrow> bool"
  bkPodNamespace :: string
  bkBuildConfig :: "string \<Rightarrow> goerr option"
  bkInClusterConfig :: "goerr option"
  bkNewClient :: "goerr option"
  bkValidName :: "string \<Rightarrow> bool"
  bkServe :: "string \<Rightarrow> uiHandler \<Rightarrow> serverEnd"

definition loadRESTConfig :: "backendIO \<Rightarrow> string \<Rightarrow> goerr option" where
  "loadRESTConfig io kubeconfig =
     (if kubeconfig \<noteq> []
      then map_option (\<lambda>e. Wrapped (''load kubeconfig: '' @ errorText e) [e]) (bkBuildConfig io kubeconfig)
      else map_option (\<lambda>e. Wrapped (''in-cluster config: '' @ errorText e) [e]) (bkInClusterConfig io))"

text \<open>\<^verbatim>\<open>run\<close>: the handler that is served, if it gets that far, and the exit code.\<close>

definition runBackend :: "backendIO \<Rightarrow> string list \<Rightarrow> (string \<times> uiHandler) option \<times> int" where
  "runBackend io args =
     (case parseFlags (bkIsDirectory io) args of
        Inl _ \<Rightarrow> (None, 2)
      | Inr cfg \<Rightarrow>
          if loadRESTConfig io (bcKubeconfig cfg) \<noteq> None then (None, 1)
          else if bkNewClient io \<noteq> None then (None, 1)
          else let namespace = operatorNamespace (bkPodNamespace io) (bcNamespace cfg) in
            if \<not> bkValidName io namespace then (None, 2)
            else let h = newHandler True (bcStaticDir cfg) namespace in
              (Some (bcBindAddress cfg, h),
               (case bkServe io (bcBindAddress cfg) h of
                  Listener (Some _) \<Rightarrow> 1
                | Listener None \<Rightarrow> 0
                | ServerClosed \<Rightarrow> 0
                | Signalled (Some _) \<Rightarrow> 1
                | Signalled None \<Rightarrow> 0)))"

text \<open>What is served has a Kubernetes client and a valid namespace; nothing is served without.\<close>

lemma runBackend_serves:
  assumes "runBackend io args = (Some (address, h), code)"
  shows "hdHasKube h \<and> bkValidName io (hdNamespace h) \<and> hdNamespace h \<noteq> []"
  using assms
  by (auto simp: runBackend_def newHandler_def operatorNamespace_def Let_def split: sum.splits if_splits)

end
