(* ===== verification/Client_Session.thy ===== *)
theory Client_Session
  imports RouterOS_Client
begin

text \<open>
  The life of a RouterOS session (\<^verbatim>\<open>Dial\<close>, \<^verbatim>\<open>Close\<close> and the execution of a sentence in
  \<^verbatim>\<open>client.go\<close>).  What the network and the go-routeros library return is given by a record; what
  happens to connections is a list of events, in the order of the code.  The mutex of a session makes
  its operations sequential, so a session is the state one operation hands to the next.
\<close>

section \<open>What the library returns\<close>

text \<open>The outcome of an operation under a deadline: the reply, the error of the operation itself, of
  the context, of the interrupt and of resetting the deadline.\<close>

record 'r opOutcome =
  ooReply :: "'r option"
  ooErr :: "goerr option"
  ooContext :: "goerr option"
  ooInterrupt :: "goerr option"
  ooReset :: "goerr option"

definition outcomeErr :: "'r opOutcome \<Rightarrow> goerr option" where
  "outcomeErr oc = runRouterOSOperation (ooErr oc) (ooContext oc) (ooInterrupt oc) (ooReset oc)"

text \<open>A dialer returns a connection, or an error and perhaps a partial connection.\<close>

datatype dialResult = DialOk nat | DialFailed goerr "nat option"

record dialIO =
  ioConnect :: "bool \<Rightarrow> string \<Rightarrow> dialResult"
  ioCloseConn :: "nat \<Rightarrow> goerr option"
  ioNewClient :: "nat \<Rightarrow> goerr option"
  ioLogin :: "nat \<Rightarrow> string \<Rightarrow> string \<Rightarrow> unit opOutcome"
  ioCloseClient :: "nat \<Rightarrow> goerr option"

datatype sessionEvent =
    Connected nat
  | ConnClosed nat
  | AsyncStarted nat
  | ClientClosed nat
  | SessionCancelled nat
  | AsyncAwaited nat

record apiClient =
  acConn :: nat
  acTimeout :: int
  acClosed :: bool
  acCloseErr :: "goerr option"

section \<open>Dial\<close>

definition routerOSOperationTimeout :: int where "routerOSOperationTimeout = 15"
definition routerOSBackupTimeout :: int where "routerOSBackupTimeout = 60"

definition errText :: "goerr option \<Rightarrow> string" where
  "errText e = (case e of None \<Rightarrow> ''<nil>'' | Some x \<Rightarrow> errorText x)"

definition dialTarget :: "string \<Rightarrow> int \<Rightarrow> bool \<Rightarrow> string" where
  "dialTarget address port useTLS = routerOSAddress address (dialPort port useTLS)"

definition dialFailed :: "dialIO \<Rightarrow> string \<Rightarrow> goerr \<Rightarrow> nat option \<Rightarrow> (goerr + apiClient) \<times> sessionEvent list" where
  "dialFailed io target err partial =
     (let (err', events) =
        (case partial of
           None \<Rightarrow> (err, [])
         | Some c \<Rightarrow>
             ((case ioCloseConn io c of
                 None \<Rightarrow> err
               | Some ce \<Rightarrow> Joined [err, wrapErr ''close partial RouterOS connection: '' ce]),
              [Connected c, ConnClosed c]))
      in (Inl (wrapErr (''dial RouterOS at '' @ goQuote target @ '': '') err'), events))"

text \<open>The login runs asynchronously, so that it can be cancelled; the reader is closed before the
  session is cancelled, and the reader's goroutine is awaited.\<close>

definition dialWith ::
  "dialIO \<Rightarrow> string \<Rightarrow> int \<Rightarrow> bool \<Rightarrow> string \<Rightarrow> string \<Rightarrow> int \<Rightarrow> (goerr + apiClient) \<times> sessionEvent list" where
  "dialWith io address port useTLS username password timeout =
     (let target = dialTarget address port useTLS in
      case ioConnect io useTLS target of
        DialFailed err partial \<Rightarrow> dialFailed io target err partial
      | DialOk c \<Rightarrow>
          (case ioNewClient io c of
             Some err \<Rightarrow>
               (let closeErr = ioCloseConn io c in
                (Inl (Wrapped (''create RouterOS client: '' @ errorText err @ ''; close: ''
                        @ (case closeErr of None \<Rightarrow> ''%!w(<nil>)'' | Some ce \<Rightarrow> errorText ce))
                        (err # (case closeErr of None \<Rightarrow> [] | Some ce \<Rightarrow> [ce]))),
                 [Connected c, ConnClosed c]))
           | None \<Rightarrow>
               (case outcomeErr (ioLogin io c username password) of
                  Some loginErr \<Rightarrow>
                    (Inl (Wrapped (''login to RouterOS at '' @ goQuote target @ '': '' @ errorText loginErr
                            @ ''; close: '' @ errText (ioCloseClient io c)) [loginErr]),
                     [Connected c, AsyncStarted c, ClientClosed c, SessionCancelled c, AsyncAwaited c])
                | None \<Rightarrow>
                    (Inr \<lparr>acConn = c, acTimeout = timeout, acClosed = False, acCloseErr = None\<rparr>,
                     [Connected c, AsyncStarted c]))))"

definition Dial :: "dialIO \<Rightarrow> string \<Rightarrow> int \<Rightarrow> bool \<Rightarrow> string \<Rightarrow> string \<Rightarrow> (goerr + apiClient) \<times> sessionEvent list" where
  "Dial io address port useTLS username password =
     dialWith io address port useTLS username password routerOSOperationTimeout"

section \<open>Close and run\<close>

text \<open>Only the first call closes; every call returns its error.\<close>

definition closeClient :: "dialIO \<Rightarrow> apiClient \<Rightarrow> goerr option \<times> apiClient \<times> sessionEvent list" where
  "closeClient io a =
     (if acClosed a then (acCloseErr a, a, [])
      else let e = ioCloseClient io (acConn a) in
        (e, a\<lparr>acClosed := True, acCloseErr := e\<rparr>,
         [ClientClosed (acConn a), SessionCancelled (acConn a), AsyncAwaited (acConn a)]))"

text \<open>The reply is returned with the error; a timeout that is not positive is the default.\<close>

definition runArgsContextTimeout ::
  "(int \<Rightarrow> string list \<Rightarrow> 'r opOutcome) \<Rightarrow> int \<Rightarrow> string list \<Rightarrow> 'r option \<times> goerr option" where
  "runArgsContextTimeout run timeout sentences =
     (let oc = run (if timeout \<le> 0 then routerOSOperationTimeout else timeout) sentences in
      (ooReply oc, outcomeErr oc))"

definition runArgsContext ::
  "(int \<Rightarrow> string list \<Rightarrow> 'r opOutcome) \<Rightarrow> apiClient \<Rightarrow> string list \<Rightarrow> 'r option \<times> goerr option" where
  "runArgsContext run a sentences =
     (let timeout = (if acTimeout a \<le> 0 then routerOSOperationTimeout else acTimeout a) in
      runArgsContextTimeout run timeout sentences)"

section \<open>Balance\<close>

text \<open>The connections that are open, and the readers that run, after some events.\<close>

fun openAfter :: "sessionEvent list \<Rightarrow> nat list \<Rightarrow> nat list" where
  "openAfter [] cs = cs"
| "openAfter (Connected c # es) cs = openAfter es (c # cs)"
| "openAfter (ConnClosed c # es) cs = openAfter es (removeAll c cs)"
| "openAfter (ClientClosed c # es) cs = openAfter es (removeAll c cs)"
| "openAfter (_ # es) cs = openAfter es cs"

fun runningAfter :: "sessionEvent list \<Rightarrow> nat list \<Rightarrow> nat list" where
  "runningAfter [] cs = cs"
| "runningAfter (AsyncStarted c # es) cs = runningAfter es (c # cs)"
| "runningAfter (AsyncAwaited c # es) cs = runningAfter es (removeAll c cs)"
| "runningAfter (_ # es) cs = runningAfter es cs"

text \<open>No session is cancelled before its reader is closed.\<close>

fun closedFirst :: "sessionEvent list \<Rightarrow> nat list \<Rightarrow> bool" where
  "closedFirst [] closed = True"
| "closedFirst (ClientClosed c # es) closed = closedFirst es (c # closed)"
| "closedFirst (SessionCancelled c # es) closed = (c \<in> set closed \<and> closedFirst es closed)"
| "closedFirst (_ # es) closed = closedFirst es closed"

lemma openAfter_append: "openAfter (es @ fs) cs = openAfter fs (openAfter es cs)"
  by (induction es cs rule: openAfter.induct) simp_all

text \<open>
  Dialing leaves nothing behind when it fails: every connection it opened is closed again and no
  reader goroutine is left running, whichever of the four steps fails and whatever closing returns.
  When it succeeds exactly the connection of the client is open, and closing the client closes it and
  ends its reader; a second close does nothing and returns the same error.  A reader is always closed
  before its session is cancelled.
\<close>

theorem sessions_balanced:
  "(case dialWith io address port useTLS username password timeout of
      (Inl _, events) \<Rightarrow> openAfter events [] = [] \<and> runningAfter events [] = [] \<and> closedFirst events []
    | (Inr a, events) \<Rightarrow>
        openAfter events [] = [acConn a] \<and> runningAfter events [] = [acConn a] \<and>
        (case closeClient io a of (e, a', closing) \<Rightarrow>
           openAfter (events @ closing) [] = [] \<and> runningAfter (events @ closing) [] = [] \<and>
           closedFirst (events @ closing) [] \<and> closeClient io a' = (e, a', [])))"
  by (auto simp: dialWith_def dialFailed_def closeClient_def Let_def split: dialResult.split option.split)

end
