(* ===== verification/Manager_Setup.thy ===== *)
theory Manager_Setup
  imports Write_Log
begin

text \<open>
  The wiring of the manager (\<^verbatim>\<open>Setup\<close> and the \<^verbatim>\<open>SetupWithManager\<close> methods of
  \<^verbatim>\<open>router_controller.go\<close>): which kind of object each controller reconciles, which kinds it owns, whose
  changes queue their owner again, and which other kinds it watches, with the function that maps a
  change to the objects to queue.  The manager itself is the library's.
\<close>

datatype apiKind =
    KMikroTikRouter | KMikroTikDNSRecord | KMikroTikRoute | KMikroTikFirewallRule | KMikroTikPortForward
  | KService | KIngress | KHTTPRoute | KPod | KIngressClass | KGateway | KGatewayClass | KReferenceGrant | KNamespace

datatype watchMapping =
    IngressesInNamespace | HTTPRoutesForReferenceGrant | HTTPRoutesForGateway | HTTPRoutesForGatewayClass
  | HTTPRoutesForNamespace | PortForwardsForService | PortForwardsForPod

record controllerSetup =
  csFor :: apiKind
  csOwns :: "apiKind list"
  csWatches :: "(apiKind \<times> watchMapping) list"

definition routerSetup :: controllerSetup where
  "routerSetup = \<lparr>csFor = KMikroTikRouter, csOwns = [], csWatches = []\<rparr>"

definition dnsSetup :: controllerSetup where
  "dnsSetup = \<lparr>csFor = KMikroTikDNSRecord, csOwns = [KMikroTikRoute], csWatches = []\<rparr>"

definition serviceSetup :: controllerSetup where
  "serviceSetup = \<lparr>csFor = KService, csOwns = [KMikroTikDNSRecord, KMikroTikPortForward, KMikroTikRoute], csWatches = []\<rparr>"

definition ingressSetup :: controllerSetup where
  "ingressSetup = \<lparr>csFor = KIngress, csOwns = [KMikroTikDNSRecord, KMikroTikPortForward, KMikroTikRoute],
     csWatches = [(KService, IngressesInNamespace), (KIngressClass, IngressesInNamespace)]\<rparr>"

definition httpRouteSetup :: controllerSetup where
  "httpRouteSetup = \<lparr>csFor = KHTTPRoute, csOwns = [KMikroTikDNSRecord, KMikroTikPortForward, KMikroTikRoute],
     csWatches = [(KReferenceGrant, HTTPRoutesForReferenceGrant), (KGateway, HTTPRoutesForGateway),
       (KGatewayClass, HTTPRoutesForGatewayClass), (KNamespace, HTTPRoutesForNamespace)]\<rparr>"

definition routeSetup :: controllerSetup where
  "routeSetup = \<lparr>csFor = KMikroTikRoute, csOwns = [], csWatches = []\<rparr>"

definition firewallSetup :: controllerSetup where
  "firewallSetup = \<lparr>csFor = KMikroTikFirewallRule, csOwns = [], csWatches = []\<rparr>"

definition portForwardSetup :: controllerSetup where
  "portForwardSetup = \<lparr>csFor = KMikroTikPortForward, csOwns = [],
     csWatches = [(KService, PortForwardsForService), (KPod, PortForwardsForPod)]\<rparr>"

text \<open>\<^verbatim>\<open>Setup\<close>: the controllers in the order they are added; adding one may fail, and ends the rest.\<close>

definition controllers :: "bool \<Rightarrow> controllerSetup list" where
  "controllers gatewayAPIEnabled =
     [routerSetup, dnsSetup, serviceSetup, ingressSetup] @ (if gatewayAPIEnabled then [httpRouteSetup] else []) @
     [routeSetup, firewallSetup, portForwardSetup]"

fun setupFrom :: "(controllerSetup \<Rightarrow> ('w, unit) prog) \<Rightarrow> controllerSetup list \<Rightarrow> ('w, unit) prog" where
  "setupFrom complete [] = returnE ()"
| "setupFrom complete (c # cs) = bindE (complete c) (\<lambda>_. setupFrom complete cs)"

definition managerSetup :: "(controllerSetup \<Rightarrow> ('w, unit) prog) \<Rightarrow> bool \<Rightarrow> ('w, unit) prog" where
  "managerSetup complete gatewayAPIEnabled = setupFrom complete (controllers gatewayAPIEnabled)"

section \<open>Children come back\<close>

fun writtenKind :: "writeCall \<Rightarrow> apiKind" where
  "writtenKind (WRouter _ _) = KMikroTikRouter"
| "writtenKind (WDNS _ _) = KMikroTikDNSRecord"
| "writtenKind (WForward _ _) = KMikroTikPortForward"
| "writtenKind (WRoute _ _) = KMikroTikRoute"
| "writtenKind (WFirewall _ _) = KMikroTikFirewallRule"
| "writtenKind (WService _ _) = KService"

text \<open>A write of a controller queues the object it reconciles again: it is to a child the controller
  owns, or to an object of the kind it reconciles.\<close>

definition comesBack :: "controllerSetup \<Rightarrow> writeCall \<Rightarrow> bool" where
  "comesBack c call \<longleftrightarrow> writtenKind call \<in> set (csOwns c) \<or> writtenKind call = csFor c"

lemma own_comesBack:
  assumes "set [KMikroTikDNSRecord, KMikroTikPortForward, KMikroTikRoute] \<subseteq> set (csOwns c)"
    and "ooKind owner = OwnService \<Longrightarrow> csFor c = KService"
  shows "ownWrite env owner call \<Longrightarrow> comesBack c call"
  using assms by (cases call) (auto simp: comesBack_def)

lemma run_log:
  assumes "keeps (wrote P) m" and "\<And>call. P call \<Longrightarrow> Q call"
  shows "list_all Q (snd (snd (m (w, []))))"
proof -
  from assms(1) have "wrote P (w, []) (snd (m (w, [])))" unfolding keeps_def by blast
  thus ?thesis using assms(2) by (auto simp: wrote_def list_all_iff)
qed

text \<open>
  Whatever a translator writes comes back to it: every object a pass of the Service, Ingress or
  HTTPRoute reconciler creates, changes or deletes is of a kind its controller owns, or is the Service
  itself, so a later change to a generated child queues its source again.  Without the Gateway API no
  controller reconciles HTTPRoutes or watches a kind of the Gateway API.
\<close>

theorem writes_are_watched:
  "list_all (comesBack serviceSetup) (snd (snd (reconcileService (logEnv env) key s (w, [])))) \<and>
   list_all (comesBack ingressSetup) (snd (snd (reconcileIngress (logEnv env) (logNet net) ig (w, [])))) \<and>
   list_all (comesBack httpRouteSetup) (snd (snd (reconcileHTTPRoute (logEnv env) (logNet net) cfg r (w, [])))) \<and>
   set [serviceSetup, ingressSetup] \<subseteq> set (controllers gatewayAPIEnabled) \<and>
   (httpRouteSetup \<in> set (controllers gatewayAPIEnabled) \<longleftrightarrow> gatewayAPIEnabled) \<and>
   (KHTTPRoute \<in> csFor ` set (controllers gatewayAPIEnabled) \<longleftrightarrow> gatewayAPIEnabled) \<and>
   (KGateway \<in> (\<Union>c\<in>set (controllers gatewayAPIEnabled). fst ` set (csWatches c)) \<longleftrightarrow> gatewayAPIEnabled)"
proof (intro conjI)
  show "list_all (comesBack serviceSetup) (snd (snd (reconcileService (logEnv env) key s (w, []))))"
    by (rule run_log[OF translators.keeps_reconcileService own_comesBack]) (simp_all add: serviceSetup_def)
  show "list_all (comesBack ingressSetup) (snd (snd (reconcileIngress (logEnv env) (logNet net) ig (w, []))))"
    by (rule run_log[OF translators.keeps_reconcileIngress[OF refl] own_comesBack[of ingressSetup "ingressOwner ig"]])
      (simp_all add: ingressSetup_def ingressOwner_def)
  show "list_all (comesBack httpRouteSetup) (snd (snd (reconcileHTTPRoute (logEnv env) (logNet net) cfg r (w, []))))"
    by (rule run_log[OF translators.keeps_reconcileHTTPRoute[OF refl] own_comesBack[of httpRouteSetup "routeOwner r"]])
      (simp_all add: httpRouteSetup_def routeOwner_def)
qed (auto simp: controllers_def routerSetup_def dnsSetup_def serviceSetup_def ingressSetup_def httpRouteSetup_def routeSetup_def
    firewallSetup_def portForwardSetup_def)

end
