(* ===== verification/Connection_Balance.thy ===== *)
theory Connection_Balance
  imports Reconcile_Properties
begin

text \<open>
  How many connections a pass leaves open.  The locale counts the dials that succeeded less the closes
  that were called; an operation under \<open>withConnections\<close> leaves the count as it was, except on one path.
\<close>

definition sameCount :: "('w \<Rightarrow> int) \<Rightarrow> 'w \<Rightarrow> 'w \<Rightarrow> bool" where
  "sameCount count w w' \<longleftrightarrow> count w' = count w"

interpretation count: frame "sameCount count" for count
  by unfold_locales (simp_all add: sameCount_def)

definition closesOne :: "('w \<Rightarrow> int) \<Rightarrow> 'w rosClient \<Rightarrow> bool" where
  "closesOne count c \<longleftrightarrow> (\<forall>w. count (snd (rcClose c w)) = count w - 1)"

locale connection_count =
  fixes env :: "'w env" and count :: "'w \<Rightarrow> int"
  assumes secret_keeps: "keeps (sameCount count) (kGetSecret env k)"
    and dial_ok: "kFactory env a p t u pw w = (Inr c, w') \<Longrightarrow> count w' = count w + 1 \<and> closesOne count c"
    and dial_failed: "kFactory env a p t u pw w = (Inl e, w') \<Longrightarrow> count w' = count w"
begin

definition closable :: "'w routerConnection list \<Rightarrow> bool" where
  "closable cs \<longleftrightarrow> list_all (\<lambda>c. closesOne count (cnClient c)) cs"

lemma close_count:
  assumes "closable cs"
  shows "\<exists>w'. closeRouterConnections cs w = (Inr (), w') \<and> count w' = count w - int (length cs)"
  using assms
proof (induction cs arbitrary: w)
  case (Cons c cs)
  obtain r w1 where close: "rcClose (cnClient c) w = (r, w1)" by (meson surj_pair)
  hence "count w1 = count w - 1" using Cons.prems by (simp add: closable_def closesOne_def) (metis snd_conv)
  moreover obtain w' where "closeRouterConnections cs w1 = (Inr (), w')" "count w' = count w1 - int (length cs)"
    using Cons.IH[of w1] Cons.prems by (auto simp: closable_def)
  ultimately show ?case
    using close by (simp add: closeRouterConnections_def bindE_def tryE_def returnE_def)
qed (simp add: closeRouterConnections_def)

text \<open>Connecting succeeds with one more open connection for each endpoint, fails with none left open,
  or stops at an invalid endpoint with those before it open.\<close>

lemma connectFrom_count:
  assumes "connectFrom env r cs es w = (res, w')" and "closable cs"
  shows "(\<exists>all. res = Inr all \<and> closable all \<and> count w' = count w + int (length all) - int (length cs)) \<or>
    (\<exists>e. res = Inl e \<and> count w' = count w - int (length cs)) \<or>
    (\<exists>pre e post. es = pre @ e # post \<and> \<not> endpointUsable e \<and> res = Inl (invalidEndpointErr r) \<and> count w' = count w + int (length pre))"
  using assms
proof (induction es arbitrary: cs w)
  case (Cons e es)
  show ?case
  proof (cases "endpointUsable e")
    case False
    with Cons.prems(1) have "res = Inl (invalidEndpointErr r)" "w' = w" by (auto simp: endpointUsable_def)
    with False show ?thesis by (intro disjI2 exI[of _ "[]"] exI[of _ e] exI[of _ es]) simp
  next
    case usable: True
    obtain s w1 where s: "kGetSecret env (mkName (omNamespace (routerMeta r)) (epCredentialsSecret e)) w = (s, w1)" by (meson surj_pair)
    have w1: "count w1 = count w" using keepsD[OF secret_keeps s] by (simp add: sameCount_def)
    have give_up: ?thesis if "bindE (closeRouterConnections cs) (\<lambda>_. failE err) w2 = (res, w')" "count w2 = count w" for err w2
      using close_count[OF Cons.prems(2), of w2] that by (auto simp: bindE_def failE_def)
    show ?thesis
    proof (cases s)
      case (Inl err)
      from Cons.prems(1) usable s Inl have "bindE (closeRouterConnections cs) (\<lambda>_. failE err) w1 = (res, w')"
        by (auto simp: endpointUsable_def tryE_def)
      thus ?thesis using w1 by (rule give_up)
    next
      case (Inr secret)
      obtain d w2 where d: "kFactory env (epAddress e) (epPort e) (epTLS e) (mget secret ''username'') (mget secret ''password'') w1 = (d, w2)"
        by (meson surj_pair)
      show ?thesis
      proof (cases d)
        case Inl': (Inl err)
        from Cons.prems(1) usable s Inr d Inl' have "bindE (closeRouterConnections cs) (\<lambda>_. failE err) w2 = (res, w')"
          by (auto simp: endpointUsable_def tryE_def)
        moreover have "count w2 = count w" using dial_failed[OF d[unfolded Inl']] w1 by simp
        ultimately show ?thesis by (rule give_up)
      next
        case Inr': (Inr c)
        let ?cs = "cs @ [\<lparr>cnEndpoint = e, cnClient = c\<rparr>]"
        from Cons.prems(1) usable s Inr d Inr' have rest: "connectFrom env r ?cs es w2 = (res, w')"
          by (auto simp: endpointUsable_def tryE_def)
        have c: "count w2 = count w + 1" "closesOne count c" using dial_ok[OF d[unfolded Inr']] w1 by simp_all
        have "closable ?cs" using Cons.prems(2) c(2) by (simp add: closable_def)
        from Cons.IH[OF rest this] show ?thesis
        proof (elim disjE exE conjE)
          fix pre e' post
          assume "es = pre @ e' # post" "\<not> endpointUsable e'" "res = Inl (invalidEndpointErr r)" "count w' = count w2 + int (length pre)"
          with c(1) show ?thesis by (intro disjI2 exI[of _ "e # pre"] exI[of _ e'] exI[of _ post]) simp
        qed (use c(1) in simp_all)
      qed
    qed
  qed
next
  case Nil
  hence "res = Inr cs" "w' = w" by (simp_all add: returnE_def)
  with Nil.prems(2) show ?case by (intro disjI1 exI[of _ cs]) simp
qed

lemma withConnections_count:
  assumes "withConnections env r operation w = (res, w')" and "\<And>cs. keeps (sameCount count) (operation cs)"
  shows "count w' = count w \<or>
    (\<exists>pre e post. routerEndpoints r = pre @ e # post \<and> \<not> endpointUsable e \<and> res = Inl (invalidEndpointErr r) \<and>
       count w' = count w + int (length pre))"
proof -
  obtain conn w1 where conn: "connectFrom env r [] (routerEndpoints r) w = (conn, w1)" by (meson surj_pair)
  have "closable []" by (simp add: closable_def)
  from connectFrom_count[OF conn this] show ?thesis
  proof (elim disjE exE conjE)
    fix all assume all: "conn = Inr all" "closable all" "count w1 = count w + int (length all) - int (length [])"
    obtain x w2 where x: "operation all w1 = (x, w2)" by (meson surj_pair)
    have "count w2 = count w1" using keepsD[OF assms(2) x] by (simp add: sameCount_def)
    moreover obtain w3 where "closeRouterConnections all w2 = (Inr (), w3)" "count w3 = count w2 - int (length all)"
      using close_count[OF all(2)] by blast
    moreover from this have "w' = w3"
      using assms(1) conn all(1) x by (simp add: withConnections_def connectRouterClients_def bindE_def deferE_def)
    ultimately show ?thesis using all(3) by simp
  qed (use assms(1) conn in \<open>auto simp: withConnections_def connectRouterClients_def bindE_def\<close>)
qed

end

section \<open>The count of the cluster\<close>

interpretation open_connections: connection_count simEnv clOpen
proof
  show "keeps (sameCount clOpen) (kGetSecret simEnv k)" for k
    by (rule sim_reads) (simp add: sameCount_def)
next
  fix a p t u pw w c w'
  assume "kFactory simEnv a p t u pw w = (Inr c, w')"
  thus "clOpen w' = clOpen w + 1 \<and> closesOne clOpen c"
    by (auto simp: simDial_def simClient_def closesOne_def split: if_splits)
next
  fix a p t u pw w e w'
  assume "kFactory simEnv a p t u pw w = (Inl e, w')"
  thus "clOpen w' = clOpen w" by (auto simp: simDial_def split: if_splits)
qed

text \<open>
  C35.  An operation on the routers of an object closes every connection it opened, whatever fails on
  the way, except when the router has an endpoint without address or credentials: then the connections
  to the endpoints before it stay open, one for each.
\<close>

theorem connections_balanced:
  assumes "connection_count env count" and "withConnections env r operation w = (res, w')"
    and "\<And>cs. keeps (sameCount count) (operation cs)"
  shows "count w' = count w \<or>
    (\<exists>pre e post. routerEndpoints r = pre @ e # post \<and> \<not> endpointUsable e \<and> res = Inl (invalidEndpointErr r) \<and>
       count w' = count w + int (length pre))"
  by (rule connection_count.withConnections_count[OF assms])

definition brokenRouter :: router where
  "brokenRouter = labRouter\<lparr>routerSpecOf := (routerSpecOf labRouter)\<lparr>rsRouters := [labEndpoint ''10.0.0.1'', labEndpoint '' '']\<rparr>\<rparr>"

theorem connections_balanced_witness:
  "clOpen lab = 0 \<and> clOpen (snd (withConnections simEnv labRouter (\<lambda>_. returnE ()) lab)) = 0 \<and>
   clOpen (snd (withConnections simEnv brokenRouter (\<lambda>_. returnE ()) lab)) = 1"
proof -
  have k: "keeps (sameCount clOpen) (returnE ())" by (rule count.keeps_return)
  note b = connections_balanced[OF open_connections.connection_count_axioms prod.collapse[symmetric], where operation = "\<lambda>_. returnE ()", OF k]
  have "list_all endpointUsable (routerEndpoints labRouter)" by code_simp
  with b[of labRouter lab] have "clOpen (snd (withConnections simEnv labRouter (\<lambda>_. returnE ()) lab)) = clOpen lab"
    by (auto simp: list_all_iff)
  moreover have "clOpen lab = 0" "clOpen (snd (withConnections simEnv brokenRouter (\<lambda>_. returnE ()) lab)) = 1" by code_simp+
  ultimately show ?thesis by simp
qed

end
