(* ===== verification/Deletion.thy ===== *)
theory Deletion
  imports Device_Cluster
begin

text \<open>
  Deleting configuration objects.  The finalizer of an object is the promise that its configuration
  is removed from every router it was ever put on: a pass over an object that is being deleted cleans
  each recorded router and only then gives the finalizer up.  Cleaning only ever shrinks the tables of
  a device, so a device that was cleaned first is still clean when the last one is done, even when two
  of the recorded routers share it.
\<close>

section \<open>Cleaning shrinks\<close>

definition lessens ::
  "('w \<Rightarrow> string \<Rightarrow> string \<Rightarrow> strmap list) \<Rightarrow> ('w \<Rightarrow> bool) \<Rightarrow> 'w \<Rightarrow> 'w \<Rightarrow> bool" where
  "lessens dev dinv w w' \<longleftrightarrow> (dinv w \<longrightarrow> dinv w' \<and> (\<forall>d m. set (dev w' d m) \<subseteq> set (dev w d m)))"

lemma still_lessens: "still dev dinv w w' \<Longrightarrow> lessens dev dinv w w'"
  by (simp add: still_def lessens_def)

lemma keeps_still_lessens: "keeps (still dev dinv) m \<Longrightarrow> keeps (lessens dev dinv) m"
  unfolding keeps_def by (blast intro: still_lessens)

lemma storeKeeps_mono: "(\<And>m :: ('w, 'o) prog. keeps R m \<Longrightarrow> keeps S m) \<Longrightarrow>
    (\<And>m :: ('w, 'o list) prog. keeps R m \<Longrightarrow> keeps S m) \<Longrightarrow> (\<And>m :: ('w, unit) prog. keeps R m \<Longrightarrow> keeps S m) \<Longrightarrow>
    storeKeeps R ok (st :: ('w, 'o) store) \<Longrightarrow> storeKeeps S ok st"
  unfolding storeKeeps_def by blast

lemma storeReads_mono: "(\<And>m :: ('w, 'o) prog. keeps R m \<Longrightarrow> keeps S m) \<Longrightarrow>
    (\<And>m :: ('w, 'o list) prog. keeps R m \<Longrightarrow> keeps S m) \<Longrightarrow>
    storeReads R (st :: ('w, 'o) store) \<Longrightarrow> storeReads S st"
  unfolding storeReads_def by blast

sublocale device_cluster \<subseteq> lessens: dial_frame "lessens dev dinv" dinv env
proof unfold_locales
  fix w :: 'w
  show "lessens dev dinv w w" by (simp add: lessens_def)
  fix u v :: 'w
  show "lessens dev dinv u v \<Longrightarrow> lessens dev dinv v w \<Longrightarrow> lessens dev dinv u w"
    unfolding lessens_def by blast
  show "\<not> dinv w \<Longrightarrow> lessens dev dinv w u" by (simp add: lessens_def)
qed (rule storeKeeps_mono[OF keeps_still_lessens keeps_still_lessens keeps_still_lessens]
      storeReads_mono[OF keeps_still_lessens keeps_still_lessens] keeps_still_lessens;
     (rule routers_keep dns_keep forwards_keep routes_keep firewall_keep services_keep kube_reads_keep
        kube_fences_keep factory_keeps close_keeps)?; assumption?)+

text \<open>What a removal leaves of the tables.\<close>

context routeros_device
begin

lemma deleteMatching_subset:
  assumes "dinv w" and "m \<in> set managedMenus"
    and "deleteMatching run (m @ ''/print'') (m @ ''/remove'') P w = (r, w')"
  shows "set (tbl w' m') \<subseteq> set (tbl w m')"
  using deleteMatching_effect[OF assms] by (auto split: if_splits)

lemmas removals_subset =
  deleteMatching_subset[OF _ menus_managed(1), folded menu_cmds]
  deleteMatching_subset[OF _ menus_managed(2), folded menu_cmds]
  deleteMatching_subset[OF _ menus_managed(3), folded menu_cmds]
  deleteMatching_subset[OF _ menus_managed(4), folded menu_cmds]

end

context device_cluster
begin

lemma keeps_lessens_client:
  assumes "keeps (only dev dinv (endpointKey (cnEndpoint c))) m"
    and "\<And>w r w' k. dinv w \<Longrightarrow> m w = (r, w') \<Longrightarrow>
      set (dev w' (endpointKey (cnEndpoint c)) k) \<subseteq> set (dev w (endpointKey (cnEndpoint c)) k)"
  shows "keeps (lessens dev dinv) m"
proof (rule keepsI)
  fix w r w' assume run: "m w = (r, w')"
  show "lessens dev dinv w w'"
    using keepsD[OF assms(1) run] assms(2)[OF _ run]
    unfolding lessens_def only_def by (metis order_refl)
qed

lemma keeps_lessens_removals:
  assumes c: "dialled env c"
  shows "keeps (lessens dev dinv) (DeleteDNS (rcRun (cnClient c)) cm)"
    "keeps (lessens dev dinv) (DeleteRoute (rcRun (cnClient c)) cm)"
    "keeps (lessens dev dinv) (DeletePortForward (rcRun (cnClient c)) cm)"
    "keeps (lessens dev dinv) (DeleteFirewallRule (rcRun (cnClient c)) cm)"
proof -
  note subset = routeros_device.removals_subset[OF client_device[OF c]]
  show "keeps (lessens dev dinv) (DeleteDNS (rcRun (cnClient c)) cm)"
    by (rule keeps_lessens_client[OF only.keeps_removals(1)[OF client_only[OF c]]])
       (simp only: DeleteDNS_def deleteByComment_def, erule (1) subset(1))
  show "keeps (lessens dev dinv) (DeleteRoute (rcRun (cnClient c)) cm)"
    by (rule keeps_lessens_client[OF only.keeps_removals(2)[OF client_only[OF c]]])
       (simp only: DeleteRoute_def deleteByComment_def, erule (1) subset(4))
  show "keeps (lessens dev dinv) (DeletePortForward (rcRun (cnClient c)) cm)"
    by (rule keeps_lessens_client[OF only.keeps_removals(3)[OF client_only[OF c]]])
       (simp only: DeletePortForward_def deleteByCommentPrefix_def, erule (1) subset(2))
  show "keeps (lessens dev dinv) (DeleteFirewallRule (rcRun (cnClient c)) cm)"
    by (rule keeps_lessens_client[OF only.keeps_removals(4)[OF client_only[OF c]]])
       (simp only: DeleteFirewallRule_def deleteByCommentPrefix_def, erule (1) subset(3))
qed

end

section \<open>Clean devices\<close>

text \<open>What the deletion of an object promises of a device.\<close>

definition dnsGone :: "dnsRecord \<Rightarrow> (string \<Rightarrow> strmap list) \<Rightarrow> bool" where
  "dnsGone r T \<longleftrightarrow> owned (\<lambda>v. v = dnsComment r) (T dnsMenu) = []"

definition routeGone :: "route \<Rightarrow> (string \<Rightarrow> strmap list) \<Rightarrow> bool" where
  "routeGone r T \<longleftrightarrow> owned (\<lambda>v. v = routeComment r) (T routeMenu) = []"

definition firewallGone :: "string \<Rightarrow> (string \<Rightarrow> strmap list) \<Rightarrow> bool" where
  "firewallGone c T \<longleftrightarrow> owned (\<lambda>v. managedCommentPrefixMatches v c) (T filterMenu) = []"

definition forwardGone :: "portForward \<Rightarrow> (string \<Rightarrow> strmap list) \<Rightarrow> bool" where
  "forwardGone f T \<longleftrightarrow> owned (\<lambda>v. managedCommentPrefixMatches v (natComment f)) (T natMenu) = [] \<and>
     firewallGone (natFirewallComment f) T"

text \<open>A property of tables that smaller tables have too.\<close>

definition downward :: "((string \<Rightarrow> strmap list) \<Rightarrow> bool) \<Rightarrow> bool" where
  "downward G \<longleftrightarrow> (\<forall>T T'. G T \<longrightarrow> (\<forall>m. set (T' m) \<subseteq> set (T m)) \<longrightarrow> G T')"

lemma downwardD: "downward G \<Longrightarrow> G T \<Longrightarrow> (\<And>m. set (T' m) \<subseteq> set (T m)) \<Longrightarrow> G T'"
  unfolding downward_def by blast

lemma owned_empty: "owned P xs = [] \<longleftrightarrow> (\<forall>e\<in>set xs. \<not> P (commentOf e))"
  by (auto simp: owned_def filter_empty_conv)

lemma downward_owned: "downward (\<lambda>T. owned P (T m) = [])"
  unfolding downward_def owned_empty by blast

lemma downward_conj: "downward G \<Longrightarrow> downward H \<Longrightarrow> downward (\<lambda>T. G T \<and> H T)"
  unfolding downward_def by blast

lemma gone_downward: "downward (dnsGone r)" "downward (routeGone o')" "downward (firewallGone c)" "downward (forwardGone f)"
  unfolding dnsGone_def[abs_def] routeGone_def[abs_def] firewallGone_def[abs_def] forwardGone_def[abs_def]
  by (intro downward_conj downward_owned)+

text \<open>Something a program asked for was reported as not existing.\<close>

definition missing :: "('w \<Rightarrow> bool) \<Rightarrow> ('w, 'a) prog \<Rightarrow> bool" where
  "missing I m \<longleftrightarrow> (\<exists>w e w'. I w \<and> m w = (Inl e, w') \<and> isNotFound e)"

text \<open>A recorded target is done with: it names nothing, or the router it names has \<open>G\<close> on every
  endpoint it may have been reached at, or the router or one of its parts was not found.\<close>

definition targetCleaned ::
  "('w \<Rightarrow> bool) \<Rightarrow> 'w env \<Rightarrow> ('w \<Rightarrow> string \<Rightarrow> string \<Rightarrow> strmap list) \<Rightarrow> ((string \<Rightarrow> strmap list) \<Rightarrow> bool)
     \<Rightarrow> ('w rosClient \<Rightarrow> ('w, unit) prog) \<Rightarrow> string \<Rightarrow> 'w \<Rightarrow> string \<Rightarrow> bool" where
  "targetCleaned I env dev G cleanup ns w target \<longleftrightarrow>
     (let key = routerKeyFromRef ns target in
      target = [] \<or> nsName key = [] \<or>
      missing I (withRouterConnections env key False (forConnections cleanup)) \<or>
      (\<exists>router. returns I (getMikroTikRouter env (normalizeRouterLookupKey key)) router \<and>
         (\<forall>e\<in>set (routerCleanupEndpoints router). G (dev w (endpointKey e)))))"

context device_cluster
begin

lemma lessensD:
  assumes "lessens dev dinv w w'" and "dinv w" and "downward G" and "G (dev w d)"
  shows "G (dev w' d)"
proof (rule downwardD[OF assms(3,4)])
  show "set (dev w' d m) \<subseteq> set (dev w d m)" for m
    using assms(1,2) by (simp add: lessens_def)
qed

lemma targetCleaned_later:
  assumes "targetCleaned dinv env dev G cleanup ns w t" and "lessens dev dinv w w'" and "dinv w" and "downward G"
  shows "targetCleaned dinv env dev G cleanup ns w' t"
proof -
  have "G (dev w d) \<Longrightarrow> G (dev w' d)" for d by (rule lessensD[OF assms(2,3,4)])
  with assms(1) show ?thesis unfolding targetCleaned_def Let_def by meson
qed

lemma each_cleaned:
  assumes "\<And>c. c \<in> set cs \<Longrightarrow> dialled env c" and "downward G"
    and keep: "\<And>c. dialled env c \<Longrightarrow> keeps (lessens dev dinv) (f c)"
    and post: "\<And>c w w'. dialled env c \<Longrightarrow> dinv w \<Longrightarrow> f c w = (Inr (), w') \<Longrightarrow> G (dev w' (endpointKey (cnEndpoint c)))"
    and "dinv w" and "forE f cs w = (Inr (), w')"
  shows "\<forall>c\<in>set cs. G (dev w' (endpointKey (cnEndpoint c)))"
  using assms(1,5,6)
proof (induction cs arbitrary: w)
  case (Cons c cs)
  from Cons.prems(3) obtain w1 where one: "f c w = (Inr (), w1)" and rest: "forE f cs w1 = (Inr (), w')"
    unfolding forE.simps by (rule bindE_unitE)
  have c: "dialled env c" by (rule Cons.prems(1)) simp
  have w1: "dinv w1" using keepsD[OF keep[OF c] one] Cons.prems(2) by (simp add: lessens_def)
  have "keeps (lessens dev dinv) (forE f cs)"
    by (rule lessens.keeps_for) (rule keep, rule Cons.prems(1), simp)
  from lessensD[OF keepsD[OF this rest] w1 assms(2) post[OF c Cons.prems(2) one]]
  have "G (dev w' (endpointKey (cnEndpoint c)))" .
  moreover have "\<forall>c\<in>set cs. G (dev w' (endpointKey (cnEndpoint c)))"
    by (rule Cons.IH[OF _ w1 rest]) (simp add: Cons.prems(1))
  ultimately show ?case by simp
qed simp

lemma endpoints_cleaned:
  assumes "downward G"
    and keep: "\<And>c. dialled env c \<Longrightarrow> keeps (lessens dev dinv) (cleanup (cnClient c))"
    and post: "\<And>c w w'. dialled env c \<Longrightarrow> dinv w \<Longrightarrow> cleanup (cnClient c) w = (Inr (), w') \<Longrightarrow>
      G (dev w' (endpointKey (cnEndpoint c)))"
    and w: "dinv w" and run: "withConnections env r (forConnections cleanup r0) w = (Inr (), w')"
  shows "\<forall>e\<in>set (routerEndpoints r). G (dev w' (endpointKey e))"
proof -
  from run obtain cs w1 w2 where dial: "connectRouterClients env r w = (Inr cs, w1)"
    and loop: "forE (\<lambda>c. cleanup (cnClient c)) cs w1 = (Inr (), w2)" and close: "w' = snd (closeRouterConnections cs w2)"
    unfolding withConnections_def forConnections_def by (elim bindE_InrE deferE_E) simp
  have cs: "\<And>c. c \<in> set cs \<Longrightarrow> dialled env c"
    by (rule connectRouterClients_dialled[OF dial])
  have w1: "dinv w1" using stillD[OF keeps_connectRouterClients dial w] by simp
  have loops: "keeps (lessens dev dinv) (forE (\<lambda>c. cleanup (cnClient c)) cs)"
    by (rule lessens.keeps_for) (rule keep, rule cs)
  have w2: "dinv w2" using keepsD[OF loops loop] w1 by (simp add: lessens_def)
  have "closeRouterConnections cs w2 = (fst (closeRouterConnections cs w2), w')" by (simp add: close)
  from stillD[OF keeps_closeRouterConnections[OF cs] this w2] have "dev w' = dev w2" by simp
  moreover have "\<forall>c\<in>set cs. G (dev w2 (endpointKey (cnEndpoint c)))"
    by (rule each_cleaned[OF cs assms(1) keep post w1 loop])
  ultimately have "\<forall>e\<in>set (map cnEndpoint cs). G (dev w' (endpointKey e))" by simp
  thus ?thesis by (simp only: connectRouterClients_endpoints[OF dial])
qed

lemma router_cleaned:
  assumes "downward G"
    and keep: "\<And>c. dialled env c \<Longrightarrow> keeps (lessens dev dinv) (cleanup (cnClient c))"
    and post: "\<And>c w w'. dialled env c \<Longrightarrow> dinv w \<Longrightarrow> cleanup (cnClient c) w = (Inr (), w') \<Longrightarrow>
      G (dev w' (endpointKey (cnEndpoint c)))"
    and w: "dinv w" and run: "withRouterConnections env key False (forConnections cleanup) w = (Inr (), w')"
  shows "\<exists>router. returns dinv (getMikroTikRouter env (normalizeRouterLookupKey key)) router \<and>
    (\<forall>e\<in>set (routerCleanupEndpoints router). G (dev w' (endpointKey e)))"
proof -
  let ?k = "normalizeRouterLookupKey key"
  from run obtain w1 w2 where fence: "kFence env ?k w = (Inr (), w1)"
    and body: "bindE (getMikroTikRouter env ?k) (\<lambda>router. let endpoints = routerCleanupEndpoints router in
        if endpoints = [] then forConnections cleanup router []
        else withConnections env (withEndpoints router endpoints) (forConnections cleanup router)) w1 = (Inr (), w2)"
    and unfence: "w' = snd (kUnfence env ?k w2)"
    by (auto simp: withRouterConnections_def withFence_def Let_def elim!: bindE_unitE deferE_E)
  have w1: "dinv w1" using stillD[OF fences_keep(1) fence w] by simp
  from body obtain router w3 where get: "getMikroTikRouter env ?k w1 = (Inr router, w3)"
    and op: "(let endpoints = routerCleanupEndpoints router in
        if endpoints = [] then forConnections cleanup router []
        else withConnections env (withEndpoints router endpoints) (forConnections cleanup router)) w3 = (Inr (), w2)"
    by (rule bindE_InrE)
  have w3: "dinv w3" using stillD[OF keeps_getMikroTikRouter get w1] by simp
  have "\<forall>e\<in>set (routerCleanupEndpoints router). G (dev w' (endpointKey e))"
  proof (cases "routerCleanupEndpoints router = []")
    case False
    with op have con: "withConnections env (withEndpoints router (routerCleanupEndpoints router)) (forConnections cleanup router) w3 = (Inr (), w2)"
      by (simp add: Let_def)
    have "keeps (lessens dev dinv) (withConnections env (withEndpoints router (routerCleanupEndpoints router)) (forConnections cleanup router))"
      by (rule lessens.keeps_withConnections) (rule lessens.keeps_forConnections, assumption, rule keep)
    from keepsD[OF this con] w3 have w2: "dinv w2" by (simp add: lessens_def)
    have "kUnfence env ?k w2 = (fst (kUnfence env ?k w2), w')" by (simp add: unfence)
    from stillD[OF fences_keep(2) this w2] have "dev w' = dev w2" by simp
    moreover have "\<forall>e\<in>set (routerEndpoints (withEndpoints router (routerCleanupEndpoints router))). G (dev w2 (endpointKey e))"
      by (rule endpoints_cleaned[OF assms(1) keep post w3 con])
    ultimately show ?thesis by (simp only: routerEndpoints_withEndpoints[OF False])
  qed simp
  moreover have "returns dinv (getMikroTikRouter env ?k) router"
    using get w1 unfolding returns_def by blast
  ultimately show ?thesis by blast
qed

lemma ignoringMissing_cases:
  assumes "ignoringMissing m w = (Inr (), w')" and "dinv w"
  shows "missing dinv m \<or> m w = (Inr (), w')"
  using assms by (auto simp: ignoringMissing_def missing_def elim!: tryE_E split: sum.splits if_splits)

text \<open>A step that cleans one target shrinks the devices and leaves the target clean.\<close>

definition cleans :: "((string \<Rightarrow> strmap list) \<Rightarrow> bool) \<Rightarrow> ('w rosClient \<Rightarrow> ('w, unit) prog) \<Rightarrow> string
    \<Rightarrow> (string \<Rightarrow> ('w, unit) prog) \<Rightarrow> bool" where
  "cleans G cleanup ns step \<longleftrightarrow> (\<forall>t. keeps (lessens dev dinv) (step t) \<and>
     (\<forall>w w'. dinv w \<longrightarrow> step t w = (Inr (), w') \<longrightarrow> targetCleaned dinv env dev G cleanup ns w' t))"

lemma cleans_all:
  assumes "cleans G cleanup ns step" and "downward G" and "dinv w" and "forE step ts w = (Inr (), w')"
  shows "dinv w' \<and> (\<forall>t\<in>set ts. targetCleaned dinv env dev G cleanup ns w' t)"
  using assms(3,4)
proof (induction ts arbitrary: w)
  case (Cons t ts)
  from Cons.prems(2) obtain w1 where one: "step t w = (Inr (), w1)" and rest: "forE step ts w1 = (Inr (), w')"
    unfolding forE.simps by (rule bindE_unitE)
  have keep: "\<And>t. keeps (lessens dev dinv) (step t)" using assms(1) by (simp add: cleans_def)
  have w1: "dinv w1" using keepsD[OF keep one] Cons.prems(1) by (simp add: lessens_def)
  have "targetCleaned dinv env dev G cleanup ns w1 t"
    using assms(1) Cons.prems(1) one unfolding cleans_def by blast
  hence "targetCleaned dinv env dev G cleanup ns w' t"
    by (rule targetCleaned_later[OF _ keepsD[OF lessens.keeps_for[OF keep] rest] w1 assms(2)])
  with Cons.IH[OF w1 rest] show ?case by simp
qed (simp add: assms(3))

text \<open>An operation that removes what \<open>G\<close> forbids from the device of its connection.\<close>

definition clears :: "((string \<Rightarrow> strmap list) \<Rightarrow> bool) \<Rightarrow> ('w rosClient \<Rightarrow> ('w, unit) prog) \<Rightarrow> bool" where
  "clears G cleanup \<longleftrightarrow> downward G \<and> (\<forall>c. dialled env c \<longrightarrow> keeps (lessens dev dinv) (cleanup (cnClient c)) \<and>
     (\<forall>w w'. dinv w \<longrightarrow> cleanup (cnClient c) w = (Inr (), w') \<longrightarrow> G (dev w' (endpointKey (cnEndpoint c)))))"

lemma clears_router:
  assumes "clears G cleanup"
  shows "keeps (lessens dev dinv) (withRouterConnections env key False (forConnections cleanup))"
    and "dinv w \<Longrightarrow> withRouterConnections env key False (forConnections cleanup) w = (Inr (), w') \<Longrightarrow>
      \<exists>router. returns dinv (getMikroTikRouter env (normalizeRouterLookupKey key)) router \<and>
        (\<forall>e\<in>set (routerCleanupEndpoints router). G (dev w' (endpointKey e)))"
proof -
  have keep: "\<And>c. dialled env c \<Longrightarrow> keeps (lessens dev dinv) (cleanup (cnClient c))"
    using assms by (simp add: clears_def)
  show "keeps (lessens dev dinv) (withRouterConnections env key False (forConnections cleanup))"
    by (rule lessens.keeps_withRouterConnections) (rule lessens.keeps_forConnections, assumption, rule keep)
  show "dinv w \<Longrightarrow> withRouterConnections env key False (forConnections cleanup) w = (Inr (), w') \<Longrightarrow>
      \<exists>router. returns dinv (getMikroTikRouter env (normalizeRouterLookupKey key)) router \<and>
        (\<forall>e\<in>set (routerCleanupEndpoints router). G (dev w' (endpointKey e)))"
    by (rule router_cleaned[where G = G and cleanup = cleanup]) (use assms in \<open>auto simp: clears_def\<close>)
qed

lemma clears_target:
  assumes "clears G cleanup"
  shows "cleans G cleanup ns (cleanupTarget env ns [] cleanup)"
proof -
  let ?m = "\<lambda>key. withRouterConnections env key False (forConnections cleanup)"
  have keep: "keeps (lessens dev dinv) (cleanupTarget env ns [] cleanup t)" for t
    unfolding cleanupTarget_def Let_def
    by (intro lessens.keeps_combinators keeps_branches clears_router[OF assms])
  have post: "targetCleaned dinv env dev G cleanup ns w' t"
    if w: "dinv w" and run: "cleanupTarget env ns [] cleanup t w = (Inr (), w')" for w w' t
  proof (cases "t = [] \<or> nsName (routerKeyFromRef ns t) = []")
    case False
    with run w have "?m (routerKeyFromRef ns t) w = (Inr (), w') \<or> missing dinv (?m (routerKeyFromRef ns t))"
      by (auto simp: cleanupTarget_def Let_def missing_def elim!: tryE_E split: sum.splits if_splits)
    with clears_router(2)[OF assms w, of "routerKeyFromRef ns t" w'] show ?thesis
      unfolding targetCleaned_def Let_def by blast
  qed (auto simp: targetCleaned_def)
  from keep post show ?thesis by (simp add: cleans_def)
qed

lemma clears_dns:
  "clears (dnsGone r) (\<lambda>c. DeleteDNS (rcRun c) (dnsComment r))"
  by (auto simp: clears_def gone_downward keeps_lessens_removals dnsGone_def
      intro: routeros_device.DeleteDNS_gone[OF client_device])

lemma clears_route: "clears (routeGone r) (\<lambda>c. DeleteRoute (rcRun c) (routeComment r))"
  by (auto simp: clears_def gone_downward keeps_lessens_removals routeGone_def
      intro: routeros_device.DeleteRoute_gone[OF client_device])

lemma clears_firewall: "clears (firewallGone c) (\<lambda>cl. DeleteFirewallRule (rcRun cl) c)"
  by (auto simp: clears_def gone_downward keeps_lessens_removals firewallGone_def
      intro: routeros_device.DeleteFirewallRule_gone[OF client_device])

lemma clears_forward: "clears (forwardGone f) (removeForward f)"
  unfolding clears_def
proof (intro conjI allI impI gone_downward)
  fix c assume c: "dialled env c"
  show "keeps (lessens dev dinv) (removeForward f (cnClient c))"
    unfolding removeForward_def by (intro lessens.keeps_bind keeps_lessens_removals c)
  fix w w' assume w: "dinv w" and run: "removeForward f (cnClient c) w = (Inr (), w')"
  from run obtain w1 where nat: "DeletePortForward (rcRun (cnClient c)) (natComment f) w = (Inr (), w1)"
    and fw: "DeleteFirewallRule (rcRun (cnClient c)) (natFirewallComment f) w1 = (Inr (), w')"
    unfolding removeForward_def by (rule bindE_unitE)
  have l: "lessens dev dinv w1 w'" by (rule keepsD[OF keeps_lessens_removals(4)[OF c] fw])
  have w1: "dinv w1" using keepsD[OF keeps_lessens_removals(3)[OF c] nat] w by (simp add: lessens_def)
  have "owned (\<lambda>v. managedCommentPrefixMatches v (natComment f)) (dev w1 (endpointKey (cnEndpoint c)) natMenu) = []"
    by (rule routeros_device.DeletePortForward_gone[OF client_device[OF c] w nat])
  hence "owned (\<lambda>v. managedCommentPrefixMatches v (natComment f)) (dev w' (endpointKey (cnEndpoint c)) natMenu) = []"
    by (rule lessensD[OF l w1 downward_owned])
  moreover have "owned (\<lambda>v. managedCommentPrefixMatches v (natFirewallComment f)) (dev w' (endpointKey (cnEndpoint c)) filterMenu) = []"
    by (rule routeros_device.DeleteFirewallRule_gone[OF client_device[OF c] w1 fw])
  ultimately show "forwardGone f (dev w' (endpointKey (cnEndpoint c)))"
    by (simp add: forwardGone_def firewallGone_def)
qed

lemma cleans_dnsCleanup:
  "cleans (dnsGone r) (\<lambda>c. DeleteDNS (rcRun c) (dnsComment r)) (omNamespace (dnsMeta r)) (dnsCleanup env r)"
proof -
  let ?k = "routerKeyFromRef (omNamespace (dnsMeta r))"
  let ?m = "\<lambda>t. withRouterConnections env (?k t) False (forConnections (\<lambda>c. DeleteDNS (rcRun c) (dnsComment r)))"
  have keep: "keeps (lessens dev dinv) (dnsCleanup env r t)" for t
    unfolding dnsCleanup_def ignoringMissing_def
    by (intro lessens.keeps_combinators keeps_branches lessens.keeps_reconcileOwnedClusterRoutes clears_router[OF clears_dns])
  have post: "targetCleaned dinv env dev (dnsGone r) (\<lambda>c. DeleteDNS (rcRun c) (dnsComment r)) (omNamespace (dnsMeta r)) w' t"
    if w: "dinv w" and run: "dnsCleanup env r t w = (Inr (), w')" for w w' t
  proof -
    from run obtain w1 where routes: "reconcileOwnedClusterRoutes env (dnsRouteRequest r t []) w = (Inr (), w1)"
      and rest: "ignoringMissing (?m t) w1 = (Inr (), w')"
      unfolding dnsCleanup_def by (rule bindE_unitE)
    have w1: "dinv w1" using keepsD[OF lessens.keeps_reconcileOwnedClusterRoutes routes] w by (simp add: lessens_def)
    from ignoringMissing_cases[OF rest w1] clears_router(2)[OF clears_dns w1] show ?thesis
      unfolding targetCleaned_def Let_def by blast
  qed
  from keep post show ?thesis by (simp add: cleans_def)
qed

text \<open>The pass: the cleaning failed and nothing follows, or every target is clean.\<close>

lemma deletion_pass:
  assumes "cleans G cleanup ns step" and "downward G" and "dinv w"
    and run: "bindE (forE step ts) (\<lambda>_. release) w = (res, w')" and release: "keeps (still dev dinv) release"
  shows "(\<exists>e. res = Inl e \<and> forE step ts w = (Inl e, w')) \<or>
    (\<forall>t\<in>set ts. targetCleaned dinv env dev G cleanup ns w' t)"
  using run
proof (cases rule: bindE_cases)
  case (ok x w1)
  hence loop: "forE step ts w = (Inr (), w1)" by simp
  from cleans_all[OF assms(1,2,3) loop]
  have w1: "dinv w1" and all: "\<forall>t\<in>set ts. targetCleaned dinv env dev G cleanup ns w1 t" by auto
  have "lessens dev dinv w1 w'" using keepsD[OF keeps_still_lessens[OF release]] ok(2) by simp
  with all targetCleaned_later[OF _ _ w1 assms(2)] show ?thesis by blast
qed simp

end

section \<open>Sweeping a router\<close>

definition swept :: "(string \<Rightarrow> strmap list) \<Rightarrow> bool" where
  "swept T \<longleftrightarrow> (\<forall>m\<in>set managedMenus. owned isManagedComment (T m) = [])"

text \<open>An endpoint of a deleted router is let go: another router claims it, or it is swept.\<close>

definition letGo ::
  "('w \<Rightarrow> bool) \<Rightarrow> 'w env \<Rightarrow> ('w \<Rightarrow> string \<Rightarrow> string \<Rightarrow> strmap list) \<Rightarrow> router \<Rightarrow> 'w \<Rightarrow> routerEndpoint \<Rightarrow> bool" where
  "letGo I env dev r w e \<longleftrightarrow>
     returns I (endpointClaimedByOtherRouter env r e) True \<or> swept (dev w (endpointKey e))"

text \<open>The sweep of a deletion, and what follows it: the update that drops the finalizer.\<close>

definition sweepRouter :: "'w env \<Rightarrow> router \<Rightarrow> ('w, unit) prog" where
  "sweepRouter env r =
     bindE (unclaimedEndpoints env r (routerCleanupEndpoints r)) (\<lambda>owned.
       if owned = [] then returnE ()
       else withConnections env (withEndpoints r owned) (forConnections deleteManagedConfiguration r))"

definition releaseRouter :: "'w env \<Rightarrow> router \<Rightarrow> ('w, result) prog" where
  "releaseRouter env r =
     thenReturn (stUpdate (kRouters env) (r\<lparr>routerMeta := removeFinalizer resourceFinalizer (routerMeta r)\<rparr>)) noRequeue"

text \<open>The four sweeps of \<^verbatim>\<open>DeleteManagedConfiguration\<close>, by menu.\<close>

lemma DeleteManagedConfiguration_menus:
  "DeleteManagedConfiguration run =
     forE (\<lambda>m. deleteMatching run (m @ ''/print'') (m @ ''/remove'') isManagedComment) managedMenus"
  by (simp add: DeleteManagedConfiguration_def managedMenus_def isManagedComment_def[abs_def])

context device_cluster
begin

lemma keeps_lessens_sweep:
  assumes c: "dialled env c" and m: "m \<in> set managedMenus"
  shows "keeps (lessens dev dinv) (deleteMatching (rcRun (cnClient c)) (m @ ''/print'') (m @ ''/remove'') P)"
proof (rule keeps_lessens_client[of c])
  show "keeps (only dev dinv (endpointKey (cnEndpoint c))) (deleteMatching (rcRun (cnClient c)) (m @ ''/print'') (m @ ''/remove'') P)"
    by (rule only.keeps_deleteMatching; rule client_only[OF c])
qed (erule (1) routeros_device.deleteMatching_subset[OF client_device[OF c] _ m])

lemma clears_managed: "clears swept deleteManagedConfiguration"
  unfolding clears_def
proof (intro conjI allI impI)
  show "downward swept" unfolding downward_def swept_def owned_empty by blast
  fix c assume c: "dialled env c"
  show "keeps (lessens dev dinv) (deleteManagedConfiguration (cnClient c))"
    unfolding deleteManagedConfiguration_def DeleteManagedConfiguration_menus
    by (rule lessens.keeps_for) (rule keeps_lessens_sweep[OF c])
  fix w w' assume w: "dinv w" and run: "deleteManagedConfiguration (cnClient c) w = (Inr (), w')"
  show "swept (dev w' (endpointKey (cnEndpoint c)))"
    using routeros_device.DeleteManagedConfiguration_sweeps[OF client_device[OF c] w run[unfolded deleteManagedConfiguration_def]]
    by (simp add: swept_def owned_empty)
qed

lemma unclaimed_or_claimed:
  assumes "unclaimedEndpoints env r es w = (Inr mine, w')" and "dinv w"
  shows "dinv w' \<and> (\<forall>e\<in>set es. e \<in> set mine \<or> returns dinv (endpointClaimedByOtherRouter env r e) True)"
  using assms
proof (induction es arbitrary: w mine)
  case (Cons e es)
  from Cons.prems(1) obtain claimed w1 rest where claim: "endpointClaimedByOtherRouter env r e w = (Inr claimed, w1)"
    and rest: "unclaimedEndpoints env r es w1 = (Inr rest, w')" and mine: "mine = (if claimed then rest else e # rest)"
    unfolding unclaimedEndpoints.simps by (elim bindE_InrE) (simp add: returnE_def)
  have "keeps (still dev dinv) (endpointClaimedByOtherRouter env r e)"
    unfolding endpointClaimedByOtherRouter_def by (intro still.keeps_combinators read_keeps)
  hence "dinv w1" using stillD claim Cons.prems(2) by blast
  moreover have "claimed \<Longrightarrow> returns dinv (endpointClaimedByOtherRouter env r e) True"
    using claim Cons.prems(2) unfolding returns_def by auto
  ultimately show ?case using Cons.IH[OF rest] mine by auto
qed simp

lemma defer_close_none: "deferE m (closeRouterConnections []) = m"
  by (rule ext) (simp add: closeRouterConnections_def deferE_def returnE_def split: prod.split)

lemma reconcileDeletionLocked_sweeps:
  assumes "containsFinalizer (routerMeta r) resourceFinalizer"
  shows "reconcileDeletionLocked env r =
    bindE (unclaimedEndpoints env r (routerCleanupEndpoints r)) (\<lambda>owned.
      if owned = [] then releaseRouter env r
      else withConnections env (withEndpoints r owned) (\<lambda>connections.
        bindE (forConnections deleteManagedConfiguration r connections) (\<lambda>_. releaseRouter env r)))"
  using assms unfolding reconcileDeletionLocked_def Let_def releaseRouter_def by simp

text \<open>A deletion runs the sweep and stops where it fails, or it drops the finalizer in a world in
  which every endpoint is let go.\<close>

lemma released_after_sweep:
  assumes run: "reconcileDeletionLocked env r w = (res, w')" and fin: "containsFinalizer (routerMeta r) resourceFinalizer" and w: "dinv w"
  shows "(\<exists>e. res = Inl e \<and> sweepRouter env r w = (Inl e, w')) \<or>
    (\<exists>w2 cs. (\<forall>e\<in>set (routerCleanupEndpoints r). letGo dinv env dev r w2 e) \<and>
       deferE (releaseRouter env r) (closeRouterConnections cs) w2 = (res, w'))"
  using run unfolding reconcileDeletionLocked_sweeps[OF fin]
proof (cases rule: bindE_cases)
  case (ok mine w1)
  note mine = unclaimed_or_claimed[OF ok(1) w]
  show ?thesis
  proof (cases "mine = []")
    case True
    with mine ok(2) show ?thesis
      by (intro disjI2 exI[of _ w1] exI[of _ "[]"]) (auto simp: letGo_def defer_close_none)
  next
    case False
    let ?r = "withEndpoints r mine" and ?sweep = "\<lambda>cs. forConnections deleteManagedConfiguration r cs"
    from ok(2) False have run: "withConnections env ?r (\<lambda>cs. bindE (?sweep cs) (\<lambda>_. releaseRouter env r)) w1 = (res, w')" by simp
    have sweep: "sweepRouter env r w = withConnections env ?r ?sweep w1"
      using ok(1) False by (simp add: sweepRouter_def)
    obtain x w2 where dial: "connectRouterClients env ?r w1 = (x, w2)" by (meson surj_pair)
    show ?thesis
    proof (cases x)
      case (Inl e)
      with run dial sweep show ?thesis by (simp add: withConnections_def)
    next
      case (Inr cs)
      obtain y w3 where loop: "?sweep cs w2 = (y, w3)" by (meson surj_pair)
      show ?thesis
      proof (cases y)
        case (Inl e)
        with run dial sweep loop Inr show ?thesis by (simp add: withConnections_def deferE_def bindE_def)
      next
        case (Inr u)
        with run dial loop \<open>x = Inr cs\<close> have tail: "deferE (releaseRouter env r) (closeRouterConnections cs) w3 = (res, w')"
          by (simp add: withConnections_def deferE_def bindE_def)
        have cs: "\<And>c. c \<in> set cs \<Longrightarrow> dialled env c"
          using dial \<open>x = Inr cs\<close> by (auto intro: connectRouterClients_dialled)
        have w2: "dinv w2" using stillD[OF keeps_connectRouterClients dial] mine by simp
        have "\<forall>c\<in>set cs. swept (dev w3 (endpointKey (cnEndpoint c)))"
          by (rule each_cleaned[where f = "\<lambda>c. deleteManagedConfiguration (cnClient c)" and w = w2])
             (use cs w2 loop Inr clears_managed in \<open>auto simp: clears_def forConnections_def\<close>)
        moreover have "map cnEndpoint cs = mine"
          using connectRouterClients_endpoints dial \<open>x = Inr cs\<close> routerEndpoints_withEndpoints[OF False] by metis
        ultimately have "\<forall>e\<in>set mine. swept (dev w3 (endpointKey e))" by auto
        with mine tail show ?thesis
          by (intro disjI2 exI[of _ w3] exI[of _ cs]) (auto simp: letGo_def)
      qed
    qed
  qed
qed (simp add: sweepRouter_def)

end

end
