(* ===== verification/Deletion_Properties.thy ===== *)
theory Deletion_Properties
  imports Deletion Reconcile_Properties
begin

text \<open>
  The properties of deletion, of configuration objects and of routers, with runs on the cluster of
  \<open>Reconcile_Properties\<close>, and the case in which a deletion forgets what it cannot reach.
\<close>

section \<open>Configuration objects\<close>

text \<open>How a pass over an object that is being deleted may end: its cleaning failed and the pass stopped
  there, or every recorded router is done with.\<close>

definition deletionEnds ::
  "('w \<Rightarrow> bool) \<Rightarrow> 'w env \<Rightarrow> ('w \<Rightarrow> string \<Rightarrow> string \<Rightarrow> strmap list) \<Rightarrow> ((string \<Rightarrow> strmap list) \<Rightarrow> bool)
     \<Rightarrow> ('w rosClient \<Rightarrow> ('w, unit) prog) \<Rightarrow> string \<Rightarrow> string list \<Rightarrow> ('w, unit) prog \<Rightarrow> 'w \<Rightarrow> goerr + result \<Rightarrow> 'w \<Rightarrow> bool" where
  "deletionEnds I env dev G cleanup ns targets clean w res w' \<longleftrightarrow>
     (\<exists>e. res = Inl e \<and> clean w = (Inl e, w')) \<or>
     list_all (targetCleaned I env dev G cleanup ns w') targets"

definition removeDNS :: "dnsRecord \<Rightarrow> 'w rosClient \<Rightarrow> ('w, unit) prog" where
  "removeDNS r c = DeleteDNS (rcRun c) (dnsComment r)"

definition removeRoute :: "route \<Rightarrow> 'w rosClient \<Rightarrow> ('w, unit) prog" where
  "removeRoute r c = DeleteRoute (rcRun c) (routeComment r)"

definition removeFirewall :: "firewallRule \<Rightarrow> 'w rosClient \<Rightarrow> ('w, unit) prog" where
  "removeFirewall r c = DeleteFirewallRule (rcRun c) (firewallComment r)"

definition dnsTargets :: "dnsRecord \<Rightarrow> string list" where
  "dnsTargets r = durableRouterTargets (dnsMeta r) [dtRouterRef (dnsStatusOf r), dsRouterRef (dnsSpecOf r)]"

definition forwardTargets :: "portForward \<Rightarrow> string list" where
  "forwardTargets f = durableRouterTargets (pfMeta f) [ptRouterRef (pfStatusOf f), psRouterRef (pfSpecOf f)]"

definition routeTargets :: "route \<Rightarrow> string list" where
  "routeTargets r = durableRouterTargets (routeMeta r) [otRouterRef (routeStatusOf r), osRouterRef (routeSpecOf r)]"

definition firewallTargets :: "firewallRule \<Rightarrow> string list" where
  "firewallTargets r = durableRouterTargets (fwMeta r) [ftRouterRef (fwStatusOf r), fsRouterRef (fwSpecOf r)]"

context device_cluster
begin

lemma deletion_read:
  assumes "getOrIgnore get f w = (res, w')" and "get w = (Inr x, w1)"
  shows "f x w1 = (res, w')"
  using assms by (simp add: getOrIgnore_def tryE_def)

lemma DNS_deletion:
  assumes "dinv w1" and "isDeleting (dnsMeta r)" and "reconcileDNS env r w1 = (res, w')"
  shows "deletionEnds dinv env dev (dnsGone r) (removeDNS r) (omNamespace (dnsMeta r)) (dnsTargets r) (dnsCleanAll env r) w1 res w'"
proof -
  have "keeps (still dev dinv) (dropFinalizer (dnsOps env) r)"
    by (rule keeps_dropFinalizer) (simp add: dnsOps_def, rule dns_keep)
  moreover have "bindE (forE (dnsCleanup env r) (dnsTargets r)) (\<lambda>_. dropFinalizer (dnsOps env) r) w1 = (res, w')"
    using assms(2,3) by (simp add: reconcileDNS_def dnsCleanAll_def dnsTargets_def)
  ultimately show ?thesis
    using deletion_pass[OF cleans_dnsCleanup gone_downward(1) assms(1)]
    by (simp add: deletionEnds_def dnsCleanAll_def dnsTargets_def removeDNS_def[abs_def] list_all_iff)
qed

lemma target_deletion:
  assumes "clears G cleanup" and "dinv w1" and "keeps (still dev dinv) release"
    and "bindE (cleanupRouterTargets env ns ts [] cleanup) (\<lambda>_. release) w1 = (res, w')"
  shows "deletionEnds dinv env dev G cleanup ns ts (cleanupRouterTargets env ns ts [] cleanup) w1 res w'"
proof -
  have "downward G" using assms(1) by (simp add: clears_def)
  from deletion_pass[OF clears_target[OF assms(1)] this assms(2) _ assms(3)] assms(4)
  show ?thesis unfolding deletionEnds_def cleanupRouterTargets_def list_all_iff by blast
qed

lemma forward_deletion:
  assumes "dinv w1" and "isDeleting (pfMeta f)" and "reconcilePortForward env f w1 = (res, w')"
  shows "deletionEnds dinv env dev (forwardGone f) (removeForward f) (omNamespace (pfMeta f)) (forwardTargets f)
    (cleanupRouterTargets env (omNamespace (pfMeta f)) (forwardTargets f) [] (removeForward f)) w1 res w'"
proof (rule target_deletion[OF clears_forward assms(1)])
  show "keeps (still dev dinv) (dropFinalizer (forwardOps env) f)"
    by (rule keeps_dropFinalizer) (simp add: forwardOps_def, rule forwards_keep)
qed (use assms(2,3) in \<open>simp add: reconcilePortForward_def forwardTargets_def\<close>)

lemma route_deletion:
  assumes "dinv w1" and "isDeleting (routeMeta r)" and "reconcileRoute env r w1 = (res, w')"
  shows "deletionEnds dinv env dev (routeGone r) (removeRoute r) (omNamespace (routeMeta r)) (routeTargets r)
    (cleanRoute env r (routeTargets r) []) w1 res w'"
  unfolding cleanRoute_def removeRoute_def[abs_def]
proof (rule target_deletion[OF clears_route assms(1)])
  show "keeps (still dev dinv) (dropFinalizer (routeOps env) r)"
    by (rule keeps_dropFinalizer) (simp add: routeOps_def, rule routes_keep)
qed (use assms(2,3) in \<open>simp add: reconcileRoute_def routeTargets_def cleanRoute_def\<close>)

lemma firewall_deletion:
  assumes "dinv w1" and "isDeleting (fwMeta r)" and "reconcileFirewallRule env r w1 = (res, w')"
  shows "deletionEnds dinv env dev (firewallGone (firewallComment r)) (removeFirewall r) (omNamespace (fwMeta r)) (firewallTargets r)
    (cleanFirewall env r (firewallTargets r) []) w1 res w'"
  unfolding cleanFirewall_def removeFirewall_def[abs_def]
proof (rule target_deletion[OF clears_firewall assms(1)])
  show "keeps (still dev dinv) (dropFinalizer (firewallOps env) r)"
    by (rule keeps_dropFinalizer) (simp add: firewallOps_def, rule firewall_keep)
qed (use assms(2,3) in \<open>simp add: reconcileFirewallRule_def firewallTargets_def cleanFirewall_def\<close>)

end


text \<open>The record of the cluster after it was applied and then deleted.\<close>

definition deleted :: "objectMeta \<Rightarrow> objectMeta" where
  "deleted m = m\<lparr>omDeletionTimestamp := Some 900\<rparr>"

definition leftDNS :: dnsRecord where
  "leftDNS = labDNS\<lparr>dnsMeta := deleted (dnsMeta labDNS)\<rparr>"

definition labEntry :: simState where
  "labEntry = \<lparr>simData = [(''/ip/dns/static'', [[(''.id'', ''*1''), (''name'', ''app.lab''), (''address'', ''10.9.9.9''),
     (''comment'', dnsComment labDNS)]])], simNext = 2\<rparr>"

definition labLeft :: cluster where
  "labLeft = lab\<lparr>clDNS := [leftDNS],
     clDevices := [(''10.0.0.1|8728|false'', labEntry), (''10.0.0.2|8728|false'', labEntry)]\<rparr>"

lemma labInv_left: "labInv labLeft"
proof -
  have "simIdent 1 = ''*1''" by code_simp
  hence "simInv labEntry" by (auto simp: simInv_def labEntry_def simTables_def ident_def less_Suc_eq numeral_2_eq_2)
  thus ?thesis by (simp add: simDinv_def device_def labLeft_def lab_def)
qed



section \<open>Routers\<close>

text \<open>
  C7.  A router is let go swept.  The deletion of a router drops its finalizer only in a world in which
  every endpoint it was ever applied to holds no managed entry, or is claimed by another live router;
  where the sweep fails the deletion ends, with nothing written.
\<close>

theorem router_released_after_sweep:
  assumes "device_cluster env dev dinv" and "dinv w" and "containsFinalizer (routerMeta r) resourceFinalizer"
    and "reconcileDeletionLocked env r w = (res, w')"
  shows "(\<exists>e. res = Inl e \<and> sweepRouter env r w = (Inl e, w')) \<or>
    (\<exists>w2 cs. (\<forall>e\<in>set (routerCleanupEndpoints r). letGo dinv env dev r w2 e) \<and>
       deferE (releaseRouter env r) (closeRouterConnections cs) w2 = (res, w'))"
  by (rule device_cluster.released_after_sweep[OF assms(1,4,3,2)])

definition leftRouter :: router where
  "leftRouter = labRouter\<lparr>routerMeta := deleted (routerMeta labRouter)\<rparr>"

theorem router_released_after_sweep_witness:
  "fst (reconcileDeletionLocked simEnv leftRouter labLeft) = Inr noRequeue \<and>
   (\<exists>w2 cs. list_all (letGo labInv simEnv simDev leftRouter w2) [labEndpoint ''10.0.0.1'', labEndpoint ''10.0.0.2''] \<and>
      deferE (releaseRouter simEnv leftRouter) (closeRouterConnections cs) w2 = reconcileDeletionLocked simEnv leftRouter labLeft)"
proof -
  have r: "containsFinalizer (routerMeta leftRouter) resourceFinalizer" "fst (reconcileDeletionLocked simEnv leftRouter labLeft) = Inr 0"
    "routerCleanupEndpoints leftRouter = [labEndpoint ''10.0.0.1'', labEndpoint ''10.0.0.2'']" by code_simp+
  let ?w = "snd (reconcileDeletionLocked simEnv leftRouter labLeft)"
  have run: "reconcileDeletionLocked simEnv leftRouter labLeft = (Inr 0, ?w)"
    using r(2) by (metis prod.collapse)
  from router_released_after_sweep[OF sc.device_cluster_axioms labInv_left r(1) run]
  obtain w2 cs where "\<forall>e\<in>set (routerCleanupEndpoints leftRouter). letGo labInv simEnv simDev leftRouter w2 e"
    "deferE (releaseRouter simEnv leftRouter) (closeRouterConnections cs) w2 = (Inr 0, ?w)"
    by auto
  with r(2,3) run show ?thesis by (intro conjI exI[of _ w2] exI[of _ cs]) simp_all
qed

end
