(* ===== verification/Claim_Properties.thy ===== *)
theory Claim_Properties
  imports Reconcile_Properties
begin

text \<open>
  Who owns what when two objects want the same: devices by routers, hostnames and public ports by
  records and forwards.  Nobody holds a lock over the cluster: each pass reads what is stored and decides
  alone, so the properties are about two passes that decide separately.
\<close>

section \<open>Devices\<close>

lemma ownershipFrom_owner:
  "ownershipFrom rs r seen es = None \<Longrightarrow> e \<in> set es \<Longrightarrow> hd (endpointOwners rs r (endpointKey e)) = routerName r"
  by (induction es arbitrary: seen) (auto simp: Let_def split: if_splits)

lemma sorted_hd_le: "sorted xs \<Longrightarrow> x \<in> set xs \<Longrightarrow> hd xs \<le> x"
  by (cases xs) auto

lemma owner_le:
  assumes "hd (endpointOwners rs r k) = routerName r" and "r' \<in> set rs" and "otherLiveRouter r r'" and "claimsEndpoint k r'"
  shows "routerName r \<le> routerName r'"
proof -
  have "routerName r' \<in> set (endpointOwners rs r k)"
    unfolding endpointOwners_def set_sort using assms(2-4) by simp
  moreover have "sorted (endpointOwners rs r k)" unfolding endpointOwners_def by (rule sorted_sort)
  ultimately have "hd (endpointOwners rs r k) \<le> routerName r'" by (rule sorted_hd_le[rotated])
  thus ?thesis unfolding assms(1) .
qed

lemma other_by_name: "routerName r \<noteq> routerName r' \<Longrightarrow> \<not> isDeleting (routerMeta r') \<Longrightarrow> otherLiveRouter r r'"
  by (auto simp: otherLiveRouter_def routerName_def)

lemma active_ownership:
  assumes "ensureRouterActive env r w = (Inr (), w')" and "stList (kRouters env) [] w = (Inr rs, v)"
  shows "\<not> isDeleting (routerMeta r)" and "ownershipFrom rs r [] (routerEndpoints r) = None"
  using assms by (auto simp: ensureRouterActive_def ensureRouterEndpointOwnership_def bindE_def liftErr_def
      split: if_splits option.splits)

text \<open>
  C8.  A device has one owner.  Two routers of the cluster that are both let through to their devices,
  each by its own check of the same stored routers, have no device in common, and no router has the same
  device twice: equal addresses are recognised whatever their spelling, and of two claims the one of the
  smaller name wins.
\<close>

theorem devices_have_one_owner:
  assumes "ensureRouterActive env r w = (Inr (), w')" and "stList (kRouters env) [] w = (Inr rs, u)"
    and "ensureRouterActive env r' v = (Inr (), v')" and "stList (kRouters env) [] v = (Inr rs, u')"
    and "r \<in> set rs" and "r' \<in> set rs" and "routerName r \<noteq> routerName r'"
  shows "endpointKey ` set (routerEndpoints r) \<inter> endpointKey ` set (routerEndpoints r') = {} \<and>
    distinct (map endpointKey (routerEndpoints r)) \<and> distinct (map endpointKey (routerEndpoints r'))"
proof (intro conjI)
  note r = active_ownership[OF assms(1,2)] and r' = active_ownership[OF assms(3,4)]
  show "distinct (map endpointKey (routerEndpoints r))" "distinct (map endpointKey (routerEndpoints r'))"
    using ensureRouterActive_ok(4)[OF assms(1)] ensureRouterActive_ok(4)[OF assms(3)] .
  show "endpointKey ` set (routerEndpoints r) \<inter> endpointKey ` set (routerEndpoints r') = {}"
  proof (rule ccontr)
    assume "\<not> ?thesis"
    then obtain e e' where e: "e \<in> set (routerEndpoints r)" "e' \<in> set (routerEndpoints r')" "endpointKey e = endpointKey e'"
      by blast
    hence k: "claimsEndpoint (endpointKey e) r'" "claimsEndpoint (endpointKey e') r"
      by (auto simp: claimsEndpoint_def)
    have "routerName r \<le> routerName r'"
      by (rule owner_le[OF ownershipFrom_owner[OF r(2) e(1)] assms(6) other_by_name[OF assms(7) r'(1)] k(1)])
    moreover have "routerName r' \<le> routerName r"
      by (rule owner_le[OF ownershipFrom_owner[OF r'(2) e(2)] assms(5) other_by_name[OF assms(7)[symmetric] r(1)] k(2)])
    ultimately show False using assms(7) by simp
  qed
qed

text \<open>Two routers of one namespace with one device each, and one that wants both.\<close>

definition ownRouter :: "string \<Rightarrow> string list \<Rightarrow> router" where
  "ownRouter n as = labRouter\<lparr>routerMeta := labMeta n,
     routerSpecOf := (routerSpecOf labRouter)\<lparr>rsRouters := map labEndpoint as\<rparr>,
     routerStatusOf := (routerStatusOf labRouter)\<lparr>rtAppliedEndpoints := map labEndpoint as\<rparr>\<rparr>"

definition sharedLab :: cluster where
  "sharedLab = lab\<lparr>clRouters := [ownRouter ''attic'' [''10.0.0.1''], ownRouter ''cellar'' [''10.0.0.2''],
     ownRouter ''zone'' [''10.0.0.3'', ''10.0.0.2'']]\<rparr>"

theorem devices_have_one_owner_witness:
  "fst (ensureRouterActive simEnv (ownRouter ''attic'' [''10.0.0.1'']) sharedLab) = Inr () \<and>
   fst (ensureRouterActive simEnv (ownRouter ''cellar'' [''10.0.0.2'']) sharedLab) = Inr () \<and>
   isl (fst (ensureRouterActive simEnv (ownRouter ''zone'' [''10.0.0.3'', ''10.0.0.2'']) sharedLab)) \<and>
   endpointKey ` set (routerEndpoints (ownRouter ''attic'' [''10.0.0.1''])) \<inter>
   endpointKey ` set (routerEndpoints (ownRouter ''cellar'' [''10.0.0.2''])) = {}"
proof -
  let ?a = "ownRouter ''attic'' [''10.0.0.1'']" and ?c = "ownRouter ''cellar'' [''10.0.0.2'']"
  have ok: "fst (ensureRouterActive simEnv ?a sharedLab) = Inr ()" "fst (ensureRouterActive simEnv ?c sharedLab) = Inr ()"
    "isl (fst (ensureRouterActive simEnv (ownRouter ''zone'' [''10.0.0.3'', ''10.0.0.2'']) sharedLab))"
    "routerName ?a \<noteq> routerName ?c" by code_simp+
  have run: "ensureRouterActive simEnv ?a sharedLab = (Inr (), snd (ensureRouterActive simEnv ?a sharedLab))"
    "ensureRouterActive simEnv ?c sharedLab = (Inr (), snd (ensureRouterActive simEnv ?c sharedLab))"
    using ok(1,2) by (metis prod.collapse)+
  have stored: "stList (kRouters simEnv) [] sharedLab = (Inr (clRouters sharedLab), sharedLab)"
    by (simp add: simEnv_def memStore_def routerKind_def)
  have "?a \<in> set (clRouters sharedLab)" "?c \<in> set (clRouters sharedLab)" by (simp_all add: sharedLab_def)
  from devices_have_one_owner[OF run(1) stored run(2) stored this ok(4)] ok show ?thesis by blast
qed

section \<open>Hostnames and ports\<close>

text \<open>
  An owner and its object: the object is the owner itself or is controlled by it, so that both name
  the same actor, whoever looks.
\<close>

lemma actor_of_own:
  assumes "ooKind o' = cvKind v" and "ooMeta o' = cvMeta v" and "ooKind o' = OwnDNS \<or> ooKind o' = OwnForward"
  shows "generatedClaimActorForExisting v = generatedClaimActorForCurrent o'"
  using assms by (auto simp: generatedClaimActorForExisting_def generatedClaimActorForCurrent_def Let_def
      split: option.splits prod.splits)

lemma actor_of_child:
  assumes "controllerOf (ooMeta o') = None" and "controllerOf (cvMeta v) = Some c"
    and "orKind c = fst (generatedClaimObjectKind (ooKind o'))" and "orName c = omName (ooMeta o')" and "orUID c = omUID (ooMeta o')"
    and "omNamespace (cvMeta v) = omNamespace (ooMeta o')" and "\<not> snd (generatedClaimObjectKind (ooKind o'))"
  shows "generatedClaimActorForExisting v = generatedClaimActorForCurrent o'"
  using assms by (simp add: generatedClaimActorForExisting_def generatedClaimActorForCurrent_def Let_def split_beta)

lemma sentinelErr_is [simp]: "errorsIs (sentinelErr s t) s' \<longleftrightarrow> s = s'"
  by (simp add: sentinelErr_def)

lemma conflict_text:
  assumes "errorsIs (generatedOwnershipConflict o' v claim has) ErrGeneratedChildCollision"
  shows "contains (errorText (generatedOwnershipConflict o' v claim has)) (sentinelText ErrGeneratedChildCollision)"
    and "contains (errorText (generatedOwnershipConflict o' v claim has)) (caKey (generatedClaimActorForExisting v))"
proof -
  have "generatedOwnershipConflict o' v claim has
      = sentinelErr ErrGeneratedChildCollision (claim @ '' is reserved by direct resource '' @ caKey (generatedClaimActorForExisting v)) \<or>
    generatedOwnershipConflict o' v claim has
      = sentinelErr ErrGeneratedChildCollision (claim @ '' remains owned by incumbent owner '' @ caKey (generatedClaimActorForExisting v))"
    using assms unfolding generatedOwnershipConflict_def Let_def by (auto split: if_splits)
  then obtain t where t: "generatedOwnershipConflict o' v claim has
      = sentinelErr ErrGeneratedChildCollision (claim @ t @ caKey (generatedClaimActorForExisting v))"
    by blast
  let ?k = "caKey (generatedClaimActorForExisting v)" and ?s = "sentinelText ErrGeneratedChildCollision"
  have said: "errorText (generatedOwnershipConflict o' v claim has) = ?s @ '': '' @ claim @ t @ ?k"
    unfolding t by (simp add: sentinelErr_def)
  show "contains (errorText (generatedOwnershipConflict o' v claim has)) ?s"
    unfolding said contains_iff by (intro exI[of _ "[]"] exI[of _ "'': '' @ claim @ t @ ?k"]) simp
  show "contains (errorText (generatedOwnershipConflict o' v claim has)) ?k"
    unfolding said contains_iff by (intro exI[of _ "?s @ '': '' @ claim @ t"] exI[of _ "[]"]) simp
qed

text \<open>The status of a record that reports an error, as \<^verbatim>\<open>dnsFailed\<close> writes it.\<close>

definition failedView :: "int \<Rightarrow> goerr \<Rightarrow> claimView \<Rightarrow> claimView" where
  "failedView now err v =
     v\<lparr>cvApplied := False,
       cvConditions := readyCondition now (cvConditions v) ConditionFalse ''ApplyFailed'' (errorText err)\<rparr>"

lemma failedView_yields:
  assumes "errorsIs (generatedOwnershipConflict o' v claim has) ErrGeneratedChildCollision"
  shows "generatedClaimHasYieldedTo (failedView now (generatedOwnershipConflict o' v claim has) u)
    (generatedClaimActorForExisting v)"
  using conflict_text[OF assms] by (simp add: failedView_def generatedClaimHasYieldedTo_def readyCondition_def)

text \<open>
  C10.  A conflict has one loser.  Two actors that hold the same claim, each finding the other's object,
  come to opposite verdicts: one is to wait, the other is told to yield; a direct object never loses to a
  generated one.  When the loser reports what it was told, its object counts as yielded to the winner, so
  the winner's next look no longer finds a conflict.
\<close>

theorem claims_arbitrated:
  assumes "generatedClaimActorForExisting v = generatedClaimActorForCurrent o1"
    and "generatedClaimActorForExisting v' = generatedClaimActorForCurrent o2"
    and "caKey (generatedClaimActorForCurrent o1) \<noteq> caKey (generatedClaimActorForCurrent o2)"
  shows "(errorsIs (generatedOwnershipConflict o1 v' claim True) ErrGeneratedClaimWaiting
      \<longleftrightarrow> errorsIs (generatedOwnershipConflict o2 v claim' True) ErrGeneratedChildCollision) \<and>
    (errorsIs (generatedOwnershipConflict o1 v' claim True) ErrGeneratedClaimWaiting
      \<longleftrightarrow> \<not> errorsIs (generatedOwnershipConflict o1 v' claim True) ErrGeneratedChildCollision) \<and>
    (caDirect (generatedClaimActorForCurrent o1) \<and> \<not> caDirect (generatedClaimActorForCurrent o2) \<longrightarrow>
      errorsIs (generatedOwnershipConflict o2 v claim' has) ErrGeneratedChildCollision) \<and>
    (errorsIs (generatedOwnershipConflict o2 v claim' has) ErrGeneratedChildCollision \<longrightarrow>
      generatedClaimHasYieldedTo (failedView now (generatedOwnershipConflict o2 v claim' has) v')
        (generatedClaimActorForCurrent o1))"
proof (intro conjI impI)
  note defs = generatedOwnershipConflict_def Let_def assms(1,2)
  show "errorsIs (generatedOwnershipConflict o1 v' claim True) ErrGeneratedClaimWaiting
      \<longleftrightarrow> errorsIs (generatedOwnershipConflict o2 v claim' True) ErrGeneratedChildCollision"
    using assms(3) by (auto simp: defs)
  show "errorsIs (generatedOwnershipConflict o1 v' claim True) ErrGeneratedClaimWaiting
      \<longleftrightarrow> \<not> errorsIs (generatedOwnershipConflict o1 v' claim True) ErrGeneratedChildCollision"
    by (auto simp: defs)
  show "errorsIs (generatedOwnershipConflict o2 v claim' has) ErrGeneratedChildCollision"
    if "caDirect (generatedClaimActorForCurrent o1) \<and> \<not> caDirect (generatedClaimActorForCurrent o2)"
    using that by (simp add: defs)
  show "generatedClaimHasYieldedTo (failedView now (generatedOwnershipConflict o2 v claim' has) v') (generatedClaimActorForCurrent o1)"
    if "errorsIs (generatedOwnershipConflict o2 v claim' has) ErrGeneratedChildCollision"
    using failedView_yields[OF that] by (simp add: assms(1))
qed

definition rivalDNS :: dnsRecord where
  "rivalDNS = labDNS\<lparr>dnsMeta := (labMeta ''backup'')\<rparr>"

theorem claims_arbitrated_witness:
  "errorsIs (generatedOwnershipConflict (dnsOwner labDNS) (dnsView rivalDNS) ''claim'' True) ErrGeneratedClaimWaiting \<and>
   errorsIs (generatedOwnershipConflict (dnsOwner rivalDNS) (dnsView labDNS) ''claim'' True) ErrGeneratedChildCollision \<and>
   generatedClaimHasYieldedTo (failedView 0 (generatedOwnershipConflict (dnsOwner rivalDNS) (dnsView labDNS) ''claim'' True) (dnsView rivalDNS))
     (generatedClaimActorForCurrent (dnsOwner labDNS))"
proof -
  have a: "generatedClaimActorForExisting (dnsView labDNS) = generatedClaimActorForCurrent (dnsOwner labDNS)"
    "generatedClaimActorForExisting (dnsView rivalDNS) = generatedClaimActorForCurrent (dnsOwner rivalDNS)"
    by (rule actor_of_own; simp add: dnsOwner_def dnsView_def)+
  have k: "caKey (generatedClaimActorForCurrent (dnsOwner labDNS)) \<noteq> caKey (generatedClaimActorForCurrent (dnsOwner rivalDNS))"
    "errorsIs (generatedOwnershipConflict (dnsOwner labDNS) (dnsView rivalDNS) ''claim'' True) ErrGeneratedClaimWaiting"
    by code_simp+
  from claims_arbitrated[OF a k(1), of "''claim''" "''claim''" True 0] k(2) show ?thesis by blast
qed

section \<open>What a successful check of claims means\<close>

text \<open>A stored object does not stand in the way of an owner's claim on the router \<open>key\<close>: it is the owner's,
  it has yielded, it claims something else, or it is on other routers.\<close>

definition outOfTheWay ::
  "'w env \<Rightarrow> ownerObj \<Rightarrow> string \<Rightarrow> ('o \<Rightarrow> claimView) \<Rightarrow> ('o \<Rightarrow> string option) \<Rightarrow> 'o \<Rightarrow> bool" where
  "outOfTheWay env owner key view claimed x \<longleftrightarrow>
     isCurrentClaimObject (view x) owner \<or> generatedClaimHasYieldedTo (view x) (generatedClaimActorForCurrent owner) \<or>
     claimed x = None \<or> (\<exists>refs. returns (\<lambda>_. True) (generatedClaimRouterRefs env (view x)) refs \<and> key \<notin> set refs)"

lemma conflictFrom_ok:
  "conflictFrom env owner key view claimed has xs w = (Inr (), w') \<Longrightarrow> \<forall>x\<in>set xs. outOfTheWay env owner key view claimed x"
proof (induction xs arbitrary: w)
  case (Cons x xs)
  let ?rest = "conflictFrom env owner key view claimed has xs"
  show ?case
  proof (cases "isCurrentClaimObject (view x) owner \<or> generatedClaimHasYieldedTo (view x) (generatedClaimActorForCurrent owner)")
    case True
    with Cons.prems have "?rest w = (Inr (), w')" by (simp split: if_splits)
    from Cons.IH[OF this] True show ?thesis by (auto simp: outOfTheWay_def)
  next
    case False
    with Cons.prems obtain refs w1 where refs: "generatedClaimRouterRefs env (view x) w = (Inr refs, w1)"
      and rest: "(if key \<notin> set refs then ?rest
        else case claimed x of None \<Rightarrow> ?rest | Some claim \<Rightarrow> failE (generatedOwnershipConflict owner (view x) claim has)) w1 = (Inr (), w')"
      by (auto elim!: bindE_InrE)
    have "key \<notin> set refs \<or> claimed x = None" "?rest w1 = (Inr (), w')"
      using rest by (auto split: if_splits option.splits)
    moreover have "returns (\<lambda>_. True) (generatedClaimRouterRefs env (view x)) refs"
      using refs by (auto intro: returnsI)
    ultimately show ?thesis using Cons.IH by (auto simp: outOfTheWay_def)
  qed
qed simp


definition wantApp :: dnsCandidate where
  "wantApp = \<lparr>dcChildName = [], dcHostname = ''APP.lab.'', dcService = mkName [] [], dcAddress = ''10.9.9.9''\<rparr>"


end
