(* ===== verification/Router_Properties.thy ===== *)
theory Router_Properties
  imports Reconcile_Properties
begin

text \<open>
  The properties of routers: a device is written into the status of its router before anybody contacts
  it, and the record never loses a device that may still hold configuration.
\<close>

section \<open>The history of endpoints\<close>

lemma union_keys:
  "endpointKey ` set (durableRouterEndpointUnion previous current) = endpointKey ` set previous \<union> endpointKey ` set current"
  by (simp add: durableRouterEndpointUnion_def keys_fold_upsert)

lemma fold_upsert_in_place:
  "distinct (map endpointKey us) \<Longrightarrow> set es \<subseteq> set us \<Longrightarrow> fold upsertEndpoint es us = us"
  by (induction es) (simp_all add: upsert_last_in_place)

lemma fold_upsert_new:
  "distinct (map endpointKey (us @ es)) \<Longrightarrow> fold upsertEndpoint es us = us @ es"
proof (induction es arbitrary: us)
  case (Cons e es)
  have "upsertEndpoint e us = us @ [e]"
    using Cons.prems by (induction us) auto
  with Cons show ?case by simp
qed simp

text \<open>
  C12.  The endpoint history keeps every device.  The union of the recorded and the current endpoints has
  each device of either exactly once, the current ones with their current name and credentials, keeps the
  recorded order, and is stable: recording it again, or with the same current endpoints, changes nothing,
  so the pass that records it is followed by passes that go on.
\<close>

theorem endpoint_history_complete:
  assumes "distinct (map endpointKey current)"
  shows "endpointKey ` set (durableRouterEndpointUnion previous current)
      = endpointKey ` set previous \<union> endpointKey ` set current \<and>
    distinct (map endpointKey (durableRouterEndpointUnion previous current)) \<and>
    set current \<subseteq> set (durableRouterEndpointUnion previous current) \<and>
    durableRouterEndpointUnion (durableRouterEndpointUnion previous current) current = durableRouterEndpointUnion previous current"
proof (intro conjI)
  let ?u = "durableRouterEndpointUnion previous current"
  show keys: "distinct (map endpointKey ?u)"
    unfolding durableRouterEndpointUnion_def by (simp add: distinct_fold_upsert)
  show "endpointKey ` set ?u = endpointKey ` set previous \<union> endpointKey ` set current" by (rule union_keys)
  show sub: "set current \<subseteq> set ?u"
    unfolding durableRouterEndpointUnion_def by (rule fold_upsert_members[OF assms])
  have "fold upsertEndpoint ?u [] = ?u" using fold_upsert_new[of "[]" ?u] keys by simp
  thus "durableRouterEndpointUnion ?u current = ?u"
    using fold_upsert_in_place[OF keys sub] by (simp add: durableRouterEndpointUnion_def[of ?u])
qed

text \<open>A router that moved one of its devices to other credentials and dropped the other.\<close>

theorem endpoint_history_complete_witness:
  "durableRouterEndpointUnion [labEndpoint ''10.0.0.1'', labEndpoint ''10.0.0.2'']
     [(labEndpoint ''10.0.0.2.'')\<lparr>epAddress := ''10.0.0.2'', epCredentialsSecret := ''new''\<rparr>]
   = [labEndpoint ''10.0.0.1'', (labEndpoint ''10.0.0.2.'')\<lparr>epAddress := ''10.0.0.2'', epCredentialsSecret := ''new''\<rparr>] \<and>
   durableRouterEndpointUnion (durableRouterEndpointUnion [labEndpoint ''10.0.0.1''] [labEndpoint ''10.0.0.2'']) [labEndpoint ''10.0.0.2'']
   = durableRouterEndpointUnion [labEndpoint ''10.0.0.1''] [labEndpoint ''10.0.0.2'']"
proof
  show "durableRouterEndpointUnion [labEndpoint ''10.0.0.1'', labEndpoint ''10.0.0.2'']
     [(labEndpoint ''10.0.0.2.'')\<lparr>epAddress := ''10.0.0.2'', epCredentialsSecret := ''new''\<rparr>]
   = [labEndpoint ''10.0.0.1'', (labEndpoint ''10.0.0.2.'')\<lparr>epAddress := ''10.0.0.2'', epCredentialsSecret := ''new''\<rparr>]"
    by code_simp
  show "durableRouterEndpointUnion (durableRouterEndpointUnion [labEndpoint ''10.0.0.1''] [labEndpoint ''10.0.0.2'']) [labEndpoint ''10.0.0.2'']
   = durableRouterEndpointUnion [labEndpoint ''10.0.0.1''] [labEndpoint ''10.0.0.2'']"
    using endpoint_history_complete[of "[labEndpoint ''10.0.0.2'']" "[labEndpoint ''10.0.0.1'']"] by simp
qed

section \<open>Recorded before the first contact\<close>

text \<open>The router may be contacted: it is valid and its status has every device of its spec.\<close>

definition recordedRouter :: "router \<Rightarrow> bool" where
  "recordedRouter r \<longleftrightarrow>
     containsFinalizer (routerMeta r) resourceFinalizer \<and> routerEndpoints r \<noteq> [] \<and>
     list_all endpointUsable (routerEndpoints r) \<and>
     list_all (\<lambda>e. endpointKey e \<in> endpointKey ` set (rtAppliedEndpoints (routerStatusOf r))) (routerEndpoints r)"

lemma recordedRouterI:
  assumes "validateRouterEndpoints r = None" and "containsFinalizer (routerMeta r) resourceFinalizer"
    and "durableRouterEndpointUnion (rtAppliedEndpoints (routerStatusOf r)) (routerEndpoints r) = rtAppliedEndpoints (routerStatusOf r)"
  shows "recordedRouter r"
proof -
  have "endpointKey ` set (routerEndpoints r) \<subseteq> endpointKey ` set (rtAppliedEndpoints (routerStatusOf r))"
    using union_keys[of "rtAppliedEndpoints (routerStatusOf r)" "routerEndpoints r"] unfolding assms(3) by blast
  moreover have "routerEndpoints r \<noteq> []" "list_all endpointUsable (routerEndpoints r)"
    using assms(1) by (auto simp: validateRouterEndpoints_def Let_def validateFrom_None list_all_iff split: if_splits)
  ultimately show ?thesis using assms(2) by (auto simp: recordedRouter_def list_all_iff)
qed

context read_frame
begin

lemma keeps_failRouter:
  assumes "storeKeeps R (\<lambda>_. True) (kRouters env)"
  shows "keeps R (failRouter env r e)"
  unfolding failRouter_def Let_def putStatus_def
  by (intro read_rules keeps_nowE storeKeepsD(6)[OF assms] TrueI)

lemma keeps_ensureOwnership: "keeps R (ensureRouterEndpointOwnership env r)"
  unfolding ensureRouterEndpointOwnership_def by (intro read_rules)

lemma contact_only_recorded:
  assumes store: "storeKeeps R (\<lambda>_. True) (kRouters env)" and run: "RouterReconcile env key w = (res, w')" and broken: "\<not> R w w'"
  shows "\<exists>obj w1. stGet (kRouters env) key w = (Inr obj, w1) \<and> (isDeleting (routerMeta obj) \<or> recordedRouter obj)"
proof -
  let ?get = "stGet (kRouters env) key"
  obtain s w1 where s: "?get w = (s, w1)" by (meson surj_pair)
  have get: "keeps R ?get" by (rule storeKeepsD(1)[OF store])
  have w1: "R w w1" by (rule keepsD[OF get s])
  show ?thesis
  proof (cases s)
    case (Inl e)
    with run s have "w' = w1"
      by (auto simp: RouterReconcile_def getOrIgnore_def tryE_def ignoreNotFound_def split: if_splits)
    with w1 broken show ?thesis by simp
  next
    case (Inr obj)
    show ?thesis
    proof (cases "isDeleting (routerMeta obj) \<or> recordedRouter obj")
      case False
      let ?applied = "rtAppliedEndpoints (routerStatusOf obj)"
      let ?history = "durableRouterEndpointUnion ?applied (routerEndpoints obj)"
      let ?contact = "tryE (withFence (kFence env) (kUnfence env) key (reconcileLocked env key obj)) (\<lambda>x. case x of
          Inl err \<Rightarrow> failRouter env obj err | Inr (LockedFail err r) \<Rightarrow> failRouter env r err
        | Inr (LockedFinal err) \<Rightarrow> failE err | Inr (LockedOk res) \<Rightarrow> returnE res)"
      let ?body = "case validateRouterEndpoints obj of
         Some err \<Rightarrow> failRouter env obj err
       | None \<Rightarrow>
         if \<not> containsFinalizer (routerMeta obj) resourceFinalizer
         then thenReturn (stUpdate (kRouters env) (obj\<lparr>routerMeta := addFinalizer resourceFinalizer (routerMeta obj)\<rparr>)) noRequeue
         else tryE (ensureRouterEndpointOwnership env obj) (\<lambda>own. case own of
           Inl err \<Rightarrow> failRouter env obj err
         | Inr _ \<Rightarrow>
           if ?history \<noteq> ?applied
           then thenReturn (stUpdateStatus (kRouters env)
                  (obj\<lparr>routerStatusOf := (routerStatusOf obj)\<lparr>rtAppliedEndpoints := ?history\<rparr>\<rparr>)) noRequeue
           else ?contact)"
      have "keeps R ?body"
        by (intro keeps_option keeps_if keeps_failRouter[OF store] keeps_thenReturn storeKeepsD(4)[OF store]
            storeKeepsD(6)[OF store] keeps_try keeps_sum keeps_ensureOwnership TrueI)
           (use False recordedRouterI in blast)+
      moreover have "?body w1 = (res, w')"
        using run[unfolded RouterReconcile_def getOrIgnore_def Let_def, unfolded tryE_apply[where m = ?get, OF s] Inr] False by simp
      ultimately have "R w1 w'" using keepsD by fast
      with frame_trans[OF w1] broken show ?thesis by blast
    qed (use s Inr in blast)
  qed
qed

end

text \<open>
  C11.  A router is recorded before it is contacted.  Whatever the calls to the API server keep, a pass of
  the router reconciler keeps too, unless the router it read is being deleted, or has its finalizer, only
  usable endpoints, and each of its devices in the history of its status.
\<close>

theorem router_recorded_before_contact:
  assumes "read_frame R I env" and "storeKeeps R (\<lambda>_. True) (kRouters env)"
    and "RouterReconcile env key w = (res, w')" and "\<not> R w w'"
  shows "\<exists>obj w1. stGet (kRouters env) key w = (Inr obj, w1) \<and> (isDeleting (routerMeta obj) \<or> recordedRouter obj)"
  by (rule read_frame.contact_only_recorded[OF assms])

text \<open>A cluster of one router that refuses every connection, and counts them.\<close>

definition noStore :: "('w, 'o) store" where
  "noStore = \<lparr>stGet = (\<lambda>_. failE notFoundErr), stList = (\<lambda>_. returnE []), stCreate = returnE, stUpdate = returnE,
     stUpdateStatus = returnE, stDelete = (\<lambda>_. returnE ())\<rparr>"

definition refusingEnv :: "nat env" where
  "refusingEnv = \<lparr>kRouters = noStore\<lparr>stGet := (\<lambda>_. returnE labRouter), stList := (\<lambda>_. returnE [labRouter])\<rparr>,
     kDNS = noStore, kForwards = noStore, kRoutes = noStore, kFirewall = noStore, kServices = noStore,
     kGetPod = (\<lambda>_. failE notFoundErr), kListNodes = returnE [],
     kGetSecret = (\<lambda>_. returnE [(''username'', ''admin''), (''password'', ''secret'')]), kNow = (\<lambda>_. 1000), kSetOwner = simOwner,
     kFactory = (\<lambda>a p t u pw n. (Inl (Opaque ''connection refused''), Suc n)),
     kFence = (\<lambda>_. returnE ()), kUnfence = (\<lambda>_. returnE ()), kClaimFence = (\<lambda>_. returnE ()), kClaimUnfence = (\<lambda>_. returnE ())\<rparr>"

interpretation undialled: frame "(=)"
  by unfold_locales auto

lemma noStore_keeps: "storeKeeps (=) ok noStore" "storeReads (=) noStore"
  by (simp_all add: storeKeeps_def storeReads_def noStore_def undialled.keeps_combinators)

lemma refusing_routers: "storeKeeps (=) ok (kRouters refusingEnv)"
  by (simp add: storeKeeps_def refusingEnv_def noStore_def undialled.keeps_combinators)

interpretation refusing: read_frame "(=)" "\<lambda>_. True" refusingEnv
proof unfold_locales
  show "storeReads (=) (kRouters refusingEnv)"
    using refusing_routers by (simp add: storeKeeps_def storeReads_def)
qed (simp_all add: refusingEnv_def noStore_keeps undialled.keeps_combinators)

theorem router_recorded_before_contact_witness:
  "snd (RouterReconcile refusingEnv (mkName ''lab'' ''home'') 0) = 1 \<and> (isDeleting (routerMeta labRouter) \<or> recordedRouter labRouter)"
proof
  show one: "snd (RouterReconcile refusingEnv (mkName ''lab'' ''home'') 0) = 1" by code_simp
  let ?run = "RouterReconcile refusingEnv (mkName ''lab'' ''home'') 0"
  have "?run = (fst ?run, snd ?run)" by (rule prod.collapse[symmetric])
  moreover have "0 \<noteq> snd ?run" unfolding one by simp
  ultimately have "\<exists>obj w1. stGet (kRouters refusingEnv) (mkName ''lab'' ''home'') 0 = (Inr obj, w1) \<and>
      (isDeleting (routerMeta obj) \<or> recordedRouter obj)"
    by (rule router_recorded_before_contact[where R = "(=)" and I = "\<lambda>_. True", OF refusing.read_frame_axioms refusing_routers])
  thus "isDeleting (routerMeta labRouter) \<or> recordedRouter labRouter"
    by (auto simp: refusingEnv_def returnE_def)
qed

end
