(* ===== verification/Chart_Check.thy ===== *)
theory Chart_Check
  imports Ui_Api "HOL-Library.Multiset"
begin

text \<open>
  The check of the rendered Helm chart (\<^verbatim>\<open>hack/uichart/main.go\<close>), which the build runs before a release:
  the UI resources that must be there, the hardening of the UI container, and what the ClusterRole of the
  UI grants.  Reading YAML and decoding it into Kubernetes types are parameters; a rendered document is
  whatever the decoder makes of it.
\<close>

section \<open>Kubernetes types\<close>

record securityContext =
  scReadOnlyRoot :: "bool option"
  scPrivilegeEscalation :: "bool option"
  scDrop :: "string list option"

text \<open>The path of the HTTP probe, if it is one; a resource list is from names to amounts, zero if absent.\<close>

record probe =
  prHTTPGet :: "string option"

type_synonym resourceList = "(string \<times> int) list"

definition quantity :: "resourceList \<Rightarrow> string \<Rightarrow> int" where
  "quantity rs name = (case map_of rs name of None \<Rightarrow> 0 | Some q \<Rightarrow> q)"

record chartContainer =
  ccArgs :: "string list"
  ccSecurity :: "securityContext option"
  ccReadiness :: "probe option"
  ccLiveness :: "probe option"
  ccRequests :: resourceList
  ccLimits :: resourceList

record chartDeployment =
  cdReplicas :: "int option"
  cdContainers :: "chartContainer list"

record policyRule =
  puGroups :: "string list"
  puResources :: "string list"
  puVerbs :: "string list"

text \<open>The YAML reader gives the documents of a file up to the first error; the rest is decoding.\<close>

record 'u chartTools =
  tlRead :: "string \<Rightarrow> (goerr + string) list"
  tlTypeKind :: "string \<Rightarrow> goerr + string"
  tlObject :: "string \<Rightarrow> goerr + 'u"
  tlKind :: "'u \<Rightarrow> string"
  tlName :: "'u \<Rightarrow> string"
  tlLabels :: "'u \<Rightarrow> (string \<times> string) list"
  tlMarshal :: "'u \<Rightarrow> goerr + string"
  tlDeployment :: "string \<Rightarrow> goerr + chartDeployment"
  tlServiceType :: "string \<Rightarrow> goerr + string"
  tlClusterRole :: "string \<Rightarrow> goerr + policyRule list"

text \<open>The text of a list of strings under \<^verbatim>\<open>%v\<close>.\<close>

definition fmtList :: "string list \<Rightarrow> string" where
  "fmtList xs = ''['' @ joinWith '' '' xs @ '']''"

section \<open>Documents\<close>

definition uiComponent :: string where "uiComponent = ''ui''"

definition requiredCRDs :: "string list" where
  "requiredCRDs = [''mikrotikrouters'', ''mikrotikdnsrecords'', ''mikrotikportforwards'', ''mikrotikroutes'', ''mikrotikfirewallrules'']"

definition requiredVerbs :: "string list" where
  "requiredVerbs = [''get'', ''list'', ''watch'', ''create'', ''update'', ''patch'', ''delete'']"

definition documentErr :: "int \<Rightarrow> string \<Rightarrow> goerr \<Rightarrow> goerr" where
  "documentErr document what e = wrapErr (''document '' @ itoa document @ what @ '': '') e"

fun decodeFrom :: "'u chartTools \<Rightarrow> int \<Rightarrow> (goerr + string) list \<Rightarrow> goerr + 'u list" where
  "decodeFrom t document [] = Inr []"
| "decodeFrom t document (Inl err # rest) = Inl (documentErr document [] err)"
| "decodeFrom t document (Inr raw # rest) =
     (if trimSpace raw = [] then decodeFrom t (document + 1) rest
      else case tlTypeKind t raw of
        Inl err \<Rightarrow> Inl (documentErr document '' type meta'' err)
      | Inr kind \<Rightarrow>
          (if kind = [] then decodeFrom t (document + 1) rest
           else case tlObject t raw of
             Inl err \<Rightarrow> Inl (documentErr document [] err)
           | Inr obj \<Rightarrow> map_sum id ((#) obj) (decodeFrom t (document + 1) rest)))"

definition decodeDocs :: "'u chartTools \<Rightarrow> string \<Rightarrow> goerr + 'u list" where
  "decodeDocs t data = decodeFrom t 1 (tlRead t data)"

definition filterUI :: "'u chartTools \<Rightarrow> 'u list \<Rightarrow> 'u list" where
  "filterUI t docs = filter (\<lambda>d. mget (tlLabels t d) ''app.kubernetes.io/component'' = uiComponent) docs"

section \<open>Small tests\<close>

definition containsArg :: "string list \<Rightarrow> string \<Rightarrow> bool" where
  "containsArg args want = list_ex (\<lambda>arg. arg = want) args"

definition hasBindAddress :: "string list \<Rightarrow> bool" where
  "hasBindAddress args = list_ex (\<lambda>arg. hasPrefix arg ''-bind-address='') args"

definition hasNamespace :: "string list \<Rightarrow> bool" where
  "hasNamespace args = list_ex (\<lambda>arg. hasPrefix arg ''-namespace='' \<and> trimPrefix arg ''-namespace='' \<noteq> []) args"

definition dropsAll :: "string list \<Rightarrow> bool" where
  "dropsAll caps = list_ex (\<lambda>c. c = ''ALL'') caps"

definition findRule :: "policyRule list \<Rightarrow> string \<Rightarrow> policyRule option" where
  "findRule rules apiGroup = find (\<lambda>r. list_ex (\<lambda>g. g = apiGroup) (puGroups r)) rules"

definition findCoreRule :: "policyRule list \<Rightarrow> string \<Rightarrow> policyRule option" where
  "findCoreRule rules resource =
     find (\<lambda>r. list_ex (\<lambda>g. g = []) (puGroups r) \<and> list_ex (\<lambda>n. n = resource) (puResources r)) rules"

definition findAnyResource :: "policyRule list \<Rightarrow> string \<Rightarrow> bool" where
  "findAnyResource rules resource = list_ex (\<lambda>r. list_ex (\<lambda>n. n = resource) (puResources r)) rules"

definition sameSet :: "string list \<Rightarrow> string list \<Rightarrow> bool" where
  "sameSet got want = (length got = length want \<and> list_all (\<lambda>x. x \<in> set got) want)"

section \<open>The resources\<close>

text \<open>A problem when a condition holds; the checks of a list of problems are concatenated.\<close>

definition problemIf :: "bool \<Rightarrow> string \<Rightarrow> goerr list" where
  "problemIf bad what = (if bad then [Opaque what] else [])"

definition probePath :: "probe option \<Rightarrow> string option" where
  "probePath p = (case p of None \<Rightarrow> None | Some q \<Rightarrow> prHTTPGet q)"

definition containerProblems :: "chartContainer \<Rightarrow> goerr list" where
  "containerProblems c =
     (let args = ccArgs c; sec = ccSecurity c in
      problemIf (\<not> containsArg args ''-static-dir=/ui'') (''UI container args '' @ fmtList args @ '' missing -static-dir=/ui'')
      @ problemIf (\<not> hasBindAddress args) (''UI container args '' @ fmtList args @ '' missing -bind-address'')
      @ problemIf (\<not> hasNamespace args) (''UI container args '' @ fmtList args @ '' missing -namespace'')
      @ problemIf (case sec of None \<Rightarrow> True | Some s \<Rightarrow> scReadOnlyRoot s \<noteq> Some True)
          ''UI container must set readOnlyRootFilesystem''
      @ problemIf (case sec of None \<Rightarrow> True | Some s \<Rightarrow> scPrivilegeEscalation s \<noteq> Some False)
          ''UI container must drop privilege escalation''
      @ problemIf (case sec of None \<Rightarrow> True | Some s \<Rightarrow>
            (case scDrop s of None \<Rightarrow> True | Some caps \<Rightarrow> \<not> dropsAll caps))
          ''UI container must drop all capabilities''
      @ problemIf (probePath (ccReadiness c) \<noteq> Some ''/readyz'') ''UI readiness probe must GET /readyz''
      @ problemIf (probePath (ccLiveness c) \<noteq> Some ''/healthz'') ''UI liveness probe must GET /healthz''
      @ problemIf (quantity (ccRequests c) ''cpu'' = 0 \<or> quantity (ccRequests c) ''memory'' = 0)
          ''UI container must set CPU and memory requests''
      @ problemIf (quantity (ccLimits c) ''cpu'' = 0 \<or> quantity (ccLimits c) ''memory'' = 0)
          ''UI container must set CPU and memory limits'')"

definition deploymentProblems :: "chartDeployment \<Rightarrow> goerr list" where
  "deploymentProblems d =
     problemIf (case cdReplicas d of None \<Rightarrow> False | Some n \<Rightarrow> n < 1) ''UI deployment replicas must be at least 1''
     @ (case cdContainers d of
          [c] \<Rightarrow> containerProblems c
        | cs \<Rightarrow> [Opaque (''UI deployment wants 1 container, got '' @ itoa (int (length cs)))])"

text \<open>A document is marshalled and decoded into the type it is checked as.\<close>

definition decoding ::
  "'u chartTools \<Rightarrow> string \<Rightarrow> (string \<Rightarrow> goerr + 'a) \<Rightarrow> 'u \<Rightarrow> ('a \<Rightarrow> goerr list) \<Rightarrow> goerr list" where
  "decoding t what decode doc check =
     (case tlMarshal t doc of
        Inl err \<Rightarrow> [wrapErr (''marshal '' @ what @ '': '') err]
      | Inr raw \<Rightarrow> (case decode raw of
          Inl err \<Rightarrow> [wrapErr (''decode '' @ what @ '': '') err]
        | Inr x \<Rightarrow> check x))"

definition validateUIDeployment :: "'u chartTools \<Rightarrow> 'u \<Rightarrow> goerr list" where
  "validateUIDeployment t doc = decoding t ''deployment'' (tlDeployment t) doc deploymentProblems"

definition serviceProblems :: "string \<Rightarrow> goerr list" where
  "serviceProblems ty =
     problemIf (ty \<noteq> ServiceTypeClusterIP \<and> ty \<noteq> []) (''UI service type '' @ goQuote ty @ '', want ClusterIP'')"

definition validateUIService :: "'u chartTools \<Rightarrow> 'u \<Rightarrow> goerr list" where
  "validateUIService t doc = decoding t ''service'' (tlServiceType t) doc serviceProblems"

definition crdRuleProblems :: "policyRule list \<Rightarrow> goerr list" where
  "crdRuleProblems rules =
     (case findRule rules ''mikrotik.operator.io'' of
        None \<Rightarrow> [Opaque ''UI ClusterRole missing mikrotik.operator.io rule'']
      | Some rule \<Rightarrow>
          problemIf (\<not> sameSet (puResources rule) requiredCRDs)
            (''UI CRD resources '' @ fmtList (puResources rule) @ '' want '' @ fmtList requiredCRDs)
          @ problemIf (\<not> sameSet (puVerbs rule) requiredVerbs)
              (''UI CRD verbs '' @ fmtList (puVerbs rule) @ '' want '' @ fmtList requiredVerbs)
          @ concat (map (\<lambda>r. problemIf (contains r ''/status'')
              (''UI ClusterRole must not write status subresources, found '' @ r)) (puResources rule)))"

definition coreRuleProblems :: "policyRule list \<Rightarrow> string \<Rightarrow> goerr list" where
  "coreRuleProblems rules resource =
     (case findCoreRule rules resource of
        None \<Rightarrow> [Opaque (''UI ClusterRole missing '' @ resource @ '' list'')]
      | Some rule \<Rightarrow> problemIf (\<not> sameSet (puVerbs rule) [''list''])
          (resource @ '' verbs '' @ fmtList (puVerbs rule) @ '', want [list] only''))"

definition listedResources :: "string list" where
  "listedResources = [''secrets'', ''namespaces'', ''services'', ''pods'']"

definition forbiddenResources :: "string list" where
  "forbiddenResources = [''nodes'', ''leases'', ''configmaps'', ''events'', ''pods/log'', ''pods/exec'']"

definition roleProblems :: "policyRule list \<Rightarrow> goerr list" where
  "roleProblems rules =
     crdRuleProblems rules
     @ concat (map (coreRuleProblems rules) listedResources)
     @ concat (map (\<lambda>name. problemIf (findAnyResource rules name) (''UI ClusterRole must not grant '' @ name)) forbiddenResources)"

definition validateUIClusterRole :: "'u chartTools \<Rightarrow> 'u \<Rightarrow> goerr list" where
  "validateUIClusterRole t doc = decoding t ''clusterrole'' (tlClusterRole t) doc roleProblems"

section \<open>The chart\<close>

text \<open>The map from kinds to UI documents: a later document of a kind replaces an earlier one.\<close>

definition uiByKind :: "'u chartTools \<Rightarrow> 'u list \<Rightarrow> string \<Rightarrow> 'u option" where
  "uiByKind t docs kind = find (\<lambda>d. tlKind t d = kind) (rev (filterUI t docs))"

definition requiredKinds :: "bool \<Rightarrow> string list" where
  "requiredKinds wantRBAC =
     [''Deployment'', ''Service'', ''ServiceAccount''] @ (if wantRBAC then [''ClusterRole'', ''ClusterRoleBinding''] else [])"

definition onKind :: "'u chartTools \<Rightarrow> 'u list \<Rightarrow> string \<Rightarrow> ('u \<Rightarrow> goerr list) \<Rightarrow> goerr list" where
  "onKind t docs kind check = (case uiByKind t docs kind of None \<Rightarrow> [] | Some doc \<Rightarrow> check doc)"

definition validateRendered :: "'u chartTools \<Rightarrow> 'u list \<Rightarrow> bool \<Rightarrow> bool \<Rightarrow> goerr option" where
  "validateRendered t docs wantUI wantRBAC =
     (let uiDocs = filterUI t docs; got = uiByKind t docs in
      if \<not> wantUI then
        (if uiDocs \<noteq> []
         then Some (Opaque (''ui.enabled=false but found UI resources: ''
                @ joinWith '', '' (map (\<lambda>d. tlKind t d @ ''/'' @ tlName t d) uiDocs)))
         else None)
      else errorsJoin (map Some
        (concat (map (\<lambda>kind. problemIf (got kind = None) (''missing UI '' @ kind)) (requiredKinds wantRBAC))
         @ (if wantRBAC then []
            else problemIf (got ''ClusterRole'' \<noteq> None) ''UI ClusterRole present despite rbac.create=false''
              @ problemIf (got ''ClusterRoleBinding'' \<noteq> None) ''UI ClusterRoleBinding present despite rbac.create=false'')
         @ onKind t docs ''Deployment'' (validateUIDeployment t)
         @ onKind t docs ''Service'' (validateUIService t)
         @ onKind t docs ''ClusterRole'' (validateUIClusterRole t))))"

definition validateNotes :: "string \<Rightarrow> bool \<Rightarrow> goerr option" where
  "validateNotes notes uiEnabled =
     (let lower = toLower notes in
      if \<not> contains lower ''no authentication'' then Some (Opaque ''NOTES.txt must warn that the UI has no authentication'')
      else if uiEnabled \<and> \<not> contains lower ''port-forward'' then Some (Opaque ''enabled NOTES.txt must mention port-forward'')
      else None)"

text \<open>The program: its flags, its arguments, the files it can read; the exit status and what it says.\<close>

record chartFlags =
  cfUI :: bool
  cfRBAC :: bool
  cfNotes :: string
  cfArgs :: "string list"

definition uichartMain :: "'u chartTools \<Rightarrow> (string \<Rightarrow> goerr + string) \<Rightarrow> chartFlags \<Rightarrow> int \<times> string" where
  "uichartMain t readFile flags =
     (case cfArgs flags of
        [path] \<Rightarrow>
          (case readFile path of
             Inl err \<Rightarrow> (1, ''read rendered manifests: '' @ errorText err)
           | Inr data \<Rightarrow>
          (case decodeDocs t data of
             Inl err \<Rightarrow> (1, ''parse rendered manifests: '' @ errorText err)
           | Inr docs \<Rightarrow>
          (case validateRendered t docs (cfUI flags) (cfRBAC flags) of
             Some err \<Rightarrow> (1, ''UI chart validation failed:'' @ [CHR 0x0A] @ errorText err)
           | None \<Rightarrow>
             (if cfNotes flags = [] then (0, ''UI chart validation passed'')
              else let notes = (case readFile (cfNotes flags) of Inl _ \<Rightarrow> cfNotes flags | Inr notes \<Rightarrow> notes) in
                case validateNotes notes (cfUI flags) of
                  Some err \<Rightarrow> (1, ''UI NOTES validation failed: '' @ errorText err)
                | None \<Rightarrow> (0, ''UI chart validation passed'')))))
      | _ \<Rightarrow> (2, ''usage: uichart [-ui=true] [-rbac=true] [-notes path] <rendered.yaml>''))"

section \<open>What a role grants\<close>

text \<open>The rules of RBAC: a rule allows what it lists, and \<^verbatim>\<open>*\<close> stands for everything.\<close>

definition listsIt :: "string \<Rightarrow> string list \<Rightarrow> bool" where
  "listsIt x xs \<longleftrightarrow> x \<in> set xs \<or> ''*'' \<in> set xs"

definition allows :: "policyRule list \<Rightarrow> string \<Rightarrow> string \<Rightarrow> string \<Rightarrow> bool" where
  "allows rules apiGroup resource verb \<longleftrightarrow>
     list_ex (\<lambda>r. listsIt apiGroup (puGroups r) \<and> listsIt resource (puResources r) \<and> listsIt verb (puVerbs r)) rules"

text \<open>\<^verbatim>\<open>sameSet\<close> compares multisets when nothing is wanted twice.\<close>

lemma sameSet_mset:
  assumes "distinct want"
  shows "sameSet got want \<longleftrightarrow> mset got = mset want"
proof
  assume same: "sameSet got want"
  hence sub: "set want \<subseteq> set got" and len: "length got = length want" by (auto simp: sameSet_def list_all_iff)
  have "card (set want) = length want" using assms by (simp add: distinct_card)
  moreover have "card (set want) \<le> card (set got)" using sub by (simp add: card_mono)
  moreover have "card (set got) \<le> length got" by (rule card_length)
  ultimately have eq: "card (set got) = length got" "card (set got) = card (set want)" using len by simp_all
  hence "set got = set want" "distinct got" using sub card_subset_eq[of "set got" "set want"] card_distinct by auto
  thus "mset got = mset want" using assms by (simp add: set_eq_iff_mset_eq_distinct)
next
  assume eq: "mset got = mset want"
  hence "set got = set want" "length got = length want" by (rule mset_eq_setD, rule mset_eq_length)
  thus "sameSet got want" by (simp add: sameSet_def list_all_iff)
qed

lemma problemIf_none [simp]: "problemIf b what = [] \<longleftrightarrow> \<not> b"
  by (simp add: problemIf_def)

lemma concat_none: "concat (map f xs) = [] \<longleftrightarrow> (\<forall>x\<in>set xs. f x = [])"
  by (simp add: concat_eq_Nil_conv)

lemma decoding_none:
  "decoding t what decode doc check = [] \<longleftrightarrow> (\<exists>raw x. tlMarshal t doc = Inr raw \<and> decode raw = Inr x \<and> check x = [])"
  by (auto simp: decoding_def split: sum.splits)

lemma find_member: "find P xs = Some x \<Longrightarrow> x \<in> set xs \<and> P x"
  by (auto elim!: find_SomeE)

lemma roleProblems_none:
  assumes "roleProblems rules = []"
  obtains rule where "findRule rules ''mikrotik.operator.io'' = Some rule"
    and "mset (puResources rule) = mset requiredCRDs" and "mset (puVerbs rule) = mset requiredVerbs"
    and "\<forall>resource\<in>set listedResources. \<exists>r. findCoreRule rules resource = Some r \<and> puVerbs r = [''list'']"
    and "\<forall>resource\<in>set forbiddenResources. \<not> findAnyResource rules resource"
proof -
  have none: "crdRuleProblems rules = []" "\<forall>x\<in>set listedResources. coreRuleProblems rules x = []"
    "\<forall>resource\<in>set forbiddenResources. \<not> findAnyResource rules resource"
    using assms by (simp_all add: roleProblems_def concat_none)
  from none(1) obtain rule where rule: "findRule rules ''mikrotik.operator.io'' = Some rule"
    "sameSet (puResources rule) requiredCRDs" "sameSet (puVerbs rule) requiredVerbs"
    by (cases "findRule rules ''mikrotik.operator.io''") (simp_all add: crdRuleProblems_def)
  have dist: "distinct requiredCRDs" "distinct requiredVerbs" "distinct [''list'']" by code_simp+
  have "\<forall>x\<in>set listedResources. \<exists>r. findCoreRule rules x = Some r \<and> puVerbs r = [''list'']"
  proof
    fix x assume "x \<in> set listedResources"
    with none(2) have "coreRuleProblems rules x = []" by blast
    then obtain r where r: "findCoreRule rules x = Some r" "sameSet (puVerbs r) [''list'']"
      by (cases "findCoreRule rules x") (simp_all add: coreRuleProblems_def)
    from r(2) have "mset (puVerbs r) = {#''list''#}" unfolding sameSet_mset[OF dist(3)] by simp
    with r(1) show "\<exists>r. findCoreRule rules x = Some r \<and> puVerbs r = [''list'']" by auto
  qed
  with that[OF rule(1)] rule(2,3) none(3) show ?thesis unfolding sameSet_mset[OF dist(1)] sameSet_mset[OF dist(2)] by blast
qed

lemma kindTable_required: "list_all (\<lambda>(plural, spec). plural \<in> set requiredCRDs \<and> gvkGroup (ksGVK spec) = ''mikrotik.operator.io'') kindTable"
  by code_simp


definition chartRole :: "policyRule list" where
  "chartRole = \<lparr>puGroups = [''mikrotik.operator.io''], puResources = requiredCRDs, puVerbs = requiredVerbs\<rparr>
     # map (\<lambda>r. \<lparr>puGroups = [[]], puResources = [r], puVerbs = [''list'']\<rparr>) listedResources"

text \<open>The chart's role, and one that adds rules behind the ones that are looked at.\<close>

definition greedyRole :: "policyRule list" where
  "greedyRole = chartRole @
     [\<lparr>puGroups = [[]], puResources = [''secrets''], puVerbs = [''get'', ''update'', ''delete'']\<rparr>,
      \<lparr>puGroups = [''mikrotik.operator.io''], puResources = [''mikrotikrouters/status''], puVerbs = [''update'']\<rparr>,
      \<lparr>puGroups = [''*''], puResources = [''*''], puVerbs = [''*'']\<rparr>]"

definition roleTools :: "policyRule list \<Rightarrow> unit chartTools" where
  "roleTools rules = \<lparr>tlRead = (\<lambda>_. []), tlTypeKind = (\<lambda>_. Inr []), tlObject = (\<lambda>_. Inr ()), tlKind = (\<lambda>_. ''ClusterRole''),
     tlName = (\<lambda>_. ''ui''), tlLabels = (\<lambda>_. []), tlMarshal = (\<lambda>_. Inr []), tlDeployment = (\<lambda>_. Inl (Opaque [])),
     tlServiceType = (\<lambda>_. Inr []), tlClusterRole = (\<lambda>_. Inr rules)\<rparr>"



end
