(* ===== verification/Crd_Check.thy ===== *)
theory Crd_Check
  imports RouterOS_Client
begin

text \<open>
  The check of the CustomResourceDefinitions (\<^verbatim>\<open>hack/crdvalidate/main.go\<close>), which the build runs on the
  generated files and on those of the chart.  The file system, the YAML reader and decoders, and the
  validation of the Kubernetes libraries are parameters; the program collects the files, walks the
  documents of each, and reports every problem it finds.
\<close>

section \<open>Definitions\<close>

text \<open>A version of a definition; its schema is behind two pointers.\<close>

record 's crdVersion =
  vrName :: string
  vrStorage :: bool
  vrSchema :: "'s option option"

record 's crd =
  crVersions :: "'s crdVersion list"
  crStored :: "string list"

text \<open>\<open>'x\<close> are decoded documents, \<open>'s\<close> schemas, \<open>'t\<close> structural schemas.  Walking a directory visits
  entries, files and directories, until an error.\<close>

record ('x, 's, 't) crdTools =
  kdStat :: "string \<Rightarrow> goerr + bool"
  kdWalk :: "string \<Rightarrow> (goerr + (string \<times> bool)) list"
  kdReadFile :: "string \<Rightarrow> goerr + string"
  kdRead :: "string \<Rightarrow> (goerr + string) list"
  kdTypeMeta :: "string \<Rightarrow> goerr + (string \<times> string)"
  kdStrict :: "string \<Rightarrow> goerr + 'x"
  kdName :: "'x \<Rightarrow> string"
  kdConvert :: "'x \<Rightarrow> goerr + 's crd"
  kdValidate :: "'s crd \<Rightarrow> goerr option"
  kdStructural :: "'s \<Rightarrow> goerr + 't"
  kdValidateStructural :: "string \<Rightarrow> 't \<Rightarrow> goerr option"

section \<open>One definition\<close>

definition crdError :: "string \<Rightarrow> int \<Rightarrow> string \<Rightarrow> string \<Rightarrow> goerr \<Rightarrow> goerr" where
  "crdError path document name operation e =
     wrapErr (path @ '' document '' @ itoa document @ '' CRD '' @ goQuote name @ '': '' @ operation @ '': '') e"

definition prepareStoredVersions :: "'s crd \<Rightarrow> 's crd" where
  "prepareStoredVersions c =
     (case find vrStorage (crVersions c) of None \<Rightarrow> c | Some v \<Rightarrow> c\<lparr>crStored := [vrName v]\<rparr>)"

definition schemaPath :: "nat \<Rightarrow> string" where
  "schemaPath index = ''spec.versions['' @ itoa (int index) @ ''].schema.openAPIV3Schema''"

definition versionProblems ::
  "('x, 's, 't) crdTools \<Rightarrow> string \<Rightarrow> int \<Rightarrow> string \<Rightarrow> nat \<Rightarrow> 's crdVersion \<Rightarrow> goerr list" where
  "versionProblems t path document name index version =
     (case vrSchema version of
        Some (Some schema) \<Rightarrow>
          (case kdStructural t schema of
             Inl err \<Rightarrow> [crdError path document name (''build structural schema for version '' @ vrName version) err]
           | Inr structural \<Rightarrow>
               (case kdValidateStructural t (schemaPath index) structural of
                  Some errs \<Rightarrow> [crdError path document name (''structural schema validation for version '' @ vrName version) errs]
                | None \<Rightarrow> []))
      | _ \<Rightarrow> [])"

definition validateStructuralSchemas ::
  "('x, 's, 't) crdTools \<Rightarrow> string \<Rightarrow> int \<Rightarrow> string \<Rightarrow> 's crd \<Rightarrow> goerr list" where
  "validateStructuralSchemas t path document name c =
     concat (map (\<lambda>index. versionProblems t path document name index (crVersions c ! index)) [0..<length (crVersions c)])"

definition validateCRD :: "('x, 's, 't) crdTools \<Rightarrow> string \<Rightarrow> int \<Rightarrow> 'x \<Rightarrow> goerr list" where
  "validateCRD t path document external =
     (case kdConvert t external of
        Inl err \<Rightarrow> [crdError path document (kdName t external) ''convert to Kubernetes internal CRD'' err]
      | Inr internal0 \<Rightarrow>
          (let internal = prepareStoredVersions internal0 in
           (case kdValidate t internal of
              Some errs \<Rightarrow> [crdError path document (kdName t external) ''Kubernetes CRD validation'' errs]
            | None \<Rightarrow> [])
           @ validateStructuralSchemas t path document (kdName t external) internal))"

section \<open>One file\<close>

definition documentError :: "string \<Rightarrow> int \<Rightarrow> string \<Rightarrow> goerr \<Rightarrow> goerr" where
  "documentError path document what e = wrapErr (path @ '' document '' @ itoa document @ '': '' @ what @ '': '') e"

definition wantedTypeMeta :: "string \<times> string" where
  "wantedTypeMeta = (''apiextensions.k8s.io/v1'', ''CustomResourceDefinition'')"

definition unexpectedType :: "string \<Rightarrow> int \<Rightarrow> string \<times> string \<Rightarrow> goerr" where
  "unexpectedType path document tm =
     Opaque (path @ '' document '' @ itoa document @ '': expected apiextensions.k8s.io/v1 CustomResourceDefinition, got ''
             @ fst tm @ '' '' @ snd tm)"

fun documentsFrom ::
  "('x, 's, 't) crdTools \<Rightarrow> string \<Rightarrow> int \<Rightarrow> int \<Rightarrow> goerr list \<Rightarrow> (goerr + string) list \<Rightarrow> int \<times> goerr list" where
  "documentsFrom t path document count problems [] = (count, problems)"
| "documentsFrom t path document count problems (Inl err # rest) =
     (count, problems @ [documentError path document ''parse YAML'' err])"
| "documentsFrom t path document count problems (Inr raw # rest) =
     (if trimSpace raw = [] then documentsFrom t path (document + 1) count problems rest
      else case kdTypeMeta t raw of
        Inl err \<Rightarrow> documentsFrom t path (document + 1) count
          (problems @ [documentError path document ''parse type metadata'' err]) rest
      | Inr tm \<Rightarrow>
          (if tm \<noteq> wantedTypeMeta
           then documentsFrom t path (document + 1) count (problems @ [unexpectedType path document tm]) rest
           else case kdStrict t raw of
             Inl err \<Rightarrow> documentsFrom t path (document + 1) (count + 1)
               (problems @ [documentError path document ''decode CRD strictly'' err]) rest
           | Inr external \<Rightarrow> documentsFrom t path (document + 1) (count + 1)
               (problems @ validateCRD t path document external) rest))"

definition validateFile :: "('x, 's, 't) crdTools \<Rightarrow> string \<Rightarrow> int \<times> goerr list" where
  "validateFile t path =
     (case kdReadFile t path of
        Inl err \<Rightarrow> (0, [wrapErr (''read '' @ goQuote path @ '': '') err])
      | Inr data \<Rightarrow> documentsFrom t path 1 0 [] (kdRead t data))"

section \<open>All files\<close>

text \<open>\<^verbatim>\<open>filepath.Ext\<close>: from the last dot of the last element.\<close>

definition pathExt :: "string \<Rightarrow> string" where
  "pathExt path =
     (let element = rev (takeWhile (\<lambda>c. c \<noteq> CHR ''/'') (rev path)) in
      if CHR ''.'' \<in> set element then CHR ''.'' # rev (takeWhile (\<lambda>c. c \<noteq> CHR ''.'') (rev element)) else [])"

definition isYAMLFile :: "string \<Rightarrow> bool" where
  "isYAMLFile path = (let extension = toLower (pathExt path) in extension = ''.yaml'' \<or> extension = ''.yml'')"

fun walkFiles :: "string list \<Rightarrow> (goerr + (string \<times> bool)) list \<Rightarrow> goerr + string list" where
  "walkFiles files [] = Inr files"
| "walkFiles files (Inl walkErr # rest) = Inl walkErr"
| "walkFiles files (Inr (candidate, isDir) # rest) =
     (if isDir \<or> \<not> isYAMLFile candidate then walkFiles files rest else walkFiles (files @ [candidate]) rest)"

fun collectFrom :: "('x, 's, 't) crdTools \<Rightarrow> string list \<Rightarrow> string list \<Rightarrow> goerr + string list" where
  "collectFrom t files [] = Inr files"
| "collectFrom t files (path # paths) =
     (case kdStat t path of
        Inl err \<Rightarrow> Inl (wrapErr (''inspect '' @ goQuote path @ '': '') err)
      | Inr isDir \<Rightarrow>
          (if \<not> isDir then collectFrom t (files @ [path]) paths
           else case walkFiles files (kdWalk t path) of
             Inl err \<Rightarrow> Inl (wrapErr (''walk '' @ goQuote path @ '': '') err)
           | Inr files' \<Rightarrow> collectFrom t files' paths))"

definition collectYAMLFiles :: "('x, 's, 't) crdTools \<Rightarrow> string list \<Rightarrow> goerr + string list" where
  "collectYAMLFiles t paths = map_sum id sort (collectFrom t [] paths)"

definition validatePaths :: "('x, 's, 't) crdTools \<Rightarrow> string list \<Rightarrow> int \<times> goerr option" where
  "validatePaths t paths =
     (case collectYAMLFiles t paths of
        Inl err \<Rightarrow> (0, Some err)
      | Inr files \<Rightarrow>
          (let results = map (validateFile t) files;
               count = sum_list (map fst results);
               problems = concat (map snd results)
                 @ (if count = 0 then [Opaque ''no CustomResourceDefinition documents found''] else [])
           in (count, errorsJoin (map Some problems))))"

text \<open>The program: the arguments without its name, the exit status and what it says.\<close>

definition crdvalidateMain :: "('x, 's, 't) crdTools \<Rightarrow> string list \<Rightarrow> int \<times> string" where
  "crdvalidateMain t args =
     (if args = [] then (2, ''usage: crdvalidate <file-or-directory> [...]'')
      else case validatePaths t args of
        (count, Some err) \<Rightarrow> (1, ''CRD validation failed:'' @ [CHR 0x0A] @ errorText err)
      | (count, None) \<Rightarrow> (0, ''validated '' @ itoa count @ '' CustomResourceDefinition document(s)''))"

section \<open>What it accepts\<close>

text \<open>A version with a schema has a structural one that is valid at its place.\<close>

definition validVersion :: "('x, 's, 't) crdTools \<Rightarrow> nat \<Rightarrow> 's crdVersion \<Rightarrow> bool" where
  "validVersion t index v \<longleftrightarrow>
     (\<forall>schema. vrSchema v = Some (Some schema) \<longrightarrow>
        (\<exists>st. kdStructural t schema = Inr st \<and> kdValidateStructural t (schemaPath index) st = None))"

text \<open>A document that is a valid definition.\<close>

definition validDocument :: "('x, 's, 't) crdTools \<Rightarrow> string \<Rightarrow> bool" where
  "validDocument t raw \<longleftrightarrow> kdTypeMeta t raw = Inr wantedTypeMeta \<and>
     (\<exists>x c. kdStrict t raw = Inr x \<and> kdConvert t x = Inr c \<and> kdValidate t (prepareStoredVersions c) = None \<and>
        (\<forall>i<length (crVersions c). validVersion t i (crVersions c ! i)))"

definition blank :: "string \<Rightarrow> bool" where
  "blank raw \<longleftrightarrow> trimSpace raw = []"

text \<open>The documents of a file that can be read to its end.\<close>

definition fileDocuments :: "('x, 's, 't) crdTools \<Rightarrow> string \<Rightarrow> string list option" where
  "fileDocuments t path =
     (case kdReadFile t path of
        Inl err \<Rightarrow> None
      | Inr data \<Rightarrow>
          (if list_ex isl (kdRead t data) then None
           else Some (filter (\<lambda>raw. \<not> blank raw) (map projr (kdRead t data)))))"

lemma versionProblems_none: "versionProblems t path document name index v = [] \<longleftrightarrow> validVersion t index v"
  by (auto simp: versionProblems_def validVersion_def split: option.split sum.split)

lemma validateStructuralSchemas_none:
  "validateStructuralSchemas t path document name c = [] \<longleftrightarrow>
     (\<forall>i<length (crVersions c). validVersion t i (crVersions c ! i))"
  by (auto simp: validateStructuralSchemas_def concat_eq_Nil_conv versionProblems_none)

lemma prepareStoredVersions_versions [simp]: "crVersions (prepareStoredVersions c) = crVersions c"
  by (simp add: prepareStoredVersions_def split: option.split)

lemma validateCRD_none:
  "validateCRD t path document x = [] \<longleftrightarrow>
     (\<exists>c. kdConvert t x = Inr c \<and> kdValidate t (prepareStoredVersions c) = None \<and>
        (\<forall>i<length (crVersions c). validVersion t i (crVersions c ! i)))"
  by (auto simp: validateCRD_def Let_def validateStructuralSchemas_none split: sum.split option.split)

lemma documentsFrom_none:
  "documentsFrom t path d c problems xs = (n, []) \<longleftrightarrow>
     problems = [] \<and> \<not> list_ex isl xs \<and> (\<forall>raw\<in>set (filter (\<lambda>raw. \<not> blank raw) (map projr xs)). validDocument t raw) \<and>
     n = c + int (length (filter (\<lambda>raw. \<not> blank raw) (map projr xs)))"
proof (induction t path d c problems xs rule: documentsFrom.induct)
  case (3 t path d c problems raw rest)
  show ?case
  proof (cases "blank raw")
    case True
    with 3(1) show ?thesis by (simp add: blank_def)
  next
    case False
    hence nb: "trimSpace raw \<noteq> []" by (simp add: blank_def)
    show ?thesis
    proof (cases "kdTypeMeta t raw")
      case (Inl e)
      with 3(2)[OF nb Inl] nb False show ?thesis by (auto simp: validDocument_def)
    next
      case (Inr tm)
      show ?thesis
      proof (cases "tm = wantedTypeMeta")
        case False
        with 3(3)[OF nb Inr False] nb \<open>\<not> blank raw\<close> Inr show ?thesis by (auto simp: validDocument_def)
      next
        case True
        show ?thesis
        proof (cases "kdStrict t raw")
          case (Inl e)
          with 3(4)[OF nb Inr _ Inl] True nb \<open>\<not> blank raw\<close> Inr show ?thesis by (auto simp: validDocument_def)
        next
          case x: (Inr x)
          have "validDocument t raw \<longleftrightarrow> validateCRD t path d x = []"
            using Inr True x by (simp add: validDocument_def validateCRD_none)
          with 3(5)[OF nb Inr _ x] True nb \<open>\<not> blank raw\<close> Inr x show ?thesis by auto
        qed
      qed
    qed
  qed
qed auto

lemma validateFile_none:
  "validateFile t path = (n, []) \<longleftrightarrow>
     (\<exists>docs. fileDocuments t path = Some docs \<and> list_all (validDocument t) docs \<and> n = int (length docs))"
  by (auto simp: validateFile_def fileDocuments_def documentsFrom_none list_all_iff split: sum.split)

lemma errorsJoin_Some: "errorsJoin (map Some es) = None \<longleftrightarrow> es = []"
  by (cases es) (simp_all add: errorsJoin_def Let_def)

text \<open>The files that are found, and the number of documents in them.\<close>

definition documentCount :: "('x, 's, 't) crdTools \<Rightarrow> string list \<Rightarrow> int" where
  "documentCount t files = (\<Sum>path\<leftarrow>files. int (length (case fileDocuments t path of None \<Rightarrow> [] | Some docs \<Rightarrow> docs)))"

lemma validateFiles_none:
  "concat (map (\<lambda>path. snd (validateFile t path)) files) = [] \<longleftrightarrow>
     list_all (\<lambda>path. \<exists>docs. fileDocuments t path = Some docs \<and> list_all (validDocument t) docs) files"
proof -
  have "snd (validateFile t path) = [] \<longleftrightarrow> (\<exists>docs. fileDocuments t path = Some docs \<and> list_all (validDocument t) docs)" for path
    using validateFile_none[of t path "fst (validateFile t path)"] validateFile_none[of t path] by (metis prod.collapse snd_conv)
  thus ?thesis by (auto simp: concat_eq_Nil_conv list_all_iff)
qed

lemma validateFiles_count:
  assumes "list_all (\<lambda>path. \<exists>docs. fileDocuments t path = Some docs \<and> list_all (validDocument t) docs) files"
  shows "sum_list (map (\<lambda>path. fst (validateFile t path)) files) = documentCount t files"
proof -
  have "fst (validateFile t path) = int (length (case fileDocuments t path of None \<Rightarrow> [] | Some docs \<Rightarrow> docs))"
    if "path \<in> set files" for path
  proof -
    from assms that obtain docs where "fileDocuments t path = Some docs" "list_all (validDocument t) docs"
      by (auto simp: list_all_iff)
    moreover from this have "validateFile t path = (int (length docs), [])" by (simp add: validateFile_none)
    ultimately show ?thesis by simp
  qed
  thus ?thesis unfolding documentCount_def by (metis (no_types, lifting) map_cong)
qed

text \<open>
  C37.  The check accepts exactly the valid definitions.  It exits with success when every path can be
  inspected and walked, every file that was found can be read to its end, every document of a file that
  is not blank is a CustomResourceDefinition that Kubernetes accepts with structural schemas in every
  version, and there is at least one; it then reports how many there are.
\<close>

theorem crdvalidate_exact:
  "fst (crdvalidateMain t args) = 0 \<longleftrightarrow> args \<noteq> [] \<and>
     (\<exists>files. collectYAMLFiles t args = Inr files \<and> sorted files \<and>
        list_all (\<lambda>path. \<exists>docs. fileDocuments t path = Some docs \<and> list_all (validDocument t) docs) files \<and>
        documentCount t files > 0 \<and>
        snd (crdvalidateMain t args) = ''validated '' @ itoa (documentCount t files) @ '' CustomResourceDefinition document(s)'')"
  (is "?ok \<longleftrightarrow> ?spec")
proof (cases "args = [] \<or> isl (collectYAMLFiles t args)")
  case True
  thus ?thesis by (cases "collectYAMLFiles t args") (auto simp: crdvalidateMain_def validatePaths_def)
next
  case False
  then obtain files where files: "collectYAMLFiles t args = Inr files" and args: "args \<noteq> []"
    by (cases "collectYAMLFiles t args") auto
  let ?valid = "list_all (\<lambda>path. \<exists>docs. fileDocuments t path = Some docs \<and> list_all (validDocument t) docs) files"
  let ?count = "sum_list (map (\<lambda>path. fst (validateFile t path)) files)"
  have srt: "sorted files" using files by (auto simp: collectYAMLFiles_def map_sum_def split: sum.splits)
  have nonneg: "0 \<le> documentCount t files" unfolding documentCount_def by (intro sum_list_nonneg) auto
  have out: "validatePaths t args = (?count, errorsJoin (map Some (concat (map (\<lambda>path. snd (validateFile t path)) files)
      @ (if ?count = 0 then [Opaque ''no CustomResourceDefinition documents found''] else []))))"
    using files by (simp add: validatePaths_def Let_def comp_def)
  show ?thesis
  proof (cases "?valid \<and> ?count \<noteq> 0")
    case True
    hence none: "concat (map (\<lambda>path. snd (validateFile t path)) files) = []"
      using validateFiles_none[of t files] by blast
    have count: "?count = documentCount t files" using True validateFiles_count by blast
    have "validatePaths t args = (documentCount t files, None)"
      unfolding out none count using True count by (simp add: errorsJoin_def)
    with True count args files srt nonneg show ?thesis by (simp add: crdvalidateMain_def)
  next
    case False
    let ?found = "concat (map (\<lambda>path. snd (validateFile t path)) files)
      @ (if ?count = 0 then [Opaque ''no CustomResourceDefinition documents found''] else [])"
    have "?found \<noteq> []"
    proof (cases "?count = 0")
      case False
      with \<open>\<not> (?valid \<and> ?count \<noteq> 0)\<close> have "\<not> ?valid" by blast
      thus ?thesis unfolding validateFiles_none[symmetric] by simp
    qed simp
    hence "errorsJoin (map Some ?found) \<noteq> None" unfolding errorsJoin_Some .
    then obtain err where "validatePaths t args = (?count, Some err)" unfolding out by blast
    hence "\<not> ?ok" using args by (simp add: crdvalidateMain_def)
    moreover have "\<not> ?spec" using False files validateFiles_count[of t files] by auto
    ultimately show ?thesis by blast
  qed
qed

end
