(* ===== verification/Ui_E2E.thy ===== *)
theory Ui_E2E
  imports Ui_Api
begin

text \<open>
  The end-to-end check of the admin UI (\<^verbatim>\<open>hack/e2e-ui/verify.go\<close>): a client that waits for the backend,
  walks through its API and stops at the first answer that is not the expected one.  The HTTP client, the
  JSON decoder, the clock and the environment variables are parameters; \<open>JOther\<close> stands for the JSON
  values the program only prints.  The wait is the one loop of the program whose end depends on the clock.
\<close>

section \<open>What the program uses\<close>

datatype json = JString string | JArray "json list" | JObject "(string \<times> json) list" | JOther string

record httpResponse =
  hpStatus :: int
  hpRead :: "goerr + string"
  hpClose :: "goerr option"

record httpResult =
  rsStatus :: int
  rsBody :: string

text \<open>Times are in milliseconds.\<close>

record 'w e2eTools =
  etGetenv :: "string \<Rightarrow> string"
  etNewRequest :: "string \<Rightarrow> string \<Rightarrow> goerr option"
  etDo :: "string \<Rightarrow> string \<Rightarrow> string option \<Rightarrow> ('w, httpResponse) prog"
  etDecode :: "string \<Rightarrow> goerr + (string \<times> json) list"
  etNow :: "'w \<Rightarrow> int"
  etSleep :: "int \<Rightarrow> 'w \<Rightarrow> 'w"
  etShow :: "json option \<Rightarrow> string"
  etTypeName :: "json option \<Rightarrow> string"

definition envOr :: "'w e2eTools \<Rightarrow> string \<Rightarrow> string \<Rightarrow> string" where
  "envOr t name fallback = (if etGetenv t name \<noteq> [] then etGetenv t name else fallback)"

definition truncateTo :: "string \<Rightarrow> nat \<Rightarrow> string" where
  "truncateTo s n = (if length s \<le> n then s else take n s)"

section \<open>Requests\<close>

text \<open>The response is closed last; closing fails the call only when nothing else has.\<close>

definition doRequest :: "'w e2eTools \<Rightarrow> string \<Rightarrow> string \<Rightarrow> string option \<Rightarrow> ('w, httpResult) prog" where
  "doRequest t method url body =
     (case etNewRequest t method url of
        Some err \<Rightarrow> failE err
      | None \<Rightarrow> bindE (etDo t method url body) (\<lambda>res.
          case hpRead res of
            Inl err \<Rightarrow> failE err
          | Inr data \<Rightarrow> (case hpClose res of
              Some closeErr \<Rightarrow> failE (wrapErr ''close response body: '' closeErr)
            | None \<Rightarrow> returnE \<lparr>rsStatus = hpStatus res, rsBody = data\<rparr>)))"

definition statusErr :: "string \<Rightarrow> string \<Rightarrow> httpResult \<Rightarrow> int \<Rightarrow> goerr" where
  "statusErr method url got status =
     Opaque (method @ '' '' @ url @ '' status '' @ itoa (rsStatus got) @ '' want '' @ itoa status @ '' body '' @ rsBody got)"

definition assertPlain :: "'w e2eTools \<Rightarrow> string \<Rightarrow> string \<Rightarrow> int \<Rightarrow> string \<Rightarrow> ('w, unit) prog" where
  "assertPlain t method url status body =
     bindE (doRequest t method url None) (\<lambda>got.
       if rsStatus got \<noteq> status then failE (statusErr method url got status)
       else if body \<noteq> [] \<and> trimSpace (rsBody got) \<noteq> body
       then failE (Opaque (method @ '' '' @ url @ '' body '' @ goQuote (rsBody got) @ '' want '' @ goQuote body))
       else returnE ())"

definition assertJSONStatus :: "'w e2eTools \<Rightarrow> string \<Rightarrow> string \<Rightarrow> int \<Rightarrow> string option \<Rightarrow> ('w, unit) prog" where
  "assertJSONStatus t method url status body =
     bindE (doRequest t method url body) (\<lambda>got.
       if rsStatus got \<noteq> status then failE (statusErr method url got status) else returnE ())"

definition getRaw :: "'w e2eTools \<Rightarrow> string \<Rightarrow> ('w, (string \<times> json) list \<times> int \<times> string) prog" where
  "getRaw t url =
     bindE (doRequest t ''GET'' url None) (\<lambda>got.
       case etDecode t (rsBody got) of
         Inl err \<Rightarrow> failE (Wrapped (''decode '' @ url @ '': '' @ errorText err @ '' body='' @ rsBody got) [err])
       | Inr obj \<Rightarrow> returnE (obj, rsStatus got, rsBody got))"

definition getJSON :: "'w e2eTools \<Rightarrow> string \<Rightarrow> ('w, (string \<times> json) list) prog" where
  "getJSON t url =
     bindE (getRaw t url) (\<lambda>(obj, status, raw).
       if status \<noteq> 200 then failE (Opaque (''GET '' @ url @ '' status '' @ itoa status @ '' body '' @ raw)) else returnE obj)"

definition jsonNamesContain :: "json option \<Rightarrow> string \<Rightarrow> bool" where
  "jsonNamesContain items name =
     (case items of
        Some (JArray xs) \<Rightarrow> list_ex (\<lambda>item. case item of
            JString v \<Rightarrow> v = name | JObject v \<Rightarrow> map_of v ''name'' = Some (JString name) | _ \<Rightarrow> False) xs
      | _ \<Rightarrow> False)"

definition asMap :: "'w e2eTools \<Rightarrow> json option \<Rightarrow> goerr + (string \<times> json) list" where
  "asMap t v = (case v of Some (JObject m) \<Rightarrow> Inr m | _ \<Rightarrow> Inl (Opaque (''expected object, got '' @ etTypeName t v)))"

section \<open>The wait\<close>

definition waitErr :: "string \<Rightarrow> goerr option \<Rightarrow> goerr" where
  "waitErr url prev =
     (case prev of None \<Rightarrow> Wrapped (''wait for '' @ url @ '': %!w(<nil>)'') []
      | Some err \<Rightarrow> wrapErr (''wait for '' @ url @ '': '') err)"

partial_function (option) waitLoop ::
  "'w e2eTools \<Rightarrow> string \<Rightarrow> string \<Rightarrow> int \<Rightarrow> goerr option \<Rightarrow> 'w \<Rightarrow> ((goerr + unit) \<times> 'w) option" where
  "waitLoop t url body deadline prev w =
     (if etNow t w < deadline then
        (case assertPlain t ''GET'' url 200 body w of
           (Inr _, w') \<Rightarrow> Some (Inr (), w')
         | (Inl err, w') \<Rightarrow> waitLoop t url body deadline (Some err) (etSleep t 500 w'))
      else Some (Inl (waitErr url prev), w))"

definition waitPlain :: "'w e2eTools \<Rightarrow> string \<Rightarrow> string \<Rightarrow> int \<Rightarrow> 'w \<Rightarrow> ((goerr + unit) \<times> 'w) option" where
  "waitPlain t url body timeout w = waitLoop t url body (etNow t w + timeout) None w"

text \<open>The same wait with a number of attempts it may make.\<close>

fun waitAttempts ::
  "nat \<Rightarrow> 'w e2eTools \<Rightarrow> string \<Rightarrow> string \<Rightarrow> int \<Rightarrow> goerr option \<Rightarrow> 'w \<Rightarrow> ((goerr + unit) \<times> 'w) option" where
  "waitAttempts n t url body deadline prev w =
     (if etNow t w < deadline then
        (case n of
           0 \<Rightarrow> None
         | Suc k \<Rightarrow>
             (case assertPlain t ''GET'' url 200 body w of
                (Inr _, w') \<Rightarrow> Some (Inr (), w')
              | (Inl err, w') \<Rightarrow> waitAttempts k t url body deadline (Some err) (etSleep t 500 w')))
      else Some (Inl (waitErr url prev), w))"

declare waitAttempts.simps [simp del]

section \<open>The script\<close>

record e2eResource =
  reKind :: string
  reName :: string
  reBody :: string

text \<open>A line break of a raw string, with the tabs that follow it.\<close>

definition newLine :: "nat \<Rightarrow> string" where
  "newLine tabs = CHR 0x0A # replicate tabs (CHR 0x09)"

definition rawBody :: "string list \<Rightarrow> string" where
  "rawBody parts = ''{'' @ concat (map (\<lambda>part. newLine 4 @ part) parts) @ newLine 3 @ ''}''"

definition e2eResources :: "e2eResource list" where
  \<open>e2eResources =
     [\<lparr>reKind = ''mikrotikrouters'', reName = ''ui-edge'', reBody = rawBody
         [''"apiVersion":"mikrotik.operator.io/v1alpha1",'', ''"kind":"MikroTikRouter",'', ''"metadata":{"name":"ui-edge"},'',
          ''"spec":{"address":"192.0.2.10","credentialsSecret":{"name":"router-creds"}}'']\<rparr>,
      \<lparr>reKind = ''mikrotikdnsrecords'', reName = ''ui-dns'', reBody = rawBody
         [''"metadata":{"name":"ui-dns"},'', ''"spec":{"name":"ui.e2e.home.arpa","address":"10.99.0.20","routerRef":"ui-edge"}'']\<rparr>,
      \<lparr>reKind = ''mikrotikroutes'', reName = ''ui-route'', reBody = rawBody
         [''"metadata":{"name":"ui-route"},'',
          ''"spec":{"destination":"10.99.0.0/24","gateway":"192.0.2.1","routerRef":"ui-edge"}'']\<rparr>,
      \<lparr>reKind = ''mikrotikportforwards'', reName = ''ui-fwd'', reBody = rawBody
         [''"metadata":{"name":"ui-fwd"},'',
          ''"spec":{"routerRef":"ui-edge","protocol":"tcp","externalPort":8443,"targetPort":443,"targetAddress":"10.99.0.20"}'']\<rparr>,
      \<lparr>reKind = ''mikrotikfirewallrules'', reName = ''ui-fw'', reBody = rawBody
         [''"metadata":{"name":"ui-fw"},'',
          ''"spec":{"routerRef":"ui-edge","chain":"forward","action":"accept","protocol":"tcp","destinationPort":"443"}'']\<rparr>]\<close>

definition ownedUpdate :: string where
  \<open>ownedUpdate = ''{'' @ newLine 2 @ ''"metadata":{"name":"owned-dns"},''
     @ newLine 2 @ ''"spec":{"name":"changed.e2e.home.arpa","address":"10.99.0.8"}'' @ newLine 1 @ ''}''\<close>

definition leaks :: "string list" where
  \<open>leaks = [''super-secret-e2e'', ''"data"'', ''"stringData"'']\<close>

text \<open>A check that fails with a text.\<close>

definition require :: "bool \<Rightarrow> string \<Rightarrow> ('w, unit) prog" where
  "require ok what = (if ok then returnE () else failE (Opaque what))"

definition checkIndex :: "'w e2eTools \<Rightarrow> string \<Rightarrow> string \<Rightarrow> ('w, unit) prog" where
  \<open>checkIndex t base ns =
     bindE (doRequest t ''GET'' (base @ ''/'') None) (\<lambda>index.
     bindE (require (rsStatus index = 200) (''GET / status '' @ itoa (rsStatus index))) (\<lambda>_.
     bindE (require (contains (toLower (rsBody index)) ''<!doctype html'' \<or> contains (rsBody index) ''<div id="root"'')
              (''GET / did not look like the SPA: '' @ truncateTo (rsBody index) 200)) (\<lambda>_.
     bindE (doRequest t ''GET'' (base @ ''/routers/'' @ ns @ ''/missing'') None) (\<lambda>fallback.
       require (rsStatus fallback = 200) (''SPA fallback status '' @ itoa (rsStatus fallback))))))\<close>

definition checkOverview :: "'w e2eTools \<Rightarrow> string \<Rightarrow> string \<Rightarrow> ('w, unit) prog" where
  "checkOverview t base ns =
     (let operatorNS = envOr t ''E2E_UI_OPERATOR_NAMESPACE'' ''mikrotik-operator-system'' in
     bindE (getJSON t (base @ ''/api/config'')) (\<lambda>cfg.
     bindE (require (map_of cfg ''namespace'' = Some (JString operatorNS))
              (''config namespace '' @ etShow t (map_of cfg ''namespace'') @ '' want '' @ operatorNS)) (\<lambda>_.
     bindE (getJSON t (base @ ''/api/overview'')) (\<lambda>overview.
     bindE (case map_of overview ''kinds'' of
              Some (JArray kinds) \<Rightarrow> require (length kinds = 5) (''overview kinds='' @ itoa (int (length kinds)) @ '' want 5'')
            | other \<Rightarrow> failE (Opaque (''overview kinds is '' @ etTypeName t other @ '', want array''))) (\<lambda>_.
     bindE (getJSON t (base @ ''/api/namespaces'')) (\<lambda>namespaces.
       require (jsonNamesContain (map_of namespaces ''items'') ns)
         (''namespaces missing '' @ ns @ '': '' @ etShow t (map_of namespaces ''items''))))))))"

definition checkSecrets :: "'w e2eTools \<Rightarrow> string \<Rightarrow> string \<Rightarrow> ('w, unit) prog" where
  "checkSecrets t base ns =
     bindE (getRaw t (base @ ''/api/secrets/'' @ ns)) (\<lambda>(secrets, status, raw).
     bindE (require (status = 200) (''secrets status '' @ itoa status @ '' body '' @ raw)) (\<lambda>_.
     bindE (forE (\<lambda>leak. require (\<not> contains raw leak) (''secret payload leaked '' @ goQuote leak @ '' in '' @ raw)) leaks) (\<lambda>_.
       require (jsonNamesContain (map_of secrets ''items'') ''router-creds'') (''secrets missing router-creds: '' @ raw))))"

definition resourceURL :: "string \<Rightarrow> string \<Rightarrow> string \<Rightarrow> string" where
  "resourceURL base kind ns = base @ ''/api/resources/'' @ kind @ ''/'' @ ns"

definition checkResource :: "'w e2eTools \<Rightarrow> string \<Rightarrow> string \<Rightarrow> e2eResource \<Rightarrow> ('w, unit) prog" where
  "checkResource t base ns resource =
     (let kind = reKind resource in
     bindE (doRequest t ''POST'' (resourceURL base kind ns) (Some (reBody resource))) (\<lambda>create.
     bindE (require (rsStatus create = 201)
              (''create '' @ kind @ '': '' @ itoa (rsStatus create) @ '' '' @ rsBody create)) (\<lambda>_.
     bindE (getJSON t (resourceURL base kind ns @ ''/'' @ reName resource)) (\<lambda>got.
     case asMap t (map_of got ''metadata'') of
       Inl err \<Rightarrow> failE (wrapErr (''get '' @ kind @ '' metadata: '') err)
     | Inr m \<Rightarrow>
         bindE (require (map_of m ''name'' = Some (JString (reName resource)) \<and> map_of m ''namespace'' = Some (JString ns))
                  (''get '' @ kind @ '' metadata '' @ etShow t (Some (JObject m)))) (\<lambda>_.
           require (map_of got ''managedBy'' = None) (''standalone '' @ kind @ '' should omit managedBy''))))))"

definition checkOwned :: "'w e2eTools \<Rightarrow> string \<Rightarrow> string \<Rightarrow> ('w, unit) prog" where
  "checkOwned t base ns =
     (let url = resourceURL base ''mikrotikdnsrecords'' ns @ ''/owned-dns'' in
     bindE (getJSON t url) (\<lambda>owned.
     case asMap t (map_of owned ''managedBy'') of
       Inl err \<Rightarrow> failE (wrapErr ''owned managedBy: '' err)
     | Inr m \<Rightarrow>
         bindE (require (map_of m ''kind'' = Some (JString ''Service'') \<and> map_of m ''name'' = Some (JString ''web''))
                  (''owned managedBy '' @ etShow t (Some (JObject m)))) (\<lambda>_.
         bindE (doRequest t ''PUT'' url (Some ownedUpdate)) (\<lambda>putOwned.
         bindE (require (rsStatus putOwned = 409) (''put owned: '' @ itoa (rsStatus putOwned) @ '' '' @ rsBody putOwned)) (\<lambda>_.
         bindE (require (contains (rsBody putOwned) ''Service/web'') (''owned conflict body '' @ rsBody putOwned)) (\<lambda>_.
         bindE (doRequest t ''DELETE'' url None) (\<lambda>delOwned.
           require (rsStatus delOwned = 409) (''delete owned: '' @ itoa (rsStatus delOwned) @ '' '' @ rsBody delOwned))))))))"

definition checkDelete :: "'w e2eTools \<Rightarrow> string \<Rightarrow> string \<Rightarrow> ('w, unit) prog" where
  "checkDelete t base ns =
     bindE (doRequest t ''DELETE'' (resourceURL base ''mikrotikfirewallrules'' ns @ ''/ui-fw'') None) (\<lambda>del.
       require (rsStatus del = 204) (''delete standalone: '' @ itoa (rsStatus del) @ '' '' @ rsBody del))"

text \<open>What follows the wait, in the order of the program.\<close>

definition checkBackend :: "'w e2eTools \<Rightarrow> string \<Rightarrow> string \<Rightarrow> ('w, unit) prog" where
  "checkBackend t base ns =
     bindE (assertPlain t ''GET'' (base @ ''/readyz'') 200 ''ok'') (\<lambda>_.
     bindE (checkIndex t base ns) (\<lambda>_.
     bindE (assertJSONStatus t ''GET'' (base @ ''/api/nope'') 404 None) (\<lambda>_.
     bindE (assertJSONStatus t ''GET'' (base @ ''/api/resources/pods'') 400 None) (\<lambda>_.
     bindE (checkOverview t base ns) (\<lambda>_.
     bindE (checkSecrets t base ns) (\<lambda>_.
     bindE (forE (checkResource t base ns) e2eResources) (\<lambda>_.
     bindE (checkOwned t base ns) (\<lambda>_.
       checkDelete t base ns))))))))"

definition runE2E :: "'w e2eTools \<Rightarrow> 'w \<Rightarrow> ((goerr + unit) \<times> 'w) option" where
  "runE2E t w =
     (let base = envOr t ''E2E_UI_BASE_URL'' ''http://127.0.0.1:18080''; ns = envOr t ''E2E_UI_NAMESPACE'' ''e2e-ui'' in
      case waitPlain t (base @ ''/healthz'') ''ok'' 30000 w of
        None \<Rightarrow> None
      | Some (Inl err, w') \<Rightarrow> Some (Inl err, w')
      | Some (Inr _, w') \<Rightarrow> Some (checkBackend t base ns w'))"

text \<open>The exit status and what is printed.\<close>

definition e2eMain :: "'w e2eTools \<Rightarrow> 'w \<Rightarrow> (int \<times> string) option" where
  "e2eMain t w =
     map_option (\<lambda>(r, _). case r of
         Inl err \<Rightarrow> (1, ''UI E2E verification failed: '' @ errorText err)
       | Inr _ \<Rightarrow> (0, ''Admin UI E2E verification passed'')) (runE2E t w)"

section \<open>The wait ends\<close>

text \<open>A clock that requests do not turn back and that sleeping moves on.\<close>

definition clockRuns :: "'w e2eTools \<Rightarrow> bool" where
  "clockRuns t \<longleftrightarrow> (\<forall>w. etNow t w + 500 \<le> etNow t (etSleep t 500 w)) \<and>
     (\<forall>m u b w. etNow t w \<le> etNow t (snd (etDo t m u b w)))"

lemma assertPlain_clock:
  assumes "clockRuns t"
  shows "etNow t w \<le> etNow t (snd (assertPlain t m u s b w))"
proof -
  have "etNow t w \<le> etNow t (snd (etDo t m u None w))" using assms by (simp add: clockRuns_def)
  thus ?thesis
    by (auto simp: assertPlain_def doRequest_def bindE_def returnE_def failE_def split: option.split prod.split sum.split)
qed

lemma waitLoop_attempts:
  assumes "clockRuns t" and "deadline - etNow t w \<le> 500 * int n"
  shows "waitLoop t url body deadline prev w = waitAttempts n t url body deadline prev w \<and>
    waitAttempts n t url body deadline prev w \<noteq> None"
  using assms(2)
proof (induction n arbitrary: prev w)
  case 0
  thus ?case by (subst waitLoop.simps, subst waitAttempts.simps) (simp add: waitAttempts.simps)
next
  case (Suc n)
  obtain r w' where r: "assertPlain t ''GET'' url 200 body w = (r, w')" by (meson surj_pair)
  have "etNow t w \<le> etNow t w'" using assertPlain_clock[OF assms(1), of w "''GET''" url 200 body] r by simp
  moreover have "etNow t w' + 500 \<le> etNow t (etSleep t 500 w')" using assms(1) by (simp add: clockRuns_def)
  ultimately have "deadline - etNow t (etSleep t 500 w') \<le> 500 * int n" using Suc.prems by simp
  from Suc.IH[OF this] show ?case
    by (subst waitLoop.simps, subst (1 2) waitAttempts.simps) (simp add: r split: sum.split)
qed

lemma wait_thirty_seconds:
  assumes "clockRuns t"
  shows "waitPlain t url body 30000 w = waitAttempts 60 t url body (etNow t w + 30000) None w"
    and "waitPlain t url body 30000 w \<noteq> None"
  using waitLoop_attempts[OF assms, where n = 60 and deadline = "etNow t w + 30000"] unfolding waitPlain_def by auto

text \<open>
  C40.  The check ends.  With a clock that runs, the program exits with 0 or 1 whatever the backend does:
  its wait of thirty seconds returns when the backend answers, or after at most sixty attempts with the
  error of the last one.
\<close>

theorem e2e_ends:
  assumes "clockRuns t"
  shows "waitPlain t url body 30000 w = waitAttempts 60 t url body (etNow t w + 30000) None w \<and>
    waitPlain t url body 30000 w \<noteq> None \<and>
    (\<exists>status message. e2eMain t w = Some (status, message) \<and> (status = 0 \<or> status = 1))"
proof -
  have "\<exists>r w'. runE2E t w = Some (r, w')"
    using wait_thirty_seconds(2)[OF assms] by (auto simp: runE2E_def Let_def split: option.split sum.split prod.split)
  then obtain r w' where "runE2E t w = Some (r, w')" by blast
  hence "\<exists>status message. e2eMain t w = Some (status, message) \<and> (status = 0 \<or> status = 1)"
    by (cases r) (simp_all add: e2eMain_def)
  with wait_thirty_seconds[OF assms] show ?thesis by blast
qed

text \<open>A backend that refuses connections, and a clock that only sleeping moves: sixty attempts.\<close>

definition refusingTools :: "(int \<times> int) e2eTools" where
  "refusingTools = \<lparr>etGetenv = (\<lambda>_. []), etNewRequest = (\<lambda>_ _. None),
     etDo = (\<lambda>m u b (now, n). (Inl (Opaque ''connection refused''), (now, n + 1))), etDecode = (\<lambda>_. Inr []),
     etNow = fst, etSleep = (\<lambda>d (now, n). (now + d, n)), etShow = (\<lambda>_. []), etTypeName = (\<lambda>_. [])\<rparr>"

theorem e2e_ends_witness:
  "waitPlain refusingTools ''/healthz'' ''ok'' 30000 (0, 0)
     = Some (Inl (wrapErr ''wait for /healthz: '' (Opaque ''connection refused'')), (30000, 60))"
proof -
  have "clockRuns refusingTools" by (auto simp: clockRuns_def refusingTools_def)
  from e2e_ends[OF this, of "''/healthz''" "''ok''" "(0, 0)"]
  have "waitPlain refusingTools ''/healthz'' ''ok'' 30000 (0, 0)
      = waitAttempts 60 refusingTools ''/healthz'' ''ok'' (etNow refusingTools (0, 0) + 30000) None (0, 0)" by blast
  also have "\<dots> = Some (Inl (wrapErr ''wait for /healthz: '' (Opaque ''connection refused'')), (30000, 60))" by code_simp
  finally show ?thesis .
qed

end
