(* ===== verification/Operation_Interrupt.thy ===== *)
theory Operation_Interrupt
  imports Client_Session
begin

text \<open>
  One operation under its deadline (\<^verbatim>\<open>runRouterOSOperation\<close> in \<^verbatim>\<open>client.go\<close>) with the goroutine that
  interrupts it.  The context may expire at any moment; \<^verbatim>\<open>context.AfterFunc\<close> then starts the interrupt
  beside the caller, unless the caller has stopped it before.  The two meet at the connection, whose
  deadline they both set, and at a channel with room for one value.  Every interleaving is a run of the
  step relation; what the calls on the connection return is left open in each step.
\<close>

section \<open>States\<close>

text \<open>Where the caller is, with what it has learnt: the errors of the operation, of the interrupt and of
  resetting the deadline, at last its result.\<close>

datatype callerPhase =
    Running
  | Stopping "goerr option"
  | Awaiting "goerr option"
  | Resetting "goerr option" "goerr option"
  | Checking "goerr option" "goerr option" "goerr option"
  | Cancelling "goerr option"
  | Returned "goerr option"

datatype interruptPhase = Armed | Stopped | Spawned | Closing goerr | Sending "goerr option" | Ended

text \<open>The deadline of a connection: none, or one that has passed.\<close>

datatype ioDeadline = NoDeadline | PastDeadline

record operation =
  opCaller :: callerPhase
  opInterrupt :: interruptPhase
  opContext :: "goerr option"
  opChannel :: "goerr option option"
  opDeadline :: ioDeadline
  opClosed :: bool

definition startOperation :: operation where
  "startOperation = \<lparr>opCaller = Running, opInterrupt = Armed, opContext = None, opChannel = None,
     opDeadline = NoDeadline, opClosed = False\<rparr>"

section \<open>The interrupt\<close>

text \<open>\<open>SetDeadline\<close> to the present; a connection that refuses it is closed.  Closing unblocks whatever is
  read or written there, also when it reports an error.\<close>

definition interruptIO :: "goerr option \<Rightarrow> operation \<Rightarrow> operation" where
  "interruptIO deadlineErr s =
     (case deadlineErr of
        None \<Rightarrow> s\<lparr>opInterrupt := Sending None, opDeadline := PastDeadline\<rparr>
      | Some err \<Rightarrow> s\<lparr>opInterrupt := Closing err\<rparr>)"

definition closeInterrupted :: "goerr \<Rightarrow> goerr option \<Rightarrow> operation \<Rightarrow> operation" where
  "closeInterrupted interruptErr closeErr s =
     s\<lparr>opInterrupt := Sending (errorsJoin [Some interruptErr, closeErr]), opClosed := True\<rparr>"

section \<open>The caller\<close>

text \<open>\<open>stopInterrupt\<close> tells whether it kept the interrupt from being started.\<close>

definition stopInterrupt :: "operation \<Rightarrow> bool \<times> operation" where
  "stopInterrupt s = (if opInterrupt s = Armed then (True, s\<lparr>opInterrupt := Stopped\<rparr>) else (False, s))"

definition afterOperation :: "goerr option \<Rightarrow> operation \<Rightarrow> operation" where
  "afterOperation operationErr s =
     (case stopInterrupt s of
        (True, s') \<Rightarrow> s'\<lparr>opCaller := Resetting operationErr None\<rparr>
      | (False, s') \<Rightarrow> s'\<lparr>opCaller := Awaiting operationErr\<rparr>)"

definition receiveInterrupt :: "goerr option \<Rightarrow> operation \<Rightarrow> operation option" where
  "receiveInterrupt operationErr s =
     map_option (\<lambda>interruptErr. s\<lparr>opChannel := None, opCaller := Resetting operationErr interruptErr\<rparr>) (opChannel s)"

definition resetDeadline :: "goerr option \<Rightarrow> goerr option \<Rightarrow> goerr option \<Rightarrow> operation \<Rightarrow> operation" where
  "resetDeadline operationErr interruptErr resetErr s =
     s\<lparr>opCaller := Checking operationErr interruptErr resetErr,
       opDeadline := (if resetErr = None then NoDeadline else opDeadline s)\<rparr>"

definition checkContext :: "goerr option \<Rightarrow> goerr option \<Rightarrow> goerr option \<Rightarrow> operation \<Rightarrow> operation" where
  "checkContext operationErr interruptErr resetErr s =
     s\<lparr>opCaller := Cancelling (runRouterOSOperation operationErr (opContext s) interruptErr resetErr)\<rparr>"

text \<open>The deferred \<open>cancel\<close>: a context that is done already keeps its error.\<close>

definition cancelOperation :: "goerr option \<Rightarrow> operation \<Rightarrow> operation" where
  "cancelOperation result s =
     s\<lparr>opCaller := Returned result,
       opContext := (case opContext s of None \<Rightarrow> Some (Opaque ''context canceled'') | Some err \<Rightarrow> Some err)\<rparr>"

section \<open>Interleavings\<close>

text \<open>An operation that is \<open>silent\<close> waits for a router that no longer answers: it ends only when the
  deadline of the connection has passed or the connection is closed.\<close>

inductive opStep :: "bool \<Rightarrow> operation \<Rightarrow> operation \<Rightarrow> bool" for silent where
  expire: "opContext s = None \<Longrightarrow> opStep silent s (s\<lparr>opContext := Some err\<rparr>)"
| fire: "opContext s = Some err \<Longrightarrow> opInterrupt s = Armed \<Longrightarrow> opStep silent s (s\<lparr>opInterrupt := Spawned\<rparr>)"
| interrupt: "opInterrupt s = Spawned \<Longrightarrow> opStep silent s (interruptIO deadlineErr s)"
| close: "opInterrupt s = Closing err \<Longrightarrow> opStep silent s (closeInterrupted err closeErr s)"
| send: "opInterrupt s = Sending interruptErr \<Longrightarrow> opChannel s = None \<Longrightarrow>
    opStep silent s (s\<lparr>opInterrupt := Ended, opChannel := Some interruptErr\<rparr>)"
| operate: "opCaller s = Running \<Longrightarrow> (silent \<Longrightarrow> opDeadline s = PastDeadline \<or> opClosed s) \<Longrightarrow>
    opStep silent s (s\<lparr>opCaller := Stopping operationErr\<rparr>)"
| stop: "opCaller s = Stopping operationErr \<Longrightarrow> opStep silent s (afterOperation operationErr s)"
| receive: "opCaller s = Awaiting operationErr \<Longrightarrow> receiveInterrupt operationErr s = Some t \<Longrightarrow> opStep silent s t"
| reset: "opCaller s = Resetting operationErr interruptErr \<Longrightarrow>
    opStep silent s (resetDeadline operationErr interruptErr resetErr s)"
| check: "opCaller s = Checking operationErr interruptErr resetErr \<Longrightarrow>
    opStep silent s (checkContext operationErr interruptErr resetErr s)"
| cancel: "opCaller s = Cancelling result \<Longrightarrow> opStep silent s (cancelOperation result s)"

inductive_cases opStepE: "opStep silent s t"

lemmas op_step_defs = interruptIO_def closeInterrupted_def stopInterrupt_def afterOperation_def receiveInterrupt_def
  resetDeadline_def checkContext_def cancelOperation_def

section \<open>Every run ends\<close>

fun callerRank :: "callerPhase \<Rightarrow> nat" where
  "callerRank Running = 6"
| "callerRank (Stopping _) = 5"
| "callerRank (Awaiting _) = 4"
| "callerRank (Resetting _ _) = 3"
| "callerRank (Checking _ _ _) = 2"
| "callerRank (Cancelling _) = 1"
| "callerRank (Returned _) = 0"

fun interruptRank :: "interruptPhase \<Rightarrow> nat" where
  "interruptRank Armed = 4"
| "interruptRank Spawned = 3"
| "interruptRank (Closing _) = 2"
| "interruptRank (Sending _) = 1"
| "interruptRank Stopped = 0"
| "interruptRank Ended = 0"

definition opRank :: "operation \<Rightarrow> nat" where
  "opRank s = callerRank (opCaller s) + interruptRank (opInterrupt s) + (if opContext s = None then 1 else 0)"

lemma opStep_rank: "opStep silent s t \<Longrightarrow> opRank t < opRank s"
  by (induction rule: opStep.induct) (auto simp: opRank_def op_step_defs split: option.split if_splits)

lemma opRun_rank: "(opStep silent ^^ n) s t \<Longrightarrow> n + opRank t \<le> opRank s"
proof (induction n arbitrary: t)
  case (Suc n)
  then obtain u where "(opStep silent ^^ n) s u" and "opStep silent u t" by auto
  with Suc.IH opStep_rank[of silent u t] show ?case by fastforce
qed simp

section \<open>What a run keeps\<close>

text \<open>Whether the interrupt has reached the connection, and whether it may still touch it.\<close>

fun reached :: "interruptPhase \<Rightarrow> bool" where
  "reached (Sending _) = True"
| "reached Ended = True"
| "reached _ = False"

definition settled :: "operation \<Rightarrow> bool" where
  "settled s \<longleftrightarrow> (opInterrupt s = Stopped \<or> opInterrupt s = Ended) \<and> opChannel s = None"

text \<open>A deadline is left on the connection only by a reset that failed, and the result says so.\<close>

definition resetReported :: "operation \<Rightarrow> goerr option \<Rightarrow> bool" where
  "resetReported s r \<longleftrightarrow> opDeadline s = PastDeadline \<longrightarrow>
     (\<exists>operationErr contextErr interruptErr resetErr.
        r = runRouterOSOperation operationErr contextErr interruptErr (Some resetErr))"

fun callerInv :: "operation \<Rightarrow> callerPhase \<Rightarrow> bool" where
  "callerInv s Running \<longleftrightarrow> opInterrupt s \<noteq> Stopped \<and> (reached (opInterrupt s) \<longrightarrow> opDeadline s = PastDeadline \<or> opClosed s)"
| "callerInv s (Stopping _) \<longleftrightarrow> opInterrupt s \<noteq> Stopped"
| "callerInv s (Awaiting _) \<longleftrightarrow> opInterrupt s \<noteq> Stopped \<and> opInterrupt s \<noteq> Armed"
| "callerInv s (Resetting _ _) \<longleftrightarrow> settled s"
| "callerInv s (Checking _ _ resetErr) \<longleftrightarrow> settled s \<and> (resetErr = None \<longrightarrow> opDeadline s = NoDeadline)"
| "callerInv s (Cancelling r) \<longleftrightarrow> settled s \<and> (opInterrupt s = Ended \<longrightarrow> r \<noteq> None) \<and> resetReported s r"
| "callerInv s (Returned r) \<longleftrightarrow> settled s \<and> (opInterrupt s = Ended \<longrightarrow> r \<noteq> None) \<and> resetReported s r \<and>
     opContext s \<noteq> None"

definition opInv :: "operation \<Rightarrow> bool" where
  "opInv s \<longleftrightarrow> callerInv s (opCaller s) \<and>
     (opInterrupt s \<noteq> Armed \<and> opInterrupt s \<noteq> Stopped \<longrightarrow> opContext s \<noteq> None) \<and>
     (opDeadline s = PastDeadline \<or> opClosed s \<longrightarrow> reached (opInterrupt s)) \<and>
     (opChannel s \<noteq> None \<longrightarrow> opInterrupt s = Ended) \<and>
     (opInterrupt s = Ended \<and> 4 \<le> callerRank (opCaller s) \<longrightarrow> opChannel s \<noteq> None)"

lemma context_error_reported: "runRouterOSOperation operationErr (Some err) interruptErr resetErr \<noteq> None"
  by (simp add: runRouterOSOperation_def errorsJoin_def Let_def)

lemma opInv_start: "opInv startOperation"
  by (simp add: opInv_def startOperation_def)

lemma opInv_step:
  assumes "opStep silent s t" and "opInv s"
  shows "opInv t"
  using assms
proof (induction rule: opStep.induct)
  case (expire s err)
  thus ?case by (cases "opCaller s") (auto simp: opInv_def settled_def resetReported_def)
next
  case (fire s err)
  thus ?case by (cases "opCaller s") (auto simp: opInv_def settled_def resetReported_def)
next
  case (interrupt s deadlineErr)
  thus ?case
    by (cases "opCaller s"; cases deadlineErr) (auto simp: opInv_def settled_def resetReported_def interruptIO_def)
next
  case (close s err closeErr)
  thus ?case by (cases "opCaller s") (auto simp: opInv_def settled_def resetReported_def closeInterrupted_def)
next
  case (send s interruptErr)
  thus ?case by (cases "opCaller s") (auto simp: opInv_def settled_def resetReported_def)
next
  case (operate s operationErr)
  thus ?case by (auto simp: opInv_def)
next
  case (stop s operationErr)
  thus ?case by (auto simp: opInv_def settled_def afterOperation_def stopInterrupt_def)
next
  case (receive s operationErr t)
  thus ?case by (auto simp: opInv_def settled_def receiveInterrupt_def)
next
  case (reset s operationErr interruptErr resetErr)
  thus ?case by (auto simp: opInv_def settled_def resetDeadline_def)
next
  case (check s operationErr interruptErr resetErr)
  thus ?case
    by (cases "opContext s"; cases resetErr)
      (auto simp: opInv_def settled_def resetReported_def checkContext_def context_error_reported intro: exI)
next
  case (cancel s result)
  thus ?case by (auto simp: opInv_def settled_def resetReported_def cancelOperation_def split: option.split)
qed

lemma opInv_run: "(opStep silent ^^ n) startOperation s \<Longrightarrow> opInv s"
  by (induction n arbitrary: s) (auto simp: opInv_start intro: opInv_step)

text \<open>Who can go on: the interrupt on its own until it is done, the caller unless it waits for it.\<close>

lemma interrupt_goes_on:
  assumes "opInv s" and "opInterrupt s \<notin> {Armed, Stopped, Ended}"
  shows "\<exists>t. opStep silent s t"
proof (cases "opInterrupt s")
  case (Sending interruptErr)
  with assms(1) have "opChannel s = None" by (auto simp: opInv_def)
  with Sending show ?thesis by (meson opStep.send)
qed (use assms(2) in \<open>auto intro: opStep.interrupt opStep.close\<close>)

lemma running_goes_on:
  assumes "opInv s" and "opCaller s = Running"
  shows "\<exists>t. opStep silent s t"
proof -
  consider "opInterrupt s = Armed" | "opInterrupt s = Ended" | "opInterrupt s \<notin> {Armed, Stopped, Ended}"
    using assms by (auto simp: opInv_def)
  thus ?thesis
  proof cases
    case 1
    thus ?thesis by (cases "opContext s") (auto intro: opStep.expire opStep.fire)
  next
    case 2
    with assms have "opDeadline s = PastDeadline \<or> opClosed s" by (simp add: opInv_def)
    with assms(2) show ?thesis by (blast intro: opStep.operate)
  next
    case 3
    with assms(1) show ?thesis by (rule interrupt_goes_on)
  qed
qed

lemma awaiting_goes_on:
  assumes "opInv s" and "opCaller s = Awaiting operationErr"
  shows "\<exists>t. opStep silent s t"
proof (cases "opInterrupt s = Ended")
  case True
  with assms obtain ie where "opChannel s = Some ie" by (auto simp: opInv_def)
  hence "receiveInterrupt operationErr s = Some (s\<lparr>opChannel := None, opCaller := Resetting operationErr ie\<rparr>)"
    by (simp add: receiveInterrupt_def)
  with assms(2) show ?thesis by (blast intro: opStep.receive)
next
  case False
  with assms have "opInterrupt s \<notin> {Armed, Stopped, Ended}" by (auto simp: opInv_def)
  with assms(1) show ?thesis by (rule interrupt_goes_on)
qed

lemma unreturned_goes_on:
  assumes "opInv s" and "\<nexists>r. opCaller s = Returned r"
  shows "\<exists>t. opStep silent s t"
  using assms running_goes_on[OF assms(1)] awaiting_goes_on[OF assms(1)]
  by (cases "opCaller s") (blast intro: opStep.stop opStep.reset opStep.check opStep.cancel)+

lemma returned_is_final:
  assumes "opInv s" and "opCaller s = Returned r"
  shows "\<not> opStep silent s t"
  using assms by (auto simp: opInv_def settled_def elim!: opStepE)

section \<open>The operation\<close>

text \<open>
  C34.  An operation ends and leaves the connection to the next one.  In every interleaving of the caller,
  the expiry of the context and the interrupt, also when the router never answers: a run has at most
  eleven steps and can go on until the caller has returned.  When it has returned, no interrupt is left
  that could touch the connection; one that was started makes the result an error; a passed deadline
  stays on the connection only if resetting it failed and the result says so; and a result without an
  error leaves the connection open and without a deadline.
\<close>

theorem operation_ends_clean:
  assumes "(opStep silent ^^ n) startOperation s"
  shows "n \<le> 11 \<and> ((\<exists>t. opStep silent s t) \<longleftrightarrow> (\<nexists>r. opCaller s = Returned r)) \<and>
    (\<forall>r. opCaller s = Returned r \<longrightarrow>
       (opInterrupt s = Stopped \<or> opInterrupt s = Ended \<and> r \<noteq> None) \<and> resetReported s r \<and>
       (r = None \<longrightarrow> opDeadline s = NoDeadline \<and> \<not> opClosed s))"
proof (intro conjI allI impI iffI)
  have inv_s: "opInv s" using assms by (rule opInv_run)
  show "n \<le> 11" using opRun_rank[OF assms] by (simp add: opRank_def startOperation_def)
  show "\<exists>t. opStep silent s t" if "\<nexists>r. opCaller s = Returned r" using inv_s that by (rule unreturned_goes_on)
  show "\<nexists>r. opCaller s = Returned r" if "\<exists>t. opStep silent s t" using that returned_is_final[OF inv_s] by blast
  fix r assume r: "opCaller s = Returned r"
  with inv_s have *: "settled s" "opInterrupt s = Ended \<longrightarrow> r \<noteq> None" "resetReported s r"
    by (simp_all add: opInv_def)
  thus "opInterrupt s = Stopped \<or> opInterrupt s = Ended \<and> r \<noteq> None" and "resetReported s r"
    by (auto simp: settled_def)
  { assume "r = None"
    with * have "opInterrupt s = Stopped" by (auto simp: settled_def)
    with inv_s show "opDeadline s = NoDeadline" and "\<not> opClosed s"
      by (cases "opDeadline s"; simp add: opInv_def)+ }
qed

text \<open>The longest run: the router is silent and the connection refuses the deadline, so it is closed.\<close>

lemma run_of_states:
  "successively (opStep silent) (s # states) \<Longrightarrow> (opStep silent ^^ length states) s (List.last (s # states))"
proof (induction states arbitrary: s)
  case (Cons t states)
  hence "opStep silent s t" and "(opStep silent ^^ length states) t (List.last (t # states))" by auto
  hence "(opStep silent ^^ Suc (length states)) s (List.last (t # states))" by (rule relpowp_Suc_I2)
  thus ?case by simp
qed simp

definition expiredErr :: goerr where "expiredErr = Opaque ''context deadline exceeded''"
definition refusedErr :: goerr where "refusedErr = Opaque ''set deadline''"
definition closedErr :: "goerr option" where "closedErr = Some (Opaque ''use of closed network connection'')"

definition closedStates :: "operation list" where
  "closedStates =
     (let s1 = startOperation\<lparr>opContext := Some expiredErr\<rparr>;
          s2 = s1\<lparr>opInterrupt := Spawned\<rparr>;
          s3 = interruptIO (Some refusedErr) s2;
          s4 = closeInterrupted refusedErr None s3;
          s5 = s4\<lparr>opInterrupt := Ended, opChannel := Some (errorsJoin [Some refusedErr, None])\<rparr>;
          s6 = s5\<lparr>opCaller := Stopping closedErr\<rparr>;
          s7 = afterOperation closedErr s6;
          s8 = s7\<lparr>opChannel := None, opCaller := Resetting closedErr (errorsJoin [Some refusedErr, None])\<rparr>;
          s9 = resetDeadline closedErr (errorsJoin [Some refusedErr, None]) closedErr s8;
          s10 = checkContext closedErr (errorsJoin [Some refusedErr, None]) closedErr s9;
          s11 = cancelOperation (runRouterOSOperation closedErr (opContext s9) (errorsJoin [Some refusedErr, None]) closedErr) s10
      in [s1, s2, s3, s4, s5, s6, s7, s8, s9, s10, s11])"

lemma closedStates_run: "successively (opStep True) (startOperation # closedStates)"
  unfolding closedStates_def Let_def successively.simps
  by (intro conjI TrueI opStep.expire opStep.fire opStep.interrupt opStep.close opStep.send opStep.operate opStep.stop
      opStep.receive opStep.reset opStep.check opStep.cancel) (simp_all add: startOperation_def op_step_defs)

theorem operation_ends_clean_witness:
  "(opStep True ^^ 11) startOperation (closedStates ! 10) \<and> opClosed (closedStates ! 10) \<and>
   (\<exists>r. opCaller (closedStates ! 10) = Returned (Some r)) \<and> \<not> (\<exists>t. opStep True (closedStates ! 10) t)"
proof -
  have "length closedStates = 11" and "List.last (startOperation # closedStates) = closedStates ! 10"
    by (simp_all add: closedStates_def Let_def)
  with run_of_states[OF closedStates_run] have run: "(opStep True ^^ 11) startOperation (closedStates ! 10)"
    by (simp only:)
  obtain r where r: "opCaller (closedStates ! 10) = Returned r"
    by (simp add: closedStates_def Let_def cancelOperation_def)
  have closed: "opClosed (closedStates ! 10)"
    by (simp add: closedStates_def Let_def startOperation_def op_step_defs)
  with operation_ends_clean[OF run] r have "r \<noteq> None" and "\<not> (\<exists>t. opStep True (closedStates ! 10) t)" by auto
  with run closed r show ?thesis by auto
qed

end
