(* ===== verification/Spec2Isabelle.thy ===== *)
theory Spec2Isabelle
  imports RouterOS_Properties RouterOS_Restore Reconcile_Properties Fences Translate_Properties Children_Properties
    Ui_Properties Ui_Backend Client_Session Manager_Setup Connection_Balance
    Deletion_Properties Claim_Properties Router_Properties Chart_Check Crd_Check Ui_E2E Operation_Interrupt
begin

text \<open>
  A verification of the MikroTik operator: a Kubernetes operator that keeps DNS entries, NAT rules,
  routes and firewall rules of MikroTik routers in line with custom resources, and generates such
  resources from annotated Services, Ingresses and HTTPRoutes.  The model follows the Go sources under
  \<^verbatim>\<open>src/\<close>; definitions keep the names of the functions they translate.

  \<^bold>\<open>How programs are modelled.\<close>  A Go function that reads or changes the world is a
  \<^verbatim>\<open>('w, 'a) prog\<close> of \<open>Go_Prelude\<close>: from a world to an error or a value, and the next world, also when
  it fails.  Errors are the datatype \<open>goerr\<close>: texts, wrapped and joined errors, and the status errors of
  the API server, so that \<^verbatim>\<open>errors.Is\<close>, \<^verbatim>\<open>errors.As\<close> and \<^verbatim>\<open>IsNotFound\<close> are functions of the value.
  \<open>tryE\<close> is a call whose error is inspected, \<open>bindE\<close> one whose error is returned, \<open>deferE\<close> a deferred
  call, \<open>forE\<close> a loop.  Strings are lists of bytes; maps from strings are association lists read with
  \<open>mget\<close>, as Go reads a missing key as the empty string; a pointer that may be nil is an option.  The
  code does no arithmetic that can overflow on the numbers of the resources (ports, distances), so these
  are \<open>int\<close>; SHA-1 works on 32-bit words.

  \<^bold>\<open>What is a parameter.\<close>  Code that is not under \<^verbatim>\<open>src/\<close> is an argument: the record \<open>env\<close> of
  \<open>Kube_Env\<close> holds the stores of the API server, the clock, \<^verbatim>\<open>SetControllerReference\<close>, the connection
  factory and the acquire and release of fences; \<open>netEnv\<close> the reads of networking objects and label
  selectors; \<open>rosClient\<close> the function that sends a sentence to a router; \<open>uiEnv\<close> YAML decoding, JSON
  rendering, name validation and files of the UI; \<open>dialIO\<close> and \<open>backendIO\<close> the results of sockets,
  go-routeros and Kubernetes configuration.  What the properties need of them are the laws of locales,
  each interpreted on an executable cluster or router (\<open>Kube_Sim\<close>, \<open>RouterOS_Sim\<close>), where the witnesses
  are evaluated.

  \<^bold>\<open>Parts and theories.\<close>
  \<^item> Base: \<open>Go_Prelude\<close> (programs, errors, the frame locales), \<open>Go_Strings\<close>, \<open>Go_Net\<close> (IP addresses),
    \<open>Go_Sha1\<close>, \<open>Go_Path\<close> (\<^verbatim>\<open>path.Clean\<close>, \<^verbatim>\<open>filepath.Join\<close> and \<^verbatim>\<open>Rel\<close>), \<open>Api_Types\<close>
    (\<^verbatim>\<open>api/v1alpha1\<close>).
  \<^item> \<^verbatim>\<open>internal/routeros/client.go\<close>: \<open>RouterOS_Client\<close> has the Ensure and Delete operations and the
    sweep; \<open>Client_Session\<close> Dial, Close and the timeout of a sentence; \<open>Operation_Interrupt\<close> an operation
    with the goroutine that interrupts it, in all interleavings.  \<open>RouterOS_Device\<close> states the
    documented behaviour of a router's menus as the locale \<open>routeros_device\<close>; \<open>RouterOS_Contracts\<close> and
    \<open>RouterOS_Objects\<close> prove what each operation achieves and leaves alone under these laws;
    \<open>RouterOS_Frames\<close> what removals keep; \<open>RouterOS_Sim\<close> is a router that meets them;
    \<open>RouterOS_Properties\<close> has the statements.
  \<^item> \<^verbatim>\<open>internal/routeros/export.go\<close>: \<open>RouterOS_Export\<close> (statements, chunks, the import loop) and
    \<open>RouterOS_Restore\<close> (lossless splitting, the size bound, order, totality, the trace of an import).
  \<^item> \<^verbatim>\<open>router_helpers.go\<close>, \<^verbatim>\<open>router_fence.go\<close>, \<^verbatim>\<open>status_helpers.go\<close>: \<open>Router_Refs\<close> (references and
    their resolution), \<open>Router_Endpoints\<close> (identity and history of devices, ownership), \<open>Router_Targets\<close>
    (the annotation that records the routers of an object), \<open>Router_Connect\<close> (connections, operations
    under the fence, cleanups), \<open>Connection_Balance\<close> (how many connections stay open), \<open>Fences\<close> (the
    registry of fences and the interleavings of its users as an inductive step relation).
  \<^item> \<^verbatim>\<open>router_controller.go\<close>, the reconcilers of resources: \<open>Router_Reconcile\<close>, \<open>Config_Reconcile\<close>
    (routes and firewall rules), \<open>Child_Reconcile\<close> (DNS records and port forwards), \<open>Claims\<close>
    (arbitration of hostnames and ports), \<open>Cluster_Routes\<close> (also \<^verbatim>\<open>cluster_routes.go\<close>).
  \<^item> \<^verbatim>\<open>router_controller.go\<close>, the translators: \<open>Forward_Children\<close>, \<open>Service_Translate\<close>,
    \<open>Ingress_Translate\<close>, \<open>Gateway_Hostnames\<close>, \<open>HTTPRoute_Translate\<close>; \<open>Manager_Setup\<close> the wiring of the
    controllers.
  \<^item> The tools of the build: \<open>Chart_Check\<close> (\<^verbatim>\<open>hack/uichart\<close>, the check of the rendered chart), \<open>Crd_Check\<close>
    (\<^verbatim>\<open>hack/crdvalidate\<close>, the check of the resource definitions), \<open>Ui_E2E\<close> (\<^verbatim>\<open>hack/e2e-ui/verify.go\<close>, the
    end-to-end check of the UI).  YAML, JSON, files, HTTP, the clock and the validation of the Kubernetes
    libraries are parameters of theirs.
  \<^item> \<^verbatim>\<open>internal/uiapi\<close>: \<open>Ui_Api\<close> (kinds, responses, the client on any kind) and \<open>Ui_Handlers\<close> (every
    handler and the table of patterns); \<^verbatim>\<open>cmd/ui-backend\<close>: \<open>Ui_Backend\<close>.

  \<^bold>\<open>What the lemmas show.\<close>
  \<^item> \<open>Kube_Frame\<close>, \<open>Translate_Frame\<close>, \<open>Ui_Frame\<close>: a relation between worlds that the calls of the
    environment keep is kept by whole programs.  \<open>Reconcile_Frame\<close> uses it with a relation that fails
    only when something is added to a router, so that what comes before such a step is established;
    \<open>Write_Log\<close> with a log of the writes.
  \<^item> \<open>Device_Cluster\<close>, \<open>Reconcile_Applied\<close>, \<open>Kube_Sim\<close>, \<open>Reconcile_Properties\<close>: when a pass marks an
    object as applied, every endpoint of its router holds exactly its entries.
  \<^item> \<open>Deletion\<close> and \<open>Deletion_Properties\<close>: the deletion of every kind of object on any cluster of devices
    gives up the finalizer only after the recorded devices are clean, and the case in which a missing
    Secret makes it forget them.
  \<^item> \<open>Claim_Properties\<close>: one owner per device, the arbitration of claims, what a granted claim excludes;
    \<open>Router_Properties\<close>: the history of endpoints, and that a router is recorded before it is contacted.
  \<^item> \<open>Chart_Check\<close>, \<open>Crd_Check\<close>, \<open>Ui_E2E\<close>: what the checks accept, exactly, and that the wait ends.
  \<^item> \<open>Child_Sync\<close>, \<open>Children_Applied\<close>, \<open>Children_Properties\<close>: the abstract specification \<open>in_sync\<close> of the
    children of an owner, and the refinement of it by the three reconciliations of the code, under the
    laws of the locale \<open>object_store\<close>.
  \<^item> \<open>Translate_Properties\<close>: hostname intersection, reference grants, ambiguity of public ports, names.
  \<^item> \<open>Ui_Properties\<close>: permitted writes, answers, refusals, confinement of static files.

  \<^bold>\<open>Bounds.\<close>  Loops of the code are recursions over lists that are read before, so their definitions are
  total without fuel.  The exception is the wait of \<open>Ui_E2E\<close>, which depends on the clock: it is a
  \<open>partial_function (option)\<close>, where \<open>None\<close> means that it never returns; with a clock that runs, its
  version with sixty attempts is equal to it, since thirty seconds hold sixty pauses of half a second.
  Restore scripts are cut at 4095 bytes and exports at 1 MiB, as in the code.

  \<^bold>\<open>Idealisations.\<close>  A pass runs without other writers of the API server in the properties that speak
  of its stores; the fences of the process are modelled as acquire and release in the passes and with
  all interleavings in \<open>Fences\<close>.  Endpoints with different keys are different devices.  The kind in an
  owner's TypeMeta is taken as empty, which only shows in error texts.  Logging is left out.

  \<^bold>\<open>Not modelled.\<close>  Generated deep copies and scheme registration (values are immutable here); the body of
  \<^verbatim>\<open>cmd/manager\<close>, flag declarations and calls of the controller library in sequence; the list types, which hold
  nothing but their items; \<^verbatim>\<open>hack/e2e\<close>, which asserts what a fixed script left on a test router; the template
  under \<^verbatim>\<open>skills/\<close>, whose placeholders are of another operator; and the SPA under \<^verbatim>\<open>web/\<close>.  No code of the
  repository reads the backup and restore types yet, so these are data only.
\<close>

end
